(* ===== verification/RR_Scores.thy ===== *)
theory RR_Scores
  imports Complex_Main "HOL-Library.Log_Nat"
begin

text \<open>
  The arithmetic of \<^verbatim>\<open>double\<close> as far as the ranking of candidates uses it: finite
  values are rationals, and every operation rounds its exact result to 53 significant bits, ties to
  even. Scores lie between \<open>- 2 ^ 70\<close> and \<open>2 ^ 70\<close> and are integers or quotients of counts, so
  neither overflow nor subnormal results occur.

  The lemmas show that integers of at most 53 bits are represented exactly, so that sums of small
  factors carry no rounding error.
\<close>

type_synonym score = rat

definition pow2 :: "int \<Rightarrow> score" where
  "pow2 k = (if 0 \<le> k then 2 ^ nat k else 1 / 2 ^ nat (- k))"

text \<open>The exponent of the leading bit of a positive rational.\<close>

definition binary_exponent :: "score \<Rightarrow> int" where
  "binary_exponent x =
    (let (p, q) = quotient_of x; k = bitlen p - bitlen q
     in if pow2 k \<le> x then k else k - 1)"

definition round_half_even :: "score \<Rightarrow> int" where
  "round_half_even y =
    (let f = \<lfloor>y\<rfloor>; d = y - of_int f
     in if d < 1 / 2 then f else if 1 / 2 < d then f + 1 else if even f then f else f + 1)"

definition f64_round :: "score \<Rightarrow> score" where
  "f64_round x =
    (if x = 0 then 0
     else let ulp = pow2 (binary_exponent \<bar>x\<bar> - 52)
       in of_int (round_half_even (x / ulp)) * ulp)"

definition f64_add :: "score \<Rightarrow> score \<Rightarrow> score" where
  "f64_add a b = f64_round (a + b)"

definition f64_mul :: "score \<Rightarrow> score \<Rightarrow> score" where
  "f64_mul a b = f64_round (a * b)"

definition f64_div :: "score \<Rightarrow> score \<Rightarrow> score" where
  "f64_div a b = f64_round (a / b)"

definition f64_of_int :: "int \<Rightarrow> score" where
  "f64_of_int n = f64_round (of_int n)"

lemma round_half_even_of_int [simp]: "round_half_even (of_int n) = n"
  by (simp add: round_half_even_def)

lemma pow2_pos [simp]: "0 < pow2 k"
  by (simp add: pow2_def)

lemma pow2_neg: "pow2 (- k) = 1 / pow2 k"
  by (auto simp: pow2_def)

lemma binary_exponent_int:
  assumes "0 < n"
  shows "binary_exponent (of_int n) = bitlen n - 1"
proof -
  have q: "quotient_of (of_int n) = (n, 1)" by (simp add: of_int_rat quotient_of_Fract normalize_def)
  have one: "bitlen 1 = 1" by (simp add: bitlen_def floorlog_def)
  have "(2::int) ^ nat (bitlen n - 1) \<le> n" using bitlen_bounds [OF assms] by simp
  then have "of_int (2 ^ nat (bitlen n - 1)) \<le> (of_int n :: rat)" by (simp only: of_int_le_iff)
  moreover have "0 \<le> bitlen n - 1" using assms bitlen_ge_iff_power [of 1 n] by simp
  ultimately show ?thesis
    by (simp add: binary_exponent_def q one pow2_def)
qed

text \<open>A rational whose quotient by the unit in the last place is an integer is representable.\<close>

lemma f64_round_exact:
  assumes "x / pow2 (binary_exponent \<bar>x\<bar> - 52) = of_int m"
  shows "f64_round x = x"
proof (cases "x = 0")
  case False
  let ?u = "pow2 (binary_exponent \<bar>x\<bar> - 52)"
  have "f64_round x = of_int m * ?u"
    using False assms by (simp add: f64_round_def Let_def)
  also have "\<dots> = x"
    using assms pow2_pos [of "binary_exponent \<bar>x\<bar> - 52"] by (simp add: field_simps)
  finally show ?thesis .
qed (simp add: f64_round_def)

lemma f64_of_int_exact:
  assumes "\<bar>n\<bar> < 2 ^ 53"
  shows "f64_of_int n = of_int n"
proof (cases "n = 0")
  case True
  then show ?thesis by (simp add: f64_of_int_def f64_round_def)
next
  case False
  have e: "binary_exponent \<bar>of_int n\<bar> = bitlen \<bar>n\<bar> - 1"
    using binary_exponent_int [of "\<bar>n\<bar>"] False by simp
  have le: "bitlen \<bar>n\<bar> \<le> 53"
    using assms bitlen_le_iff_power [of "\<bar>n\<bar>" 53] by simp
  let ?k = "nat (53 - bitlen \<bar>n\<bar>)"
  have "pow2 (binary_exponent \<bar>of_int n\<bar> - 52) = 1 / 2 ^ ?k"
    using le by (auto simp: pow2_def e)
  then have "of_int n / pow2 (binary_exponent \<bar>of_int n :: rat\<bar> - 52) = of_int (n * 2 ^ ?k)"
    by simp
  from f64_round_exact [OF this] show ?thesis by (simp add: f64_of_int_def)
qed

lemma f64_add_exact:
  "\<bar>a + b\<bar> < 2 ^ 53 \<Longrightarrow> f64_add (of_int a) (of_int b) = of_int (a + b)"
  using f64_of_int_exact [of "a + b"] by (simp add: f64_add_def f64_of_int_def)

lemma f64_div_self: "0 < x \<Longrightarrow> f64_div x x = 1"
  using f64_of_int_exact [of 1] by (simp add: f64_div_def f64_of_int_def)

end
