(* ===== verification/RR_Prelude.thy ===== *)
theory RR_Prelude
  imports Main "HOL-Library.Word" "HOL-Library.AList"
begin

text \<open>
  Shared vocabulary of the development: the machine integer types of the C++ sources, the hash
  maps, the outcome of a call that may throw, and the decimal rendering that
  \<^verbatim>\<open>std::to_string\<close> and \<^verbatim>\<open>operator<<\<close> perform on unsigned
  integers.

  A \<^verbatim>\<open>std::unordered_map\<close> is an association list with distinct keys. The order
  of the list stands for the iteration order of the container, which the C++ standard leaves
  open: assignment to a present key keeps its place, a new key goes to the end. Results that must
  not depend on that order are stated and proved as such.
\<close>

named_theorems frame_simps \<open>what an operation leaves unchanged\<close>
named_theorems inv_intros \<open>preservation of invariants by operations\<close>

section \<open>Machine integers\<close>

type_synonym u8 = "8 word"
type_synonym u16 = "16 word"
type_synonym u32 = "32 word"
type_synonym u64 = "64 word"

text \<open>A signed 64-bit integer is its two's complement word, read with \<open>sint\<close>.\<close>

type_synonym i64 = "64 word"

section \<open>Outcomes of calls\<close>

text \<open>
  A call returns a value or throws. An operation of the registry is a function from the registry
  to an outcome and the registry it leaves behind: C++ keeps every write that was made before a
  \<^verbatim>\<open>throw\<close>, so the state is part of the result in both cases.
\<close>

datatype ('e, 'a) outcome = Return 'a | Throw 'e

definition returned :: "('e, 'a) outcome \<Rightarrow> bool" where
  "returned x = (case x of Return _ \<Rightarrow> True | Throw _ \<Rightarrow> False)"

lemma returned_simps [simp]:
  "returned (Return a)" "\<not> returned (Throw e)"
  by (simp_all add: returned_def)

lemma returned_iff: "returned x \<longleftrightarrow> (\<exists>a. x = Return a)"
  by (cases x) auto

section \<open>Hash maps\<close>

type_synonym ('k, 'v) hmap = "('k \<times> 'v) list"

definition hm_find :: "('k, 'v) hmap \<Rightarrow> 'k \<Rightarrow> 'v option" where
  "hm_find m k = map_of m k"

definition hm_put :: "'k \<Rightarrow> 'v \<Rightarrow> ('k, 'v) hmap \<Rightarrow> ('k, 'v) hmap" where
  "hm_put k v m = AList.update k v m"

definition hm_erase :: "'k \<Rightarrow> ('k, 'v) hmap \<Rightarrow> ('k, 'v) hmap" where
  "hm_erase k m = AList.delete k m"

text \<open>A range-for over the map that assigns to every value.\<close>

definition hm_map :: "('v \<Rightarrow> 'v) \<Rightarrow> ('k, 'v) hmap \<Rightarrow> ('k, 'v) hmap" where
  "hm_map f m = map (\<lambda>(k, v). (k, f v)) m"

definition hm_keys :: "('k, 'v) hmap \<Rightarrow> 'k list" where
  "hm_keys m = map fst m"

definition hm_wf :: "('k, 'v) hmap \<Rightarrow> bool" where
  "hm_wf m \<longleftrightarrow> distinct (map fst m)"

lemma hm_find_Nil [simp]: "hm_find [] k = None"
  by (simp add: hm_find_def)

lemma hm_find_Cons [simp]:
  "hm_find ((k, v) # m) k' = (if k' = k then Some v else hm_find m k')"
  by (simp add: hm_find_def)

lemma hm_put_Nil [simp]: "hm_put k v [] = [(k, v)]"
  by (simp add: hm_put_def)

lemma hm_put_Cons [simp]:
  "hm_put k v ((k', v') # m) = (if k' = k then (k, v) # m else (k', v') # hm_put k v m)"
  by (simp add: hm_put_def)

lemma hm_map_simps [simp]:
  "hm_map f [] = []"
  "hm_map f ((k, v) # m) = (k, f v) # hm_map f m"
  by (simp_all add: hm_map_def)

lemma hm_find_put [simp]: "hm_find (hm_put k v m) k' = (if k' = k then Some v else hm_find m k')"
  by (simp add: hm_find_def hm_put_def update_conv')

lemma hm_find_erase [simp]:
  "hm_find (hm_erase k m) k' = (if k' = k then None else hm_find m k')"
  by (simp add: hm_find_def hm_erase_def delete_conv')

lemma hm_find_map [simp]: "hm_find (hm_map f m) k = map_option f (hm_find m k)"
  by (induction m) (auto simp: hm_find_def hm_map_def)

lemma hm_wf_Nil [simp, intro]: "hm_wf []"
  by (simp add: hm_wf_def)

lemma hm_wf_put [simp, intro]: "hm_wf m \<Longrightarrow> hm_wf (hm_put k v m)"
  by (simp add: hm_wf_def hm_put_def distinct_update)

lemma hm_wf_erase [simp, intro]: "hm_wf m \<Longrightarrow> hm_wf (hm_erase k m)"
  by (simp add: hm_wf_def hm_erase_def distinct_delete)

lemma map_fst_hm_map: "map fst (hm_map f m) = map fst m"
  by (induction m) (auto simp: hm_map_def)

lemma hm_wf_map [simp]: "hm_wf (hm_map f m) \<longleftrightarrow> hm_wf m"
  by (simp add: hm_wf_def map_fst_hm_map)

lemma hm_find_in_set: "hm_find m k = Some v \<Longrightarrow> (k, v) \<in> set m"
  by (simp add: hm_find_def map_of_SomeD)

lemma in_set_hm_find: "hm_wf m \<Longrightarrow> (k, v) \<in> set m \<Longrightarrow> hm_find m k = Some v"
  by (simp add: hm_find_def hm_wf_def)

lemma hm_find_iff: "hm_wf m \<Longrightarrow> hm_find m k = Some v \<longleftrightarrow> (k, v) \<in> set m"
  by (metis hm_find_in_set in_set_hm_find)

lemma hm_find_None_iff: "hm_find m k = None \<longleftrightarrow> k \<notin> fst ` set m"
  by (simp add: hm_find_def map_of_eq_None_iff)

lemma set_hm_put: "set (hm_put k v m) \<subseteq> insert (k, v) (set m)"
  by (induction m) (auto split: if_splits)

lemma length_hm_put:
  "length (hm_put k v m) = (if hm_find m k = None then Suc (length m) else length m)"
  by (induction m) (auto split: if_splits)

text \<open>
  A \<^verbatim>\<open>std::unordered_set\<close> is a list without repetitions, and a secondary index
  maps a key to such a set: \<open>index_insert k x\<close> is
  \<^verbatim>\<open>index[k].insert(x)\<close>.
\<close>

type_synonym 'a hset = "'a list"

definition hs_insert :: "'a \<Rightarrow> 'a hset \<Rightarrow> 'a hset" where
  "hs_insert x s = (if x \<in> set s then s else s @ [x])"

definition hs_erase :: "'a \<Rightarrow> 'a hset \<Rightarrow> 'a hset" where
  "hs_erase x s = filter (\<lambda>y. y \<noteq> x) s"

definition index_insert :: "'k \<Rightarrow> 'a \<Rightarrow> ('k, 'a hset) hmap \<Rightarrow> ('k, 'a hset) hmap" where
  "index_insert k x m =
    hm_put k (hs_insert x (case hm_find m k of None \<Rightarrow> [] | Some s \<Rightarrow> s)) m"

definition index_members :: "('k, 'a hset) hmap \<Rightarrow> 'k \<Rightarrow> 'a set" where
  "index_members m k = (case hm_find m k of None \<Rightarrow> {} | Some s \<Rightarrow> set s)"

lemma set_hs_insert [simp]: "set (hs_insert x s) = insert x (set s)"
  by (auto simp: hs_insert_def)

lemma set_hs_erase [simp]: "set (hs_erase x s) = set s - {x}"
  by (auto simp: hs_erase_def)

lemma distinct_hs_insert [simp]: "distinct (hs_insert x s) \<longleftrightarrow> distinct s"
  by (simp add: hs_insert_def)

lemma distinct_hs_erase [simp]: "distinct s \<Longrightarrow> distinct (hs_erase x s)"
  by (simp add: hs_erase_def)

lemma index_members_insert [simp]:
  "index_members (index_insert k x m) k' =
    (if k' = k then insert x (index_members m k) else index_members m k')"
  by (simp add: index_members_def index_insert_def split: option.splits)

lemma index_members_Nil [simp]: "index_members [] k = {}"
  by (simp add: index_members_def)

section \<open>Decimal rendering of unsigned integers\<close>

definition digit_char :: "nat \<Rightarrow> char" where
  "digit_char d = char_of (48 + d)"

fun show_nat :: "nat \<Rightarrow> string" where
  "show_nat n = (if n < 10 then [digit_char n] else show_nat (n div 10) @ [digit_char (n mod 10)])"

declare show_nat.simps [simp del]

lemma digit_char_simps [simp]:
  "digit_char 0 = CHR ''0''" "digit_char (Suc 0) = CHR ''1''" "digit_char 1 = CHR ''1''"
  "digit_char 2 = CHR ''2''" "digit_char 3 = CHR ''3''" "digit_char 4 = CHR ''4''"
  "digit_char 5 = CHR ''5''" "digit_char 6 = CHR ''6''" "digit_char 7 = CHR ''7''"
  "digit_char 8 = CHR ''8''" "digit_char 9 = CHR ''9''"
  by (simp_all add: digit_char_def char_of_def bit_0)

text \<open>The value a string of digits denotes, most significant digit first.\<close>

definition digit_val :: "char \<Rightarrow> nat" where
  "digit_val c = of_char c - 48"

definition digits_val :: "string \<Rightarrow> nat" where
  "digits_val s = foldl (\<lambda>v c. v * 10 + digit_val c) 0 s"

definition is_digit :: "char \<Rightarrow> bool" where
  "is_digit c \<longleftrightarrow> 48 \<le> (of_char c :: nat) \<and> (of_char c :: nat) \<le> 57"

lemma of_char_digit_char: "d < 10 \<Longrightarrow> of_char (digit_char d) = 48 + d"
  by (simp add: digit_char_def)

lemma digit_val_char [simp]: "d < 10 \<Longrightarrow> digit_val (digit_char d) = d"
  by (simp add: digit_val_def of_char_digit_char)

lemma is_digit_char [simp]: "d < 10 \<Longrightarrow> is_digit (digit_char d)"
  by (simp add: is_digit_def of_char_digit_char)

lemma digits_val_snoc [simp]: "digits_val (s @ [c]) = digits_val s * 10 + digit_val c"
  by (simp add: digits_val_def)

lemma digits_val_Nil [simp]: "digits_val [] = 0"
  by (simp add: digits_val_def)

lemma show_nat_nonempty [simp]: "show_nat n \<noteq> []"
  by (subst show_nat.simps) simp

lemma digits_val_show_nat [simp]: "digits_val (show_nat n) = n"
proof (induction n rule: show_nat.induct)
  case (1 n)
  then show ?case
    by (subst show_nat.simps) (simp add: digits_val_def)
qed

lemma show_nat_digits: "list_all is_digit (show_nat n)"
proof (induction n rule: show_nat.induct)
  case (1 n)
  then show ?case
    by (subst show_nat.simps) simp
qed

lemma show_nat_inject [simp]: "show_nat m = show_nat n \<longleftrightarrow> m = n"
  by (metis digits_val_show_nat)

definition show_u64 :: "u64 \<Rightarrow> string" where
  "show_u64 w = show_nat (unat w)"

lemma show_u64_inject [simp]: "show_u64 a = show_u64 b \<longleftrightarrow> a = b"
  by (simp add: show_u64_def word_unat_eq_iff)

text \<open>A signed number.\<close>

definition show_signed :: "int \<Rightarrow> string" where
  "show_signed i = (if i < 0 then ''-'' else []) @ show_nat (nat \<bar>i\<bar>)"

lemma show_signed_nat [simp]: "show_signed (int n) = show_nat n"
  by (simp add: show_signed_def)

end
