(* ===== verification/RR_Identity.thy ===== *)
theory RR_Identity
  imports RR_Prelude
begin

text \<open>
  Strong identities and generations (\<^verbatim>\<open>strong.hpp\<close>,
  \<^verbatim>\<open>identity.hpp\<close>). As in the code one generic wrapper carries a phantom tag
  type, so that identities of different domains are values of different types; both wrappers are
  ordered by the wrapped unsigned 64-bit integer. Instances of \<^verbatim>\<open>linorder\<close>
  stand for the defaulted \<^verbatim>\<open>operator<=>\<close>. The \<^verbatim>\<open>std::hash\<close>
  specialisations only affect iteration order.
\<close>

section \<open>Generic wrappers\<close>

datatype 'tag Id = MkId (id_value: u64)

datatype 'tag Gen = MkGen (gen_value: u64)

text \<open>\<^verbatim>\<open>explicit operator bool\<close>: an identity is set when it is not zero.\<close>

definition id_set :: "'tag Id \<Rightarrow> bool" where
  "id_set i \<longleftrightarrow> id_value i \<noteq> 0"

definition gen_set :: "'tag Gen \<Rightarrow> bool" where
  "gen_set g \<longleftrightarrow> gen_value g \<noteq> 0"

text \<open>Default construction yields zero.\<close>

definition no_id :: "'tag Id" where
  "no_id = MkId 0"

definition no_gen :: "'tag Gen" where
  "no_gen = MkGen 0"

text \<open>\<^verbatim>\<open>operator++\<close> and \<^verbatim>\<open>operator+=\<close> wrap around at \<open>2 ^ 64\<close>.\<close>

definition gen_incr :: "'tag Gen \<Rightarrow> 'tag Gen" where
  "gen_incr g = MkGen (gen_value g + 1)"

definition gen_plus :: "'tag Gen \<Rightarrow> u64 \<Rightarrow> 'tag Gen" where
  "gen_plus g d = MkGen (gen_value g + d)"

instantiation Id :: (type) linorder
begin

definition less_eq_Id :: "'a Id \<Rightarrow> 'a Id \<Rightarrow> bool" where
  "a \<le> b \<longleftrightarrow> id_value a \<le> id_value b"

definition less_Id :: "'a Id \<Rightarrow> 'a Id \<Rightarrow> bool" where
  "a < b \<longleftrightarrow> id_value a < id_value b"

instance
  by intro_classes (auto simp: less_eq_Id_def less_Id_def intro: Id.expand)

end

instantiation Gen :: (type) linorder
begin

definition less_eq_Gen :: "'a Gen \<Rightarrow> 'a Gen \<Rightarrow> bool" where
  "a \<le> b \<longleftrightarrow> gen_value a \<le> gen_value b"

definition less_Gen :: "'a Gen \<Rightarrow> 'a Gen \<Rightarrow> bool" where
  "a < b \<longleftrightarrow> gen_value a < gen_value b"

instance
  by intro_classes (auto simp: less_eq_Gen_def less_Gen_def intro: Gen.expand)

end

lemma MkId_le [simp]: "MkId a \<le> MkId b \<longleftrightarrow> a \<le> b"
  by (simp add: less_eq_Id_def)

lemma MkId_less [simp]: "MkId a < MkId b \<longleftrightarrow> a < b"
  by (simp add: less_Id_def)

lemma MkGen_le [simp]: "MkGen a \<le> MkGen b \<longleftrightarrow> a \<le> b"
  by (simp add: less_eq_Gen_def)

lemma MkGen_less [simp]: "MkGen a < MkGen b \<longleftrightarrow> a < b"
  by (simp add: less_Gen_def)

lemma id_set_MkId [simp]: "id_set (MkId a) \<longleftrightarrow> a \<noteq> 0"
  by (simp add: id_set_def)

lemma gen_set_MkGen [simp]: "gen_set (MkGen a) \<longleftrightarrow> a \<noteq> 0"
  by (simp add: gen_set_def)

lemma id_set_iff: "id_set i \<longleftrightarrow> i \<noteq> no_id"
  by (cases i) (simp add: no_id_def)

lemma id_value_no_id [simp]: "id_value no_id = 0"
  by (simp add: no_id_def)

text \<open>
  Incrementing is strictly monotone as long as the counter has not reached its last value; at the
  last value it restarts at zero.
\<close>

lemma gen_incr_neq [simp]: "gen_incr g \<noteq> g"
  by (cases g) (simp add: gen_incr_def)

lemma unat_gen_incr:
  "unat (gen_value (gen_incr g)) = (unat (gen_value g) + 1) mod 2 ^ 64"
  by (simp add: gen_incr_def unat_word_ariths)

lemma gen_incr_less:
  assumes "gen_value g \<noteq> - 1"
  shows "g < gen_incr g"
proof -
  from assms have "gen_value g < gen_value g + 1"
    by (simp add: inc_less_eq_self_iff_eq flip: not_le)
  then show ?thesis
    by (cases g) (simp add: gen_incr_def less_Gen_def)
qed

text \<open>Rendering of an identity as text: \<^verbatim>\<open>render_typed_id\<close>.\<close>

definition render_typed_id :: "'tag Id \<Rightarrow> string" where
  "render_typed_id i = show_u64 (id_value i)"

lemma render_typed_id_inject [simp]: "render_typed_id a = render_typed_id b \<longleftrightarrow> a = b"
  by (simp add: render_typed_id_def Id.expand) (metis Id.expand)

section \<open>Identity domains\<close>

datatype RegistryIdTag = RegistryIdTag
type_synonym RegistryId = "RegistryIdTag Id"

datatype RegistryRecordIdTag = RegistryRecordIdTag
type_synonym RegistryRecordId = "RegistryRecordIdTag Id"

datatype ServiceIdTag = ServiceIdTag
type_synonym ServiceId = "ServiceIdTag Id"

datatype ServiceInstanceIdTag = ServiceInstanceIdTag
type_synonym ServiceInstanceId = "ServiceInstanceIdTag Id"

datatype RuntimeIdTag = RuntimeIdTag
type_synonym RuntimeId = "RuntimeIdTag Id"

datatype RuntimeInstanceIdTag = RuntimeInstanceIdTag
type_synonym RuntimeInstanceId = "RuntimeInstanceIdTag Id"

datatype NodeIdTag = NodeIdTag
type_synonym NodeId = "NodeIdTag Id"

datatype WorkerIdTag = WorkerIdTag
type_synonym WorkerId = "WorkerIdTag Id"

datatype WorkerBootIdTag = WorkerBootIdTag
type_synonym WorkerBootId = "WorkerBootIdTag Id"

datatype ProcessIdTag = ProcessIdTag
type_synonym ProcessId = "ProcessIdTag Id"

datatype EndpointIdTag = EndpointIdTag
type_synonym EndpointId = "EndpointIdTag Id"

datatype ProtocolIdTag = ProtocolIdTag
type_synonym ProtocolId = "ProtocolIdTag Id"

datatype BackendIdTag = BackendIdTag
type_synonym BackendId = "BackendIdTag Id"

datatype DeviceIdTag = DeviceIdTag
type_synonym DeviceId = "DeviceIdTag Id"

datatype CapabilityIdTag = CapabilityIdTag
type_synonym CapabilityId = "CapabilityIdTag Id"

datatype CompatibilityIdTag = CompatibilityIdTag
type_synonym CompatibilityId = "CompatibilityIdTag Id"

datatype LeaseIdTag = LeaseIdTag
type_synonym LeaseId = "LeaseIdTag Id"

datatype ObservationIdTag = ObservationIdTag
type_synonym ObservationId = "ObservationIdTag Id"

datatype QueryIdTag = QueryIdTag
type_synonym QueryId = "QueryIdTag Id"

datatype ResultIdTag = ResultIdTag
type_synonym ResultId = "ResultIdTag Id"

datatype TombstoneIdTag = TombstoneIdTag
type_synonym TombstoneId = "TombstoneIdTag Id"

datatype AttemptIdTag = AttemptIdTag
type_synonym AttemptId = "AttemptIdTag Id"

datatype DispatchIdTag = DispatchIdTag
type_synonym DispatchId = "DispatchIdTag Id"

datatype OwnerIdTag = OwnerIdTag
type_synonym OwnerId = "OwnerIdTag Id"

datatype PolicyIdTag = PolicyIdTag
type_synonym PolicyId = "PolicyIdTag Id"

section \<open>Generation domains\<close>

datatype CoordinatorEpochTag = CoordinatorEpochTag
type_synonym CoordinatorEpoch = "CoordinatorEpochTag Gen"

datatype RegistryGenerationTag = RegistryGenerationTag
type_synonym RegistryGeneration = "RegistryGenerationTag Gen"

datatype RecordGenerationTag = RecordGenerationTag
type_synonym RecordGeneration = "RecordGenerationTag Gen"

datatype ServiceGenerationTag = ServiceGenerationTag
type_synonym ServiceGeneration = "ServiceGenerationTag Gen"

datatype ServiceInstanceGenerationTag = ServiceInstanceGenerationTag
type_synonym ServiceInstanceGeneration = "ServiceInstanceGenerationTag Gen"

datatype RuntimeGenerationTag = RuntimeGenerationTag
type_synonym RuntimeGeneration = "RuntimeGenerationTag Gen"

datatype RuntimeInstanceGenerationTag = RuntimeInstanceGenerationTag
type_synonym RuntimeInstanceGeneration = "RuntimeInstanceGenerationTag Gen"

datatype NodeGenerationTag = NodeGenerationTag
type_synonym NodeGeneration = "NodeGenerationTag Gen"

datatype WorkerGenerationTag = WorkerGenerationTag
type_synonym WorkerGeneration = "WorkerGenerationTag Gen"

datatype EndpointGenerationTag = EndpointGenerationTag
type_synonym EndpointGeneration = "EndpointGenerationTag Gen"

datatype ProtocolGenerationTag = ProtocolGenerationTag
type_synonym ProtocolGeneration = "ProtocolGenerationTag Gen"

datatype BackendGenerationTag = BackendGenerationTag
type_synonym BackendGeneration = "BackendGenerationTag Gen"

datatype DeviceGenerationTag = DeviceGenerationTag
type_synonym DeviceGeneration = "DeviceGenerationTag Gen"

datatype CapabilityGenerationTag = CapabilityGenerationTag
type_synonym CapabilityGeneration = "CapabilityGenerationTag Gen"

datatype CompatibilityGenerationTag = CompatibilityGenerationTag
type_synonym CompatibilityGeneration = "CompatibilityGenerationTag Gen"

datatype LeaseGenerationTag = LeaseGenerationTag
type_synonym LeaseGeneration = "LeaseGenerationTag Gen"

datatype ObservationGenerationTag = ObservationGenerationTag
type_synonym ObservationGeneration = "ObservationGenerationTag Gen"

datatype QueryGenerationTag = QueryGenerationTag
type_synonym QueryGeneration = "QueryGenerationTag Gen"

datatype AttemptGenerationTag = AttemptGenerationTag
type_synonym AttemptGeneration = "AttemptGenerationTag Gen"

datatype DispatchGenerationTag = DispatchGenerationTag
type_synonym DispatchGeneration = "DispatchGenerationTag Gen"

datatype PolicyGenerationTag = PolicyGenerationTag
type_synonym PolicyGeneration = "PolicyGenerationTag Gen"

datatype AuthorityGenerationTag = AuthorityGenerationTag
type_synonym AuthorityGeneration = "AuthorityGenerationTag Gen"

text \<open>\<^verbatim>\<open>TrustGeneration\<close> is declared in \<^verbatim>\<open>authority.hpp\<close>.\<close>

datatype TrustGenerationTag = TrustGenerationTag
type_synonym TrustGeneration = "TrustGenerationTag Gen"

end
