(* ===== verification/RR_Enums.thy ===== *)
theory RR_Enums
  imports RR_Prelude
begin

text \<open>
  The enumerations of \<^verbatim>\<open>enums.hpp\<close>, \<^verbatim>\<open>model.hpp\<close> and
  \<^verbatim>\<open>provenance.hpp\<close> with their conversions to and from text
  (\<^verbatim>\<open>enums.cpp\<close>, \<^verbatim>\<open>provenance.cpp\<close>). Constructor names are
  shared between enumerations and are written with the name of their type, as in the code
  (\<open>Health.UNKNOWN\<close>, \<open>Readiness.UNKNOWN\<close>).

  The lemmas show that every conversion to text is injective and that every parser inverts its
  printer and maps any other text to \<open>UNKNOWN\<close>.
\<close>

section \<open>Enumerations\<close>

datatype Health =
  HEALTHY | DEGRADED | UNHEALTHY | UNAVAILABLE | UNKNOWN

datatype Readiness =
  READY | PARTIALLY_READY | NOT_READY | DRAINING | REVALIDATION_REQUIRED | UNKNOWN

datatype Freshness =
  CURRENT | STALE | REVALIDATION_REQUIRED | UNKNOWN

datatype Reachability =
  REACHABLE | DEGRADED | UNREACHABLE | REVALIDATION_REQUIRED | UNKNOWN

datatype Lifecycle =
  REGISTERING | AVAILABLE | DEGRADED | DRAINING | UNREADY | STALE | UNREACHABLE | INVALIDATED
  | SUPERSEDED | TOMBSTONED | RETIRED | FAILED

datatype ServiceKind =
  SCHEDULER | CACHE_DIRECTORY | STATE_INDEX | STORAGE_SERVICE | CHECKPOINT_SERVICE
  | RESOURCE_BROKER | HEALTH_AGENT | FLEET_AGENT | COMPILER_SERVICE | MODEL_SERVER
  | TRANSFER_SERVICE | COLLECTIVE_SERVICE | OBSERVABILITY_SERVICE | REGISTRY_SERVICE
  | EXECUTION_SERVICE | GENERIC_RUNTIME_SERVICE | UNKNOWN

datatype RuntimeKind =
  NATIVE_CPP | CUDA_RUNTIME | CUDA_DRIVER | CUSTOM_ACCELERATOR_RUNTIME | MODEL_RUNTIME
  | SERVING_RUNTIME | STORAGE_RUNTIME | NETWORK_RUNTIME | COMPILATION_RUNTIME
  | SYNTHETIC_RUNTIME | UNKNOWN

datatype TransportKind =
  TCP | LOCAL_IPC | SHARED_MEMORY | IN_PROCESS | SYNTHETIC_REMOTE | UNKNOWN

datatype BackendKind =
  CUDA | CPU | LOCAL_FILESYSTEM | TCP | SYNTHETIC_REMOTE | CUSTOM | UNKNOWN

datatype CapabilityKind =
  CUDA_AVAILABLE | CUDA_COMPUTE_CAPABILITY | CUDA_ARCHITECTURE | CUDA_MEMORY
  | HOST_PINNED_MEMORY | LOCAL_FILESYSTEM | LOCAL_STORAGE | TCP_TRANSPORT | FRAMED_PROTOCOL
  | MULTIPROCESS | COMPILATION | PERSISTENCE | CHECKPOINTING | COLLECTIVES
  | REMOTE_ACCESS_CLASS | HEALTH_REPORTING | POWER_TELEMETRY | GENERIC_FEATURE | UNKNOWN

datatype NegotiationOutcome =
  EXACT | COMPATIBLE | DOWNGRADE_ALLOWED | UPGRADE_REQUIRED | INCOMPATIBLE
  | INSUFFICIENT_EVIDENCE | UNKNOWN

datatype QueryOutcome =
  FOUND_EXACT | FOUND_COMPATIBLE | FOUND_MULTIPLE | NOT_FOUND | STALE_ONLY | UNREADY_ONLY
  | UNHEALTHY_ONLY | UNREACHABLE_ONLY | INCOMPATIBLE_ONLY | INSUFFICIENT_EVIDENCE | UNKNOWN

datatype CompatibilityOutcome =
  COMPATIBLE | COMPATIBLE_WITH_DOWNGRADE | INCOMPATIBLE | UNKNOWN

datatype LeaseState =
  ACTIVE | EXPIRED | REVOKED | REVALIDATION_REQUIRED | UNKNOWN

datatype VersionPolicy =
  EXACT | MINIMUM | COMPATIBLE_MAJOR | BOUNDED_RANGE | PREFER_RECENT | UNKNOWN

datatype EndpointSecurity =
  NONE | PLAINTEXT | UNKNOWN

datatype LeaseRenewalPolicy =
  FIXED | SESSION | CONNECTION | BOOT | MANUAL | UNKNOWN

datatype EvidenceKind =
  MEASURED | REPORTED | DERIVED | SYNTHETIC | UNKNOWN

section \<open>Conversions to text\<close>

fun to_string_Health :: "Health \<Rightarrow> string" where
  "to_string_Health Health.HEALTHY = ''HEALTHY''"
| "to_string_Health Health.DEGRADED = ''DEGRADED''"
| "to_string_Health Health.UNHEALTHY = ''UNHEALTHY''"
| "to_string_Health Health.UNAVAILABLE = ''UNAVAILABLE''"
| "to_string_Health Health.UNKNOWN = ''UNKNOWN''"

fun to_string_Readiness :: "Readiness \<Rightarrow> string" where
  "to_string_Readiness Readiness.READY = ''READY''"
| "to_string_Readiness Readiness.PARTIALLY_READY = ''PARTIALLY_READY''"
| "to_string_Readiness Readiness.NOT_READY = ''NOT_READY''"
| "to_string_Readiness Readiness.DRAINING = ''DRAINING''"
| "to_string_Readiness Readiness.REVALIDATION_REQUIRED = ''REVALIDATION_REQUIRED''"
| "to_string_Readiness Readiness.UNKNOWN = ''UNKNOWN''"

fun to_string_Freshness :: "Freshness \<Rightarrow> string" where
  "to_string_Freshness Freshness.CURRENT = ''CURRENT''"
| "to_string_Freshness Freshness.STALE = ''STALE''"
| "to_string_Freshness Freshness.REVALIDATION_REQUIRED = ''REVALIDATION_REQUIRED''"
| "to_string_Freshness Freshness.UNKNOWN = ''UNKNOWN''"

fun to_string_Reachability :: "Reachability \<Rightarrow> string" where
  "to_string_Reachability Reachability.REACHABLE = ''REACHABLE''"
| "to_string_Reachability Reachability.DEGRADED = ''DEGRADED''"
| "to_string_Reachability Reachability.UNREACHABLE = ''UNREACHABLE''"
| "to_string_Reachability Reachability.REVALIDATION_REQUIRED = ''REVALIDATION_REQUIRED''"
| "to_string_Reachability Reachability.UNKNOWN = ''UNKNOWN''"

fun to_string_Lifecycle :: "Lifecycle \<Rightarrow> string" where
  "to_string_Lifecycle Lifecycle.REGISTERING = ''REGISTERING''"
| "to_string_Lifecycle Lifecycle.AVAILABLE = ''AVAILABLE''"
| "to_string_Lifecycle Lifecycle.DEGRADED = ''DEGRADED''"
| "to_string_Lifecycle Lifecycle.DRAINING = ''DRAINING''"
| "to_string_Lifecycle Lifecycle.UNREADY = ''UNREADY''"
| "to_string_Lifecycle Lifecycle.STALE = ''STALE''"
| "to_string_Lifecycle Lifecycle.UNREACHABLE = ''UNREACHABLE''"
| "to_string_Lifecycle Lifecycle.INVALIDATED = ''INVALIDATED''"
| "to_string_Lifecycle Lifecycle.SUPERSEDED = ''SUPERSEDED''"
| "to_string_Lifecycle Lifecycle.TOMBSTONED = ''TOMBSTONED''"
| "to_string_Lifecycle Lifecycle.RETIRED = ''RETIRED''"
| "to_string_Lifecycle Lifecycle.FAILED = ''FAILED''"

fun to_string_ServiceKind :: "ServiceKind \<Rightarrow> string" where
  "to_string_ServiceKind ServiceKind.SCHEDULER = ''SCHEDULER''"
| "to_string_ServiceKind ServiceKind.CACHE_DIRECTORY = ''CACHE_DIRECTORY''"
| "to_string_ServiceKind ServiceKind.STATE_INDEX = ''STATE_INDEX''"
| "to_string_ServiceKind ServiceKind.STORAGE_SERVICE = ''STORAGE_SERVICE''"
| "to_string_ServiceKind ServiceKind.CHECKPOINT_SERVICE = ''CHECKPOINT_SERVICE''"
| "to_string_ServiceKind ServiceKind.RESOURCE_BROKER = ''RESOURCE_BROKER''"
| "to_string_ServiceKind ServiceKind.HEALTH_AGENT = ''HEALTH_AGENT''"
| "to_string_ServiceKind ServiceKind.FLEET_AGENT = ''FLEET_AGENT''"
| "to_string_ServiceKind ServiceKind.COMPILER_SERVICE = ''COMPILER_SERVICE''"
| "to_string_ServiceKind ServiceKind.MODEL_SERVER = ''MODEL_SERVER''"
| "to_string_ServiceKind ServiceKind.TRANSFER_SERVICE = ''TRANSFER_SERVICE''"
| "to_string_ServiceKind ServiceKind.COLLECTIVE_SERVICE = ''COLLECTIVE_SERVICE''"
| "to_string_ServiceKind ServiceKind.OBSERVABILITY_SERVICE = ''OBSERVABILITY_SERVICE''"
| "to_string_ServiceKind ServiceKind.REGISTRY_SERVICE = ''REGISTRY_SERVICE''"
| "to_string_ServiceKind ServiceKind.EXECUTION_SERVICE = ''EXECUTION_SERVICE''"
| "to_string_ServiceKind ServiceKind.GENERIC_RUNTIME_SERVICE = ''GENERIC_RUNTIME_SERVICE''"
| "to_string_ServiceKind ServiceKind.UNKNOWN = ''UNKNOWN''"

fun to_string_RuntimeKind :: "RuntimeKind \<Rightarrow> string" where
  "to_string_RuntimeKind RuntimeKind.NATIVE_CPP = ''NATIVE_CPP''"
| "to_string_RuntimeKind RuntimeKind.CUDA_RUNTIME = ''CUDA_RUNTIME''"
| "to_string_RuntimeKind RuntimeKind.CUDA_DRIVER = ''CUDA_DRIVER''"
| "to_string_RuntimeKind RuntimeKind.CUSTOM_ACCELERATOR_RUNTIME = ''CUSTOM_ACCELERATOR_RUNTIME''"
| "to_string_RuntimeKind RuntimeKind.MODEL_RUNTIME = ''MODEL_RUNTIME''"
| "to_string_RuntimeKind RuntimeKind.SERVING_RUNTIME = ''SERVING_RUNTIME''"
| "to_string_RuntimeKind RuntimeKind.STORAGE_RUNTIME = ''STORAGE_RUNTIME''"
| "to_string_RuntimeKind RuntimeKind.NETWORK_RUNTIME = ''NETWORK_RUNTIME''"
| "to_string_RuntimeKind RuntimeKind.COMPILATION_RUNTIME = ''COMPILATION_RUNTIME''"
| "to_string_RuntimeKind RuntimeKind.SYNTHETIC_RUNTIME = ''SYNTHETIC_RUNTIME''"
| "to_string_RuntimeKind RuntimeKind.UNKNOWN = ''UNKNOWN''"

fun to_string_TransportKind :: "TransportKind \<Rightarrow> string" where
  "to_string_TransportKind TransportKind.TCP = ''TCP''"
| "to_string_TransportKind TransportKind.LOCAL_IPC = ''LOCAL_IPC''"
| "to_string_TransportKind TransportKind.SHARED_MEMORY = ''SHARED_MEMORY''"
| "to_string_TransportKind TransportKind.IN_PROCESS = ''IN_PROCESS''"
| "to_string_TransportKind TransportKind.SYNTHETIC_REMOTE = ''SYNTHETIC_REMOTE''"
| "to_string_TransportKind TransportKind.UNKNOWN = ''UNKNOWN''"

fun to_string_BackendKind :: "BackendKind \<Rightarrow> string" where
  "to_string_BackendKind BackendKind.CUDA = ''CUDA''"
| "to_string_BackendKind BackendKind.CPU = ''CPU''"
| "to_string_BackendKind BackendKind.LOCAL_FILESYSTEM = ''LOCAL_FILESYSTEM''"
| "to_string_BackendKind BackendKind.TCP = ''TCP''"
| "to_string_BackendKind BackendKind.SYNTHETIC_REMOTE = ''SYNTHETIC_REMOTE''"
| "to_string_BackendKind BackendKind.CUSTOM = ''CUSTOM''"
| "to_string_BackendKind BackendKind.UNKNOWN = ''UNKNOWN''"

fun to_string_CapabilityKind :: "CapabilityKind \<Rightarrow> string" where
  "to_string_CapabilityKind CapabilityKind.CUDA_AVAILABLE = ''CUDA_AVAILABLE''"
| "to_string_CapabilityKind CapabilityKind.CUDA_COMPUTE_CAPABILITY = ''CUDA_COMPUTE_CAPABILITY''"
| "to_string_CapabilityKind CapabilityKind.CUDA_ARCHITECTURE = ''CUDA_ARCHITECTURE''"
| "to_string_CapabilityKind CapabilityKind.CUDA_MEMORY = ''CUDA_MEMORY''"
| "to_string_CapabilityKind CapabilityKind.HOST_PINNED_MEMORY = ''HOST_PINNED_MEMORY''"
| "to_string_CapabilityKind CapabilityKind.LOCAL_FILESYSTEM = ''LOCAL_FILESYSTEM''"
| "to_string_CapabilityKind CapabilityKind.LOCAL_STORAGE = ''LOCAL_STORAGE''"
| "to_string_CapabilityKind CapabilityKind.TCP_TRANSPORT = ''TCP_TRANSPORT''"
| "to_string_CapabilityKind CapabilityKind.FRAMED_PROTOCOL = ''FRAMED_PROTOCOL''"
| "to_string_CapabilityKind CapabilityKind.MULTIPROCESS = ''MULTIPROCESS''"
| "to_string_CapabilityKind CapabilityKind.COMPILATION = ''COMPILATION''"
| "to_string_CapabilityKind CapabilityKind.PERSISTENCE = ''PERSISTENCE''"
| "to_string_CapabilityKind CapabilityKind.CHECKPOINTING = ''CHECKPOINTING''"
| "to_string_CapabilityKind CapabilityKind.COLLECTIVES = ''COLLECTIVES''"
| "to_string_CapabilityKind CapabilityKind.REMOTE_ACCESS_CLASS = ''REMOTE_ACCESS_CLASS''"
| "to_string_CapabilityKind CapabilityKind.HEALTH_REPORTING = ''HEALTH_REPORTING''"
| "to_string_CapabilityKind CapabilityKind.POWER_TELEMETRY = ''POWER_TELEMETRY''"
| "to_string_CapabilityKind CapabilityKind.GENERIC_FEATURE = ''GENERIC_FEATURE''"
| "to_string_CapabilityKind CapabilityKind.UNKNOWN = ''UNKNOWN''"

fun to_string_NegotiationOutcome :: "NegotiationOutcome \<Rightarrow> string" where
  "to_string_NegotiationOutcome NegotiationOutcome.EXACT = ''EXACT''"
| "to_string_NegotiationOutcome NegotiationOutcome.COMPATIBLE = ''COMPATIBLE''"
| "to_string_NegotiationOutcome NegotiationOutcome.DOWNGRADE_ALLOWED = ''DOWNGRADE_ALLOWED''"
| "to_string_NegotiationOutcome NegotiationOutcome.UPGRADE_REQUIRED = ''UPGRADE_REQUIRED''"
| "to_string_NegotiationOutcome NegotiationOutcome.INCOMPATIBLE = ''INCOMPATIBLE''"
| "to_string_NegotiationOutcome NegotiationOutcome.INSUFFICIENT_EVIDENCE = ''INSUFFICIENT_EVIDENCE''"
| "to_string_NegotiationOutcome NegotiationOutcome.UNKNOWN = ''UNKNOWN''"

fun to_string_QueryOutcome :: "QueryOutcome \<Rightarrow> string" where
  "to_string_QueryOutcome QueryOutcome.FOUND_EXACT = ''FOUND_EXACT''"
| "to_string_QueryOutcome QueryOutcome.FOUND_COMPATIBLE = ''FOUND_COMPATIBLE''"
| "to_string_QueryOutcome QueryOutcome.FOUND_MULTIPLE = ''FOUND_MULTIPLE''"
| "to_string_QueryOutcome QueryOutcome.NOT_FOUND = ''NOT_FOUND''"
| "to_string_QueryOutcome QueryOutcome.STALE_ONLY = ''STALE_ONLY''"
| "to_string_QueryOutcome QueryOutcome.UNREADY_ONLY = ''UNREADY_ONLY''"
| "to_string_QueryOutcome QueryOutcome.UNHEALTHY_ONLY = ''UNHEALTHY_ONLY''"
| "to_string_QueryOutcome QueryOutcome.UNREACHABLE_ONLY = ''UNREACHABLE_ONLY''"
| "to_string_QueryOutcome QueryOutcome.INCOMPATIBLE_ONLY = ''INCOMPATIBLE_ONLY''"
| "to_string_QueryOutcome QueryOutcome.INSUFFICIENT_EVIDENCE = ''INSUFFICIENT_EVIDENCE''"
| "to_string_QueryOutcome QueryOutcome.UNKNOWN = ''UNKNOWN''"

fun to_string_CompatibilityOutcome :: "CompatibilityOutcome \<Rightarrow> string" where
  "to_string_CompatibilityOutcome CompatibilityOutcome.COMPATIBLE = ''COMPATIBLE''"
| "to_string_CompatibilityOutcome CompatibilityOutcome.COMPATIBLE_WITH_DOWNGRADE = ''COMPATIBLE_WITH_DOWNGRADE''"
| "to_string_CompatibilityOutcome CompatibilityOutcome.INCOMPATIBLE = ''INCOMPATIBLE''"
| "to_string_CompatibilityOutcome CompatibilityOutcome.UNKNOWN = ''UNKNOWN''"

fun to_string_LeaseState :: "LeaseState \<Rightarrow> string" where
  "to_string_LeaseState LeaseState.ACTIVE = ''ACTIVE''"
| "to_string_LeaseState LeaseState.EXPIRED = ''EXPIRED''"
| "to_string_LeaseState LeaseState.REVOKED = ''REVOKED''"
| "to_string_LeaseState LeaseState.REVALIDATION_REQUIRED = ''REVALIDATION_REQUIRED''"
| "to_string_LeaseState LeaseState.UNKNOWN = ''UNKNOWN''"

fun to_string_VersionPolicy :: "VersionPolicy \<Rightarrow> string" where
  "to_string_VersionPolicy VersionPolicy.EXACT = ''EXACT''"
| "to_string_VersionPolicy VersionPolicy.MINIMUM = ''MINIMUM''"
| "to_string_VersionPolicy VersionPolicy.COMPATIBLE_MAJOR = ''COMPATIBLE_MAJOR''"
| "to_string_VersionPolicy VersionPolicy.BOUNDED_RANGE = ''BOUNDED_RANGE''"
| "to_string_VersionPolicy VersionPolicy.PREFER_RECENT = ''PREFER_RECENT''"
| "to_string_VersionPolicy VersionPolicy.UNKNOWN = ''UNKNOWN''"

fun to_string_EndpointSecurity :: "EndpointSecurity \<Rightarrow> string" where
  "to_string_EndpointSecurity EndpointSecurity.NONE = ''NONE''"
| "to_string_EndpointSecurity EndpointSecurity.PLAINTEXT = ''PLAINTEXT''"
| "to_string_EndpointSecurity EndpointSecurity.UNKNOWN = ''UNKNOWN''"

fun to_string_LeaseRenewalPolicy :: "LeaseRenewalPolicy \<Rightarrow> string" where
  "to_string_LeaseRenewalPolicy LeaseRenewalPolicy.FIXED = ''FIXED''"
| "to_string_LeaseRenewalPolicy LeaseRenewalPolicy.SESSION = ''SESSION''"
| "to_string_LeaseRenewalPolicy LeaseRenewalPolicy.CONNECTION = ''CONNECTION''"
| "to_string_LeaseRenewalPolicy LeaseRenewalPolicy.BOOT = ''BOOT''"
| "to_string_LeaseRenewalPolicy LeaseRenewalPolicy.MANUAL = ''MANUAL''"
| "to_string_LeaseRenewalPolicy LeaseRenewalPolicy.UNKNOWN = ''UNKNOWN''"

fun to_string_EvidenceKind :: "EvidenceKind \<Rightarrow> string" where
  "to_string_EvidenceKind EvidenceKind.MEASURED = ''MEASURED''"
| "to_string_EvidenceKind EvidenceKind.REPORTED = ''REPORTED''"
| "to_string_EvidenceKind EvidenceKind.DERIVED = ''DERIVED''"
| "to_string_EvidenceKind EvidenceKind.SYNTHETIC = ''SYNTHETIC''"
| "to_string_EvidenceKind EvidenceKind.UNKNOWN = ''UNKNOWN''"

section \<open>Conversions from text\<close>

text \<open>\<^verbatim>\<open>enum_from\<close>: the first table entry with the given name, or the fallback.\<close>

fun enum_from :: "string \<Rightarrow> ('e \<times> string) list \<Rightarrow> 'e \<Rightarrow> 'e" where
  "enum_from s [] fallback = fallback"
| "enum_from s ((e, name) # table) fallback = (if s = name then e else enum_from s table fallback)"

definition service_kind_from_string :: "string \<Rightarrow> ServiceKind" where
  "service_kind_from_string s = enum_from s
    [(ServiceKind.SCHEDULER, ''SCHEDULER''),
     (ServiceKind.CACHE_DIRECTORY, ''CACHE_DIRECTORY''),
     (ServiceKind.STATE_INDEX, ''STATE_INDEX''),
     (ServiceKind.STORAGE_SERVICE, ''STORAGE_SERVICE''),
     (ServiceKind.CHECKPOINT_SERVICE, ''CHECKPOINT_SERVICE''),
     (ServiceKind.RESOURCE_BROKER, ''RESOURCE_BROKER''),
     (ServiceKind.HEALTH_AGENT, ''HEALTH_AGENT''),
     (ServiceKind.FLEET_AGENT, ''FLEET_AGENT''),
     (ServiceKind.COMPILER_SERVICE, ''COMPILER_SERVICE''),
     (ServiceKind.MODEL_SERVER, ''MODEL_SERVER''),
     (ServiceKind.TRANSFER_SERVICE, ''TRANSFER_SERVICE''),
     (ServiceKind.COLLECTIVE_SERVICE, ''COLLECTIVE_SERVICE''),
     (ServiceKind.OBSERVABILITY_SERVICE, ''OBSERVABILITY_SERVICE''),
     (ServiceKind.REGISTRY_SERVICE, ''REGISTRY_SERVICE''),
     (ServiceKind.EXECUTION_SERVICE, ''EXECUTION_SERVICE''),
     (ServiceKind.GENERIC_RUNTIME_SERVICE, ''GENERIC_RUNTIME_SERVICE'')]
    ServiceKind.UNKNOWN"

definition runtime_kind_from_string :: "string \<Rightarrow> RuntimeKind" where
  "runtime_kind_from_string s = enum_from s
    [(RuntimeKind.NATIVE_CPP, ''NATIVE_CPP''),
     (RuntimeKind.CUDA_RUNTIME, ''CUDA_RUNTIME''),
     (RuntimeKind.CUDA_DRIVER, ''CUDA_DRIVER''),
     (RuntimeKind.CUSTOM_ACCELERATOR_RUNTIME, ''CUSTOM_ACCELERATOR_RUNTIME''),
     (RuntimeKind.MODEL_RUNTIME, ''MODEL_RUNTIME''),
     (RuntimeKind.SERVING_RUNTIME, ''SERVING_RUNTIME''),
     (RuntimeKind.STORAGE_RUNTIME, ''STORAGE_RUNTIME''),
     (RuntimeKind.NETWORK_RUNTIME, ''NETWORK_RUNTIME''),
     (RuntimeKind.COMPILATION_RUNTIME, ''COMPILATION_RUNTIME''),
     (RuntimeKind.SYNTHETIC_RUNTIME, ''SYNTHETIC_RUNTIME''),
     (RuntimeKind.UNKNOWN, ''UNKNOWN'')]
    RuntimeKind.UNKNOWN"

definition transport_kind_from_string :: "string \<Rightarrow> TransportKind" where
  "transport_kind_from_string s = enum_from s
    [(TransportKind.TCP, ''TCP''),
     (TransportKind.LOCAL_IPC, ''LOCAL_IPC''),
     (TransportKind.SHARED_MEMORY, ''SHARED_MEMORY''),
     (TransportKind.IN_PROCESS, ''IN_PROCESS''),
     (TransportKind.SYNTHETIC_REMOTE, ''SYNTHETIC_REMOTE''),
     (TransportKind.UNKNOWN, ''UNKNOWN'')]
    TransportKind.UNKNOWN"

definition backend_kind_from_string :: "string \<Rightarrow> BackendKind" where
  "backend_kind_from_string s = enum_from s
    [(BackendKind.CUDA, ''CUDA''),
     (BackendKind.CPU, ''CPU''),
     (BackendKind.LOCAL_FILESYSTEM, ''LOCAL_FILESYSTEM''),
     (BackendKind.TCP, ''TCP''),
     (BackendKind.SYNTHETIC_REMOTE, ''SYNTHETIC_REMOTE''),
     (BackendKind.CUSTOM, ''CUSTOM''),
     (BackendKind.UNKNOWN, ''UNKNOWN'')]
    BackendKind.UNKNOWN"

definition capability_kind_from_string :: "string \<Rightarrow> CapabilityKind" where
  "capability_kind_from_string s = enum_from s
    [(CapabilityKind.CUDA_AVAILABLE, ''CUDA_AVAILABLE''),
     (CapabilityKind.CUDA_COMPUTE_CAPABILITY, ''CUDA_COMPUTE_CAPABILITY''),
     (CapabilityKind.CUDA_ARCHITECTURE, ''CUDA_ARCHITECTURE''),
     (CapabilityKind.CUDA_MEMORY, ''CUDA_MEMORY''),
     (CapabilityKind.HOST_PINNED_MEMORY, ''HOST_PINNED_MEMORY''),
     (CapabilityKind.LOCAL_FILESYSTEM, ''LOCAL_FILESYSTEM''),
     (CapabilityKind.LOCAL_STORAGE, ''LOCAL_STORAGE''),
     (CapabilityKind.TCP_TRANSPORT, ''TCP_TRANSPORT''),
     (CapabilityKind.FRAMED_PROTOCOL, ''FRAMED_PROTOCOL''),
     (CapabilityKind.MULTIPROCESS, ''MULTIPROCESS''),
     (CapabilityKind.COMPILATION, ''COMPILATION''),
     (CapabilityKind.PERSISTENCE, ''PERSISTENCE''),
     (CapabilityKind.CHECKPOINTING, ''CHECKPOINTING''),
     (CapabilityKind.COLLECTIVES, ''COLLECTIVES''),
     (CapabilityKind.REMOTE_ACCESS_CLASS, ''REMOTE_ACCESS_CLASS''),
     (CapabilityKind.HEALTH_REPORTING, ''HEALTH_REPORTING''),
     (CapabilityKind.POWER_TELEMETRY, ''POWER_TELEMETRY''),
     (CapabilityKind.GENERIC_FEATURE, ''GENERIC_FEATURE'')]
    CapabilityKind.UNKNOWN"

definition evidence_kind_from_string :: "string \<Rightarrow> EvidenceKind" where
  "evidence_kind_from_string s =
    (if s = ''MEASURED'' then EvidenceKind.MEASURED
     else if s = ''REPORTED'' then EvidenceKind.REPORTED
     else if s = ''DERIVED'' then EvidenceKind.DERIVED
     else if s = ''SYNTHETIC'' then EvidenceKind.SYNTHETIC
     else EvidenceKind.UNKNOWN)"

section \<open>Parsers invert printers\<close>

text \<open>The contract of a printer and its parser, shared by all enumerations that have both.\<close>

locale enum_text =
  fixes print :: "'e \<Rightarrow> string" and parse :: "string \<Rightarrow> 'e" and unknown :: 'e
  assumes parse_print: "parse (print e) = e"
    and parse_other: "s \<notin> range print \<Longrightarrow> parse s = unknown"
begin

lemma print_inject: "print a = print b \<longleftrightarrow> a = b"
  by (metis parse_print)

lemma parse_known: "parse s \<noteq> unknown \<Longrightarrow> s = print (parse s)"
  by (metis parse_other rangeE parse_print)

lemma parse_eq_iff: "e \<noteq> unknown \<Longrightarrow> parse s = e \<longleftrightarrow> s = print e"
  using parse_known parse_print by auto

end

lemma enum_from_fallback:
  "(\<And>e. (e, s) \<in> set table \<Longrightarrow> e = fallback) \<Longrightarrow> enum_from s table fallback = fallback"
  by (induction s table fallback rule: enum_from.induct) auto

lemma service_kind_from_string_print: "service_kind_from_string (to_string_ServiceKind k) = k"
  by (cases k) (simp_all add: service_kind_from_string_def)

lemma service_kind_from_string_other:
  assumes "s \<notin> range to_string_ServiceKind"
  shows "service_kind_from_string s = ServiceKind.UNKNOWN"
proof -
  have "s \<noteq> to_string_ServiceKind k" for k
    using assms by auto
  note ne = this
  show ?thesis
    using ne [of ServiceKind.SCHEDULER]
      ne [of ServiceKind.CACHE_DIRECTORY]
      ne [of ServiceKind.STATE_INDEX]
      ne [of ServiceKind.STORAGE_SERVICE]
      ne [of ServiceKind.CHECKPOINT_SERVICE]
      ne [of ServiceKind.RESOURCE_BROKER]
      ne [of ServiceKind.HEALTH_AGENT]
      ne [of ServiceKind.FLEET_AGENT]
      ne [of ServiceKind.COMPILER_SERVICE]
      ne [of ServiceKind.MODEL_SERVER]
      ne [of ServiceKind.TRANSFER_SERVICE]
      ne [of ServiceKind.COLLECTIVE_SERVICE]
      ne [of ServiceKind.OBSERVABILITY_SERVICE]
      ne [of ServiceKind.REGISTRY_SERVICE]
      ne [of ServiceKind.EXECUTION_SERVICE]
      ne [of ServiceKind.GENERIC_RUNTIME_SERVICE]
      ne [of ServiceKind.UNKNOWN]
    by (simp add: service_kind_from_string_def)
qed

interpretation service_kind_text: enum_text to_string_ServiceKind service_kind_from_string ServiceKind.UNKNOWN
  by unfold_locales (simp_all add: service_kind_from_string_print service_kind_from_string_other)

lemma runtime_kind_from_string_print: "runtime_kind_from_string (to_string_RuntimeKind k) = k"
  by (cases k) (simp_all add: runtime_kind_from_string_def)

lemma runtime_kind_from_string_other:
  assumes "s \<notin> range to_string_RuntimeKind"
  shows "runtime_kind_from_string s = RuntimeKind.UNKNOWN"
proof -
  have "s \<noteq> to_string_RuntimeKind k" for k
    using assms by auto
  note ne = this
  show ?thesis
    using ne [of RuntimeKind.NATIVE_CPP]
      ne [of RuntimeKind.CUDA_RUNTIME]
      ne [of RuntimeKind.CUDA_DRIVER]
      ne [of RuntimeKind.CUSTOM_ACCELERATOR_RUNTIME]
      ne [of RuntimeKind.MODEL_RUNTIME]
      ne [of RuntimeKind.SERVING_RUNTIME]
      ne [of RuntimeKind.STORAGE_RUNTIME]
      ne [of RuntimeKind.NETWORK_RUNTIME]
      ne [of RuntimeKind.COMPILATION_RUNTIME]
      ne [of RuntimeKind.SYNTHETIC_RUNTIME]
      ne [of RuntimeKind.UNKNOWN]
    by (simp add: runtime_kind_from_string_def)
qed

interpretation runtime_kind_text: enum_text to_string_RuntimeKind runtime_kind_from_string RuntimeKind.UNKNOWN
  by unfold_locales (simp_all add: runtime_kind_from_string_print runtime_kind_from_string_other)

lemma transport_kind_from_string_print: "transport_kind_from_string (to_string_TransportKind k) = k"
  by (cases k) (simp_all add: transport_kind_from_string_def)

lemma transport_kind_from_string_other:
  assumes "s \<notin> range to_string_TransportKind"
  shows "transport_kind_from_string s = TransportKind.UNKNOWN"
proof -
  have "s \<noteq> to_string_TransportKind k" for k
    using assms by auto
  note ne = this
  show ?thesis
    using ne [of TransportKind.TCP]
      ne [of TransportKind.LOCAL_IPC]
      ne [of TransportKind.SHARED_MEMORY]
      ne [of TransportKind.IN_PROCESS]
      ne [of TransportKind.SYNTHETIC_REMOTE]
      ne [of TransportKind.UNKNOWN]
    by (simp add: transport_kind_from_string_def)
qed

interpretation transport_kind_text: enum_text to_string_TransportKind transport_kind_from_string TransportKind.UNKNOWN
  by unfold_locales (simp_all add: transport_kind_from_string_print transport_kind_from_string_other)

lemma backend_kind_from_string_print: "backend_kind_from_string (to_string_BackendKind k) = k"
  by (cases k) (simp_all add: backend_kind_from_string_def)

lemma backend_kind_from_string_other:
  assumes "s \<notin> range to_string_BackendKind"
  shows "backend_kind_from_string s = BackendKind.UNKNOWN"
proof -
  have "s \<noteq> to_string_BackendKind k" for k
    using assms by auto
  note ne = this
  show ?thesis
    using ne [of BackendKind.CUDA]
      ne [of BackendKind.CPU]
      ne [of BackendKind.LOCAL_FILESYSTEM]
      ne [of BackendKind.TCP]
      ne [of BackendKind.SYNTHETIC_REMOTE]
      ne [of BackendKind.CUSTOM]
      ne [of BackendKind.UNKNOWN]
    by (simp add: backend_kind_from_string_def)
qed

interpretation backend_kind_text: enum_text to_string_BackendKind backend_kind_from_string BackendKind.UNKNOWN
  by unfold_locales (simp_all add: backend_kind_from_string_print backend_kind_from_string_other)

lemma capability_kind_from_string_print: "capability_kind_from_string (to_string_CapabilityKind k) = k"
  by (cases k) (simp_all add: capability_kind_from_string_def)

lemma capability_kind_from_string_other:
  assumes "s \<notin> range to_string_CapabilityKind"
  shows "capability_kind_from_string s = CapabilityKind.UNKNOWN"
proof -
  have "s \<noteq> to_string_CapabilityKind k" for k
    using assms by auto
  note ne = this
  show ?thesis
    using ne [of CapabilityKind.CUDA_AVAILABLE]
      ne [of CapabilityKind.CUDA_COMPUTE_CAPABILITY]
      ne [of CapabilityKind.CUDA_ARCHITECTURE]
      ne [of CapabilityKind.CUDA_MEMORY]
      ne [of CapabilityKind.HOST_PINNED_MEMORY]
      ne [of CapabilityKind.LOCAL_FILESYSTEM]
      ne [of CapabilityKind.LOCAL_STORAGE]
      ne [of CapabilityKind.TCP_TRANSPORT]
      ne [of CapabilityKind.FRAMED_PROTOCOL]
      ne [of CapabilityKind.MULTIPROCESS]
      ne [of CapabilityKind.COMPILATION]
      ne [of CapabilityKind.PERSISTENCE]
      ne [of CapabilityKind.CHECKPOINTING]
      ne [of CapabilityKind.COLLECTIVES]
      ne [of CapabilityKind.REMOTE_ACCESS_CLASS]
      ne [of CapabilityKind.HEALTH_REPORTING]
      ne [of CapabilityKind.POWER_TELEMETRY]
      ne [of CapabilityKind.GENERIC_FEATURE]
      ne [of CapabilityKind.UNKNOWN]
    by (simp add: capability_kind_from_string_def)
qed

interpretation capability_kind_text: enum_text to_string_CapabilityKind capability_kind_from_string CapabilityKind.UNKNOWN
  by unfold_locales (simp_all add: capability_kind_from_string_print capability_kind_from_string_other)

lemma evidence_kind_from_string_print: "evidence_kind_from_string (to_string_EvidenceKind k) = k"
  by (cases k) (simp_all add: evidence_kind_from_string_def)

lemma evidence_kind_from_string_other:
  assumes "s \<notin> range to_string_EvidenceKind"
  shows "evidence_kind_from_string s = EvidenceKind.UNKNOWN"
proof -
  have "s \<noteq> to_string_EvidenceKind k" for k
    using assms by auto
  note ne = this
  show ?thesis
    using ne [of EvidenceKind.MEASURED]
      ne [of EvidenceKind.REPORTED]
      ne [of EvidenceKind.DERIVED]
      ne [of EvidenceKind.SYNTHETIC]
      ne [of EvidenceKind.UNKNOWN]
    by (simp add: evidence_kind_from_string_def)
qed

interpretation evidence_kind_text: enum_text to_string_EvidenceKind evidence_kind_from_string EvidenceKind.UNKNOWN
  by unfold_locales (simp_all add: evidence_kind_from_string_print evidence_kind_from_string_other)

end
