(* ===== verification/RR_Version.thy ===== *)
theory RR_Version
  imports RR_Identity "HOL-Library.List_Lexorder" "HOL-Library.Char_ord"
begin

text \<open>
  The structured version model (\<^verbatim>\<open>version.hpp\<close>, \<^verbatim>\<open>version.cpp\<close>):
  parsing, printing and comparison of semantic versions and of the
  \<^verbatim>\<open>major.minor.patch\<close> versions of API, ABI and protocol contracts.

  Version numbers are \<^verbatim>\<open>std::int64_t\<close>: two's complement words compared with
  \<open>sint\<close>. Where the code accumulates digits into one, the model wraps around as the hardware
  does; standard C++ leaves signed overflow undefined, so statements about such inputs describe
  the wrap-around behaviour only.

  The lemmas show that every three-way comparison is a total preorder, that printing and parsing
  are inverse on well-formed versions, and which texts are accepted.
\<close>

section \<open>Splitting text\<close>

text \<open>
  \<open>cut_at c s\<close> is the pair of \<^verbatim>\<open>s.substr(0, s.find(c))\<close> and
  \<^verbatim>\<open>s.substr(s.find(c) + 1)\<close>, or \<open>None\<close> when \<^verbatim>\<open>find\<close>
  returns \<^verbatim>\<open>npos\<close>.
\<close>

definition cut_at :: "char \<Rightarrow> string \<Rightarrow> (string \<times> string) option" where
  "cut_at c s =
    (if c \<in> set s then Some (takeWhile (\<lambda>x. x \<noteq> c) s, tl (dropWhile (\<lambda>x. x \<noteq> c) s)) else None)"

lemma cut_at_Nil [simp]: "cut_at c [] = None"
  by (simp add: cut_at_def)

lemma cut_at_Cons [simp]:
  "cut_at c (x # s) = (if x = c then Some ([], s)
    else map_option (\<lambda>(a, b). (x # a, b)) (cut_at c s))"
  by (auto simp: cut_at_def)

lemma cut_at_None_iff: "cut_at c s = None \<longleftrightarrow> c \<notin> set s"
  by (simp add: cut_at_def)

lemma cut_at_None [simp]: "c \<notin> set s \<Longrightarrow> cut_at c s = None"
  by (simp add: cut_at_def)

lemma cut_at_append [simp]: "c \<notin> set a \<Longrightarrow> cut_at c (a @ c # b) = Some (a, b)"
  by (induction a) auto

lemma cut_at_Some_iff: "cut_at c s = Some (a, b) \<longleftrightarrow> s = a @ c # b \<and> c \<notin> set a"
proof
  assume eq: "cut_at c s = Some (a, b)"
  then have "c \<in> set s"
    by (auto simp: cut_at_def split: if_splits)
  then obtain ys zs where "s = ys @ c # zs" and "c \<notin> set ys"
    by (blast dest: split_list_first)
  with eq show "s = a @ c # b \<and> c \<notin> set a"
    by simp
next
  assume "s = a @ c # b \<and> c \<notin> set a"
  then show "cut_at c s = Some (a, b)"
    by simp
qed

lemma cut_at_length: "cut_at c s = Some (a, b) \<Longrightarrow> length b < length s"
  by (auto simp: cut_at_Some_iff)

function split_on :: "char \<Rightarrow> string \<Rightarrow> string list" where
  "split_on c s = (case cut_at c s of None \<Rightarrow> [s] | Some (a, b) \<Rightarrow> a # split_on c b)"
  by pat_completeness auto
termination
  by (relation "measure (\<lambda>(c, s). length s)") (auto dest: cut_at_length)

declare split_on.simps [simp del]

lemma split_on_no_sep: "c \<notin> set s \<Longrightarrow> split_on c s = [s]"
  by (subst split_on.simps) simp

lemma split_on_append: "c \<notin> set a \<Longrightarrow> split_on c (a @ c # b) = a # split_on c b"
  by (subst split_on.simps) simp

lemma split_on_nonempty [simp]: "split_on c s \<noteq> []"
  by (subst split_on.simps) (auto split: option.splits)

section \<open>Numbers\<close>

text \<open>\<^verbatim>\<open>parse_u64\<close>: the loop stops at the first non-digit or negative accumulator.\<close>

fun parse_u64_loop :: "string \<Rightarrow> i64 \<Rightarrow> i64 option" where
  "parse_u64_loop [] v = Some v"
| "parse_u64_loop (c # cs) v =
    (if \<not> is_digit c then None
     else let v' = v * 10 + of_nat (digit_val c)
          in if sint v' < 0 then None else parse_u64_loop cs v')"

definition parse_u64 :: "string \<Rightarrow> i64 option" where
  "parse_u64 s =
    (if s = [] then None
     else if length s > 1 \<and> hd s = CHR ''0'' then None
     else parse_u64_loop s 0)"

text \<open>\<^verbatim>\<open>std::to_string\<close> of a signed 64-bit integer.\<close>

definition show_i64 :: "i64 \<Rightarrow> string" where
  "show_i64 v =
    (if sint v < 0 then CHR ''-'' # show_nat (nat (- sint v)) else show_nat (nat (sint v)))"

section \<open>Semantic versions\<close>

record SemanticVersion =
  sv_major :: i64
  sv_minor :: i64
  sv_patch :: i64
  sv_prerelease :: string
  sv_build :: string

definition default_SemanticVersion :: SemanticVersion where
  "default_SemanticVersion =
    \<lparr>sv_major = 0, sv_minor = 0, sv_patch = 0, sv_prerelease = [], sv_build = []\<rparr>"

definition ident_char :: "char \<Rightarrow> bool" where
  "ident_char c \<longleftrightarrow>
    is_digit c \<or> (65 \<le> (of_char c :: nat) \<and> (of_char c :: nat) \<le> 90)
    \<or> (97 \<le> (of_char c :: nat) \<and> (of_char c :: nat) \<le> 122) \<or> c = CHR ''-''"

definition valid_identifier :: "string \<Rightarrow> bool" where
  "valid_identifier i \<longleftrightarrow>
    i \<noteq> [] \<and> list_all ident_char i \<and> \<not> (list_all is_digit i \<and> length i > 1 \<and> hd i = CHR ''0'')"

function valid_dot_loop :: "string \<Rightarrow> bool" where
  "valid_dot_loop s =
    (if s = [] then True
     else case cut_at (CHR ''.'') s of
       None \<Rightarrow> valid_identifier s
     | Some (i, rest) \<Rightarrow> valid_identifier i \<and> valid_dot_loop rest)"
  by pat_completeness auto
termination
  by (relation "measure length") (auto dest: cut_at_length)

declare valid_dot_loop.simps [simp del]

definition valid_dot_identifiers :: "string \<Rightarrow> bool" where
  "valid_dot_identifiers s \<longleftrightarrow> s \<noteq> [] \<and> valid_dot_loop s"

text \<open>
  \<^verbatim>\<open>SemanticVersion::parse\<close>: the build part is cut off at the first plus sign, then
  the prerelease part at the first dash, then the core is cut at its two dots. An empty third
  component leaves the patch number at zero.
\<close>

definition semver_core :: "string \<Rightarrow> string \<Rightarrow> string \<Rightarrow> SemanticVersion option" where
  "semver_core rest pre bld =
    (case cut_at (CHR ''.'') rest of None \<Rightarrow> None
     | Some (maj, r1) \<Rightarrow>
       (case cut_at (CHR ''.'') r1 of None \<Rightarrow> None
        | Some (mnr, pat) \<Rightarrow>
          if CHR ''.'' \<in> set pat then None
          else (case parse_u64 maj of None \<Rightarrow> None
           | Some a \<Rightarrow> (case parse_u64 mnr of None \<Rightarrow> None
             | Some b \<Rightarrow>
               if pat = [] then Some \<lparr>sv_major = a, sv_minor = b, sv_patch = 0,
                                       sv_prerelease = pre, sv_build = bld\<rparr>
               else (case parse_u64 pat of None \<Rightarrow> None
                | Some p \<Rightarrow> Some \<lparr>sv_major = a, sv_minor = b, sv_patch = p,
                                  sv_prerelease = pre, sv_build = bld\<rparr>)))))"

definition semver_parse :: "string \<Rightarrow> SemanticVersion option" where
  "semver_parse text =
    (if text = [] then None
     else
       let (rest, bld, ok1) = (case cut_at (CHR ''+'') text of
              None \<Rightarrow> (text, [], True) | Some (a, b) \<Rightarrow> (a, b, valid_dot_identifiers b))
       in if \<not> ok1 then None
          else
            let (rest', pre, ok2) = (case cut_at (CHR ''-'') rest of
                   None \<Rightarrow> (rest, [], True) | Some (a, b) \<Rightarrow> (a, b, valid_dot_identifiers b))
            in if \<not> ok2 then None else semver_core rest' pre bld)"

definition semver_str :: "SemanticVersion \<Rightarrow> string" where
  "semver_str v =
    show_i64 (sv_major v) @ ''.'' @ show_i64 (sv_minor v) @ ''.'' @ show_i64 (sv_patch v)
    @ (if sv_prerelease v \<noteq> [] then ''-'' @ sv_prerelease v else [])
    @ (if sv_build v \<noteq> [] then ''+'' @ sv_build v else [])"

text \<open>The loop of \<^verbatim>\<open>SemanticVersion::compare\<close> over the prerelease identifiers.\<close>

definition ident_number :: "string \<Rightarrow> i64" where
  "ident_number s = foldl (\<lambda>v c. v * 10 + of_nat (digit_val c)) 0 s"

definition cmp_i64 :: "i64 \<Rightarrow> i64 \<Rightarrow> int" where
  "cmp_i64 a b = (if a \<noteq> b then (if sint a < sint b then -1 else 1) else 0)"

definition cmp_ident :: "string \<Rightarrow> string \<Rightarrow> int" where
  "cmp_ident A B =
    (if A = [] \<and> B = [] then 0
     else if A = [] then -1
     else if B = [] then 1
     else if list_all is_digit A \<and> list_all is_digit B then
       cmp_i64 (ident_number A) (ident_number B)
     else if list_all is_digit A \<noteq> list_all is_digit B then
       (if list_all is_digit A then -1 else 1)
     else if A \<noteq> B then (if A < B then -1 else 1) else 0)"

function cmp_prerelease :: "string \<Rightarrow> string \<Rightarrow> int" where
  "cmp_prerelease a b =
    (let (A, na) = (case cut_at (CHR ''.'') a of None \<Rightarrow> (a, None) | Some (x, r) \<Rightarrow> (x, Some r));
         (B, nb) = (case cut_at (CHR ''.'') b of None \<Rightarrow> (b, None) | Some (x, r) \<Rightarrow> (x, Some r))
     in if A = [] \<and> B = [] then 0
        else if cmp_ident A B \<noteq> 0 then cmp_ident A B
        else (case (na, nb) of
                (None, None) \<Rightarrow> 0
              | (None, Some _) \<Rightarrow> -1
              | (Some _, None) \<Rightarrow> 1
              | (Some ra, Some rb) \<Rightarrow> cmp_prerelease ra rb))"
  by pat_completeness auto
termination
  by (relation "measure (\<lambda>(a, b). length a)") (auto dest: cut_at_length split: option.splits)

declare cmp_prerelease.simps [simp del]

definition semver_compare :: "SemanticVersion \<Rightarrow> SemanticVersion \<Rightarrow> int" where
  "semver_compare a b =
    (if sv_major a \<noteq> sv_major b then (if sint (sv_major a) < sint (sv_major b) then -1 else 1)
     else if sv_minor a \<noteq> sv_minor b then (if sint (sv_minor a) < sint (sv_minor b) then -1 else 1)
     else if sv_patch a \<noteq> sv_patch b then (if sint (sv_patch a) < sint (sv_patch b) then -1 else 1)
     else
       let a_pre = (sv_prerelease a \<noteq> []); b_pre = (sv_prerelease b \<noteq> [])
       in if \<not> a_pre \<and> \<not> b_pre then 0
          else if a_pre \<and> \<not> b_pre then -1
          else if \<not> a_pre \<and> b_pre then 1
          else cmp_prerelease (sv_prerelease a) (sv_prerelease b))"

definition semver_eq :: "SemanticVersion \<Rightarrow> SemanticVersion \<Rightarrow> bool" where
  "semver_eq a b \<longleftrightarrow> semver_compare a b = 0"

definition semver_less :: "SemanticVersion \<Rightarrow> SemanticVersion \<Rightarrow> bool" where
  "semver_less a b \<longleftrightarrow> semver_compare a b < 0"

section \<open>Structured versions\<close>

datatype 'tag StructuredVersion =
  StructuredVersion (ver_major: i64) (ver_minor: i64) (ver_patch: i64)

datatype ApiTag = ApiTag
datatype AbiTag = AbiTag
datatype ProtocolTag = ProtocolTag

type_synonym ApiVersion = "ApiTag StructuredVersion"
type_synonym AbiVersion = "AbiTag StructuredVersion"
type_synonym ProtocolVersion = "ProtocolTag StructuredVersion"

definition parse_version_components :: "string \<Rightarrow> (i64 \<times> i64 \<times> i64) option" where
  "parse_version_components text =
    (if text = [] then None
     else case split_on (CHR ''.'') text of
       [p] \<Rightarrow> map_option (\<lambda>a. (a, 0, 0)) (parse_u64 p)
     | [p, q] \<Rightarrow> (case (parse_u64 p, parse_u64 q) of
         (Some a, Some b) \<Rightarrow> Some (a, b, 0) | _ \<Rightarrow> None)
     | [p, q, r] \<Rightarrow> (case (parse_u64 p, parse_u64 q, parse_u64 r) of
         (Some a, Some b, Some c) \<Rightarrow> Some (a, b, c) | _ \<Rightarrow> None)
     | _ \<Rightarrow> None)"

definition ver_parse :: "string \<Rightarrow> 'tag StructuredVersion option" where
  "ver_parse text =
    map_option (\<lambda>(a, b, c). StructuredVersion a b c) (parse_version_components text)"

definition ver_compare :: "'tag StructuredVersion \<Rightarrow> 'tag StructuredVersion \<Rightarrow> int" where
  "ver_compare a b =
    (if ver_major a \<noteq> ver_major b then (if sint (ver_major a) < sint (ver_major b) then -1 else 1)
     else if ver_minor a \<noteq> ver_minor b then
       (if sint (ver_minor a) < sint (ver_minor b) then -1 else 1)
     else if ver_patch a \<noteq> ver_patch b then
       (if sint (ver_patch a) < sint (ver_patch b) then -1 else 1)
     else 0)"

definition ver_eq :: "'tag StructuredVersion \<Rightarrow> 'tag StructuredVersion \<Rightarrow> bool" where
  "ver_eq a b \<longleftrightarrow> ver_compare a b = 0"

definition ver_less :: "'tag StructuredVersion \<Rightarrow> 'tag StructuredVersion \<Rightarrow> bool" where
  "ver_less a b \<longleftrightarrow> ver_compare a b < 0"

definition ver_str :: "'tag StructuredVersion \<Rightarrow> string" where
  "ver_str v =
    show_i64 (ver_major v) @ ''.'' @ show_i64 (ver_minor v)
    @ (if ver_patch v \<noteq> 0 then ''.'' @ show_i64 (ver_patch v) else [])"

definition is_exact :: "'tag StructuredVersion \<Rightarrow> 'tag StructuredVersion \<Rightarrow> bool" where
  "is_exact v other \<longleftrightarrow> ver_compare v other = 0"

definition satisfies_min :: "'tag StructuredVersion \<Rightarrow> 'tag StructuredVersion \<Rightarrow> bool" where
  "satisfies_min v minimum \<longleftrightarrow> ver_compare v minimum \<ge> 0"

definition major_compatible :: "'tag StructuredVersion \<Rightarrow> 'tag StructuredVersion \<Rightarrow> bool" where
  "major_compatible v other \<longleftrightarrow> ver_major v = ver_major other"

definition within_range ::
  "'tag StructuredVersion \<Rightarrow> 'tag StructuredVersion \<Rightarrow> 'tag StructuredVersion \<Rightarrow> bool" where
  "within_range v low high \<longleftrightarrow> ver_compare v low \<ge> 0 \<and> ver_compare v high \<le> 0"

section \<open>Three-way comparisons are total preorders\<close>

text \<open>
  The contract of a \<^verbatim>\<open>compare\<close> member function: the six relational operators
  that the code derives from it behave as a total preorder exactly when it holds.
\<close>

locale comparator =
  fixes cmp :: "'a \<Rightarrow> 'a \<Rightarrow> int"
  assumes cmp_range: "cmp a b \<in> {-1, 0, 1}"
    and cmp_flip: "cmp b a = - cmp a b"
    and cmp_trans: "cmp a b \<le> 0 \<Longrightarrow> cmp b c \<le> 0 \<Longrightarrow> cmp a c \<le> 0"
begin

lemma cmp_refl [simp]: "cmp a a = 0"
  using cmp_flip [of a a] by simp

lemma cmp_zero_sym: "cmp a b = 0 \<Longrightarrow> cmp b a = 0"
  using cmp_flip [of a b] by simp

lemma cmp_zero_left:
  assumes "cmp a b = 0"
  shows "cmp a c = cmp b c"
proof -
  have "cmp a c \<le> 0 \<longleftrightarrow> cmp b c \<le> 0"
    using assms cmp_trans [of a b c] cmp_trans [of b a c] cmp_zero_sym by auto
  moreover have "cmp c a \<le> 0 \<longleftrightarrow> cmp c b \<le> 0"
    using assms cmp_trans [of c a b] cmp_trans [of c b a] cmp_zero_sym by auto
  ultimately show ?thesis
    using cmp_flip [of a c] cmp_flip [of b c] cmp_range [of a c] cmp_range [of b c] by auto
qed

lemma cmp_zero_right:
  assumes "cmp b c = 0"
  shows "cmp a b = cmp a c"
  using cmp_zero_left [OF assms, of a] cmp_flip [of a b] cmp_flip [of a c] by simp

lemma cmp_zero_trans: "cmp a b = 0 \<Longrightarrow> cmp b c = 0 \<Longrightarrow> cmp a c = 0"
  by (simp add: cmp_zero_left [of a b c])

lemma cmp_less_trans: "cmp a b < 0 \<Longrightarrow> cmp b c \<le> 0 \<Longrightarrow> cmp a c < 0"
  by (smt (verit) cmp_trans cmp_zero_left cmp_zero_sym cmp_flip)

lemma cmp_total: "cmp a b < 0 \<or> cmp a b = 0 \<or> cmp b a < 0"
  using cmp_flip [of a b] by linarith

lemma cmp_irrefl: "\<not> cmp a a < 0"
  by simp

end

text \<open>Comparators by a linearly ordered key, by two comparators in turn, and through a function.\<close>

definition cmp_key :: "('a \<Rightarrow> 'b::linorder) \<Rightarrow> 'a \<Rightarrow> 'a \<Rightarrow> int" where
  "cmp_key key a b = (if key a = key b then 0 else if key a < key b then -1 else 1)"

definition cmp_then :: "('a \<Rightarrow> 'a \<Rightarrow> int) \<Rightarrow> ('a \<Rightarrow> 'a \<Rightarrow> int) \<Rightarrow> 'a \<Rightarrow> 'a \<Rightarrow> int" where
  "cmp_then c d a b = (if c a b \<noteq> 0 then c a b else d a b)"

definition cmp_on :: "('a \<Rightarrow> 'b) \<Rightarrow> ('b \<Rightarrow> 'b \<Rightarrow> int) \<Rightarrow> 'a \<Rightarrow> 'a \<Rightarrow> int" where
  "cmp_on f c a b = c (f a) (f b)"

lemma comparator_key: "comparator (cmp_key key)"
  by unfold_locales (auto simp: cmp_key_def split: if_splits)

lemma comparator_on: "comparator c \<Longrightarrow> comparator (cmp_on f c)"
  unfolding comparator_def cmp_on_def by blast

lemma comparator_then:
  assumes c: "comparator c" and d: "comparator d"
  shows "comparator (cmp_then c d)"
proof
  show "cmp_then c d a b \<in> {-1, 0, 1}" for a b
    using comparator.cmp_range [OF c, of a b] comparator.cmp_range [OF d, of a b]
    by (auto simp: cmp_then_def)
  show "cmp_then c d b a = - cmp_then c d a b" for a b
    using comparator.cmp_flip [OF c, of a b] comparator.cmp_flip [OF d, of a b]
    by (simp add: cmp_then_def)
next
  fix x y z
  assume xy: "cmp_then c d x y \<le> 0" and yz: "cmp_then c d y z \<le> 0"
  show "cmp_then c d x z \<le> 0"
  proof (cases "c x y = 0")
    case True
    then have "c x z = c y z"
      by (rule comparator.cmp_zero_left [OF c])
    with True xy yz show ?thesis
      using comparator.cmp_trans [OF d, of x y z] by (simp add: cmp_then_def split: if_splits)
  next
    case False
    with xy yz have "c x y < 0" and "c y z \<le> 0"
      by (simp_all add: cmp_then_def split: if_splits)
    then have "c x z < 0"
      by (rule comparator.cmp_less_trans [OF c])
    then show ?thesis by (simp add: cmp_then_def)
  qed
qed

lemmas comparator_intros = comparator_key comparator_on comparator_then

text \<open>Lexicographic extension to lists, where a proper prefix comes first.\<close>

fun cmp_list :: "('a \<Rightarrow> 'a \<Rightarrow> int) \<Rightarrow> 'a list \<Rightarrow> 'a list \<Rightarrow> int" where
  "cmp_list c [] [] = 0"
| "cmp_list c [] (b # bs) = -1"
| "cmp_list c (a # as) [] = 1"
| "cmp_list c (a # as) (b # bs) = (if c a b \<noteq> 0 then c a b else cmp_list c as bs)"

lemma cmp_list_flip:
  assumes c: "comparator c"
  shows "cmp_list c bs as = - cmp_list c as bs"
proof (induction as arbitrary: bs)
  case Nil
  show ?case by (cases bs) simp_all
next
  case (Cons a as)
  then show ?case
    using comparator.cmp_flip [OF c, of a "hd bs"] by (cases bs) simp_all
qed

lemma cmp_list_trans:
  assumes c: "comparator c"
  shows "cmp_list c as bs \<le> 0 \<Longrightarrow> cmp_list c bs cs \<le> 0 \<Longrightarrow> cmp_list c as cs \<le> 0"
proof (induction as arbitrary: bs cs)
  case Nil
  then show ?case by (cases cs) simp_all
next
  case (Cons x as)
  then obtain y bs' z cs' where bs: "bs = y # bs'" and cs: "cs = z # cs'"
    by (cases bs; cases cs) simp_all
  show ?case
  proof (cases "c x y = 0")
    case True
    then have "c x z = c y z"
      by (rule comparator.cmp_zero_left [OF c])
    with True Cons.prems Cons.IH [of bs' cs'] show ?thesis
      by (simp add: bs cs split: if_splits)
  next
    case False
    with Cons.prems have "c x y < 0" and "c y z \<le> 0"
      by (simp_all add: bs cs split: if_splits)
    then have "c x z < 0"
      by (rule comparator.cmp_less_trans [OF c])
    then show ?thesis by (simp add: cs)
  qed
qed

lemma comparator_list:
  assumes c: "comparator c"
  shows "comparator (cmp_list c)"
proof
  show "cmp_list c as bs \<in> {-1, 0, 1}" for as bs
  proof (induction as arbitrary: bs)
    case Nil
    show ?case by (cases bs) simp_all
  next
    case (Cons a as)
    then show ?case
      using comparator.cmp_range [OF c, of a] by (cases bs) auto
  qed
  show "cmp_list c bs as = - cmp_list c as bs" for as bs
    by (rule cmp_list_flip [OF c])
  show "cmp_list c x y \<le> 0 \<Longrightarrow> cmp_list c y z \<le> 0 \<Longrightarrow> cmp_list c x z \<le> 0" for x y z
    by (rule cmp_list_trans [OF c])
qed

lemma cmp_i64_key: "cmp_i64 = cmp_key sint"
  by (simp add: cmp_i64_def cmp_key_def fun_eq_iff flip: word_eq_iff_signed)

lemma comparator_i64: "comparator cmp_i64"
  unfolding cmp_i64_key by (rule comparator_key)

lemma ver_compare_alt:
  "ver_compare = cmp_then (cmp_on ver_major cmp_i64)
     (cmp_then (cmp_on ver_minor cmp_i64) (cmp_on ver_patch cmp_i64))"
  by (simp add: fun_eq_iff ver_compare_def cmp_i64_def cmp_then_def cmp_on_def)

interpretation ver_cmp: comparator ver_compare
  unfolding ver_compare_alt by (intro comparator_intros comparator_i64)

text \<open>
  Identifiers fall into three ranks: the empty one, numbers, and other text; numbers compare by
  value and other text by its bytes.
\<close>

definition ident_rank :: "string \<Rightarrow> nat" where
  "ident_rank s = (if s = [] then 0 else if list_all is_digit s then 1 else 2)"

lemma cmp_ident_alt:
  "cmp_ident = cmp_then (cmp_key ident_rank)
     (cmp_then (cmp_on (\<lambda>s. if list_all is_digit s then ident_number s else 0) cmp_i64)
       (cmp_key (\<lambda>s. if list_all is_digit s then [] else s)))"
proof (intro ext)
  fix A B :: string
  consider "A = []" | "B = []" | "A \<noteq> []" "B \<noteq> []" by blast
  then show "cmp_ident A B = cmp_then (cmp_key ident_rank)
     (cmp_then (cmp_on (\<lambda>s. if list_all is_digit s then ident_number s else 0) cmp_i64)
       (cmp_key (\<lambda>s. if list_all is_digit s then [] else s))) A B"
    by cases (simp_all add: cmp_ident_def cmp_then_def cmp_key_def cmp_on_def ident_rank_def
        cmp_i64_def ident_number_def)
qed

lemma comparator_ident: "comparator cmp_ident"
  unfolding cmp_ident_alt by (intro comparator_intros comparator_i64)

text \<open>The identifiers the loop looks at: it never gets past an empty one on either side.\<close>

function prerelease_idents :: "string \<Rightarrow> string list" where
  "prerelease_idents s =
    (case cut_at (CHR ''.'') s of
       None \<Rightarrow> [s]
     | Some (i, rest) \<Rightarrow> if i = [] then [i] else i # prerelease_idents rest)"
  by pat_completeness auto
termination
  by (relation "measure length") (auto dest: cut_at_length)

declare prerelease_idents.simps [simp del]

lemma cmp_ident_Nil [simp]:
  "cmp_ident [] [] = 0" "b \<noteq> [] \<Longrightarrow> cmp_ident [] b = -1" "a \<noteq> [] \<Longrightarrow> cmp_ident a [] = 1"
  by (simp_all add: cmp_ident_def)

lemma prerelease_idents_nonempty [simp]: "prerelease_idents s \<noteq> []"
  by (subst prerelease_idents.simps) (auto split: option.splits)

lemma cmp_list_Nil_left: "bs \<noteq> [] \<Longrightarrow> cmp_list c [] bs = -1"
  by (cases bs) simp_all

lemma cmp_list_Nil_right: "as \<noteq> [] \<Longrightarrow> cmp_list c as [] = 1"
  by (cases as) simp_all

lemma cmp_prerelease_idents:
  "cmp_prerelease a b = cmp_list cmp_ident (prerelease_idents a) (prerelease_idents b)"
proof (induction a b rule: cmp_prerelease.induct)
  case (1 a b)
  show ?case
    using 1
    by (subst cmp_prerelease.simps)
      (auto simp: Let_def cmp_list_Nil_left cmp_list_Nil_right
        prerelease_idents.simps [of a] prerelease_idents.simps [of b]
        split: option.splits prod.splits)
qed

lemma semver_compare_alt:
  "semver_compare = cmp_then (cmp_on sv_major cmp_i64) (cmp_then (cmp_on sv_minor cmp_i64)
     (cmp_then (cmp_on sv_patch cmp_i64) (cmp_then (cmp_key (\<lambda>a. sv_prerelease a = []))
       (cmp_on (\<lambda>a. if sv_prerelease a = [] then [] else prerelease_idents (sv_prerelease a))
         (cmp_list cmp_ident)))))"
  by (simp add: fun_eq_iff semver_compare_def cmp_i64_def cmp_then_def cmp_on_def cmp_key_def
      cmp_prerelease_idents Let_def)

interpretation semver_cmp: comparator semver_compare
  unfolding semver_compare_alt
  by (intro comparator_intros comparator_i64 comparator_list comparator_ident)

section \<open>Printing and parsing numbers\<close>

definition digit_step :: "nat \<Rightarrow> char \<Rightarrow> nat" where
  "digit_step v c = v * 10 + digit_val c"

lemma digits_val_foldl: "digits_val s = foldl digit_step 0 s"
  by (simp add: digits_val_def digit_step_def [abs_def])

lemma digit_step_ge: "n \<le> foldl digit_step n s"
proof (induction s arbitrary: n)
  case (Cons c s)
  have "n \<le> digit_step n c"
    by (simp add: digit_step_def)
  also have "\<dots> \<le> foldl digit_step (digit_step n c) s"
    by (rule Cons.IH)
  finally show ?case by simp
qed simp

lemma sint_of_nat_small: "n < 2 ^ 63 \<Longrightarrow> sint (of_nat n :: i64) = int n"
  using int_word_sint [of "int n", where 'a = 64] by simp

lemma of_nat_sint: "0 \<le> sint (v :: i64) \<Longrightarrow> of_nat (nat (sint v)) = v"
  using scast_eq [of v, where 'a = 64] by simp

lemma sint_less_2p63: "sint (v :: i64) < 2 ^ 63"
  using sint_lt [of v] by simp

lemma parse_u64_loop_digits:
  "list_all is_digit s \<Longrightarrow> foldl digit_step n s < 2 ^ 63 \<Longrightarrow>
     parse_u64_loop s (of_nat n) = Some (of_nat (foldl digit_step n s))"
proof (induction s arbitrary: n)
  case (Cons c s)
  let ?m = "digit_step n c"
  have m: "?m < 2 ^ 63"
    using Cons.prems(2) digit_step_ge [of ?m s] by simp
  have step: "(of_nat n * 10 + of_nat (digit_val c) :: i64) = of_nat ?m"
    by (simp add: digit_step_def)
  have "\<not> sint (of_nat ?m :: i64) < 0"
    using sint_of_nat_small [OF m] by simp
  with Cons step show ?case by (simp add: Let_def)
qed simp

lemma parse_u64_loop_Some:
  "parse_u64_loop s v = Some w \<Longrightarrow> 0 \<le> sint v \<Longrightarrow> list_all is_digit s \<and> 0 \<le> sint w"
  by (induction s v rule: parse_u64_loop.induct) (auto simp: Let_def split: if_splits)

lemma parse_u64_Some:
  assumes "parse_u64 s = Some w"
  shows "s \<noteq> [] \<and> list_all is_digit s \<and> 0 \<le> sint w"
  using assms parse_u64_loop_Some [of s 0 w] by (auto simp: parse_u64_def split: if_splits)

lemma hd_show_nat: "n > 0 \<Longrightarrow> hd (show_nat n) \<noteq> CHR ''0''"
proof (induction n rule: show_nat.induct)
  case (1 n)
  show ?case
  proof (cases "n < 10")
    case True
    with "1.prems" have "of_char (digit_char n) \<noteq> (48 :: nat)"
      by (simp add: of_char_digit_char)
    then have "digit_char n \<noteq> CHR ''0''" by auto
    with True show ?thesis by (subst show_nat.simps) simp
  next
    case False
    with 1 show ?thesis by (subst show_nat.simps) simp
  qed
qed

lemma parse_u64_show_nat:
  assumes "n < 2 ^ 63"
  shows "parse_u64 (show_nat n) = Some (of_nat n)"
proof -
  have "foldl digit_step 0 (show_nat n) = n"
    using digits_val_show_nat [of n] by (simp add: digits_val_foldl)
  then have loop: "parse_u64_loop (show_nat n) 0 = Some (of_nat n)"
    using parse_u64_loop_digits [of "show_nat n" 0] assms show_nat_digits [of n] by simp
  have "\<not> (length (show_nat n) > 1 \<and> hd (show_nat n) = CHR ''0'')"
    using hd_show_nat [of n] by (cases "n = 0") (simp_all add: show_nat.simps)
  with loop show ?thesis
    by (simp add: parse_u64_def)
qed

lemma show_i64_nonneg: "0 \<le> sint v \<Longrightarrow> show_i64 v = show_nat (nat (sint v))"
  by (simp add: show_i64_def)

lemma parse_u64_show_i64 [simp]: "0 \<le> sint v \<Longrightarrow> parse_u64 (show_i64 v) = Some v"
  using sint_less_2p63 [of v]
  by (simp add: show_i64_nonneg parse_u64_show_nat nat_less_iff of_nat_sint)

lemma is_digit_digit_char: "is_digit c \<Longrightarrow> digit_char (digit_val c) = c"
  by (simp add: is_digit_def digit_char_def digit_val_def)

lemma digit_val_less: "is_digit c \<Longrightarrow> digit_val c < 10"
  unfolding is_digit_def digit_val_def by linarith

lemma digits_val_pos:
  assumes "s \<noteq> []" "list_all is_digit s" "hd s \<noteq> CHR ''0''"
  shows "0 < digits_val s"
proof -
  from assms obtain c t where s: "s = c # t" by (cases s) auto
  have "is_digit c" "c \<noteq> CHR ''0''"
    using assms by (simp_all add: s)
  moreover have "digit_char 0 = CHR ''0''"
    by simp
  ultimately have "digit_val c \<noteq> 0"
    using is_digit_digit_char [of c] by metis
  then have "0 < digit_val c" by simp
  then show ?thesis
    using digit_step_ge [of "digit_val c" t] by (simp add: s digits_val_foldl digit_step_def)
qed

text \<open>A digit string without a superfluous leading zero is the rendering of its value.\<close>

lemma show_nat_digits_val:
  "s \<noteq> [] \<Longrightarrow> list_all is_digit s \<Longrightarrow> \<not> (length s > 1 \<and> hd s = CHR ''0'') \<Longrightarrow>
     show_nat (digits_val s) = s"
proof (induction s rule: rev_induct)
  case (snoc c s)
  then have c: "digit_val c < 10" "digit_char (digit_val c) = c"
    by (simp_all add: digit_val_less is_digit_digit_char)
  show ?case
  proof (cases "s = []")
    case True
    with c show ?thesis by (subst show_nat.simps) (simp add: digits_val_def)
  next
    case False
    then have hd: "hd s \<noteq> CHR ''0''"
      using snoc.prems by (cases s) auto
    with False snoc have IH: "show_nat (digits_val s) = s" by simp
    have "0 < digits_val s"
      using False hd snoc.prems by (simp add: digits_val_pos)
    with c IH show ?thesis
      by (subst show_nat.simps) simp
  qed
qed simp

lemma digits_val_less_power: "list_all is_digit s \<Longrightarrow> digits_val s < 10 ^ length s"
proof (induction s rule: rev_induct)
  case (snoc c s)
  then have "digits_val s + 1 \<le> 10 ^ length s" and "digit_val c < 10"
    by (simp_all add: digit_val_less)
  then have "digits_val s * 10 + digit_val c < (digits_val s + 1) * 10" by simp
  also have "\<dots> \<le> 10 ^ length s * 10"
    using \<open>digits_val s + 1 \<le> 10 ^ length s\<close> by (rule mult_right_mono) simp
  finally show ?case by simp
qed simp

lemma parse_u64_short:
  assumes "parse_u64 s = Some v" and "length s \<le> 18"
  shows "s = show_i64 v"
proof -
  from assms(1) have s: "s \<noteq> []" "list_all is_digit s" "0 \<le> sint v"
    using parse_u64_Some by blast+
  have "digits_val s < 10 ^ length s"
    using s(2) by (rule digits_val_less_power)
  also have "\<dots> \<le> (10::nat) ^ 18"
    using assms(2) by (rule power_increasing) simp
  finally have small: "digits_val s < 2 ^ 63" by simp
  then have "parse_u64_loop s 0 = Some (of_nat (digits_val s))"
    using parse_u64_loop_digits [of s 0] s(2) by (simp add: digits_val_foldl)
  with assms(1) have "v = of_nat (digits_val s)" and "\<not> (length s > 1 \<and> hd s = CHR ''0'')"
    by (auto simp: parse_u64_def split: if_splits)
  with s small show ?thesis
    by (simp add: show_i64_nonneg sint_of_nat_small show_nat_digits_val)
qed

section \<open>Printing and parsing versions\<close>

lemma digit_not_sep: "is_digit c \<Longrightarrow> c \<noteq> CHR ''.'' \<and> c \<noteq> CHR ''-'' \<and> c \<noteq> CHR ''+''"
  by (auto simp: is_digit_def)

lemma show_i64_no_sep:
  assumes "0 \<le> sint v" and "x = CHR ''.'' \<or> x = CHR ''-'' \<or> x = CHR ''+''"
  shows "x \<notin> set (show_i64 v)"
  using assms show_nat_digits [of "nat (sint v)"] digit_not_sep
  by (auto simp: show_i64_nonneg list_all_iff)

lemma show_i64_nonempty [simp]: "show_i64 v \<noteq> []"
  by (simp add: show_i64_def)

definition ver_nonneg :: "'tag StructuredVersion \<Rightarrow> bool" where
  "ver_nonneg v \<longleftrightarrow> 0 \<le> sint (ver_major v) \<and> 0 \<le> sint (ver_minor v) \<and> 0 \<le> sint (ver_patch v)"

lemma ver_parse_str:
  assumes "ver_nonneg v"
  shows "ver_parse (ver_str v) = Some v"
proof -
  from assms have nn: "0 \<le> sint (ver_major v)" "0 \<le> sint (ver_minor v)" "0 \<le> sint (ver_patch v)"
    by (simp_all add: ver_nonneg_def)
  note sep = show_i64_no_sep [of _ "CHR ''.''"]
  show ?thesis
  proof (cases "ver_patch v = 0")
    case True
    then have "split_on (CHR ''.'') (ver_str v) = [show_i64 (ver_major v), show_i64 (ver_minor v)]"
      using nn by (simp add: ver_str_def split_on_append split_on_no_sep sep)
    with True nn show ?thesis
      by (cases v) (simp add: ver_parse_def parse_version_components_def ver_str_def)
  next
    case False
    then have "split_on (CHR ''.'') (ver_str v) =
        [show_i64 (ver_major v), show_i64 (ver_minor v), show_i64 (ver_patch v)]"
      using nn by (simp add: ver_str_def split_on_append split_on_no_sep sep)
    with False nn show ?thesis
      by (cases v) (simp add: ver_parse_def parse_version_components_def ver_str_def)
  qed
qed

definition semver_wf :: "SemanticVersion \<Rightarrow> bool" where
  "semver_wf v \<longleftrightarrow>
    0 \<le> sint (sv_major v) \<and> 0 \<le> sint (sv_minor v) \<and> 0 \<le> sint (sv_patch v)
    \<and> (sv_prerelease v = [] \<or> valid_dot_identifiers (sv_prerelease v))
    \<and> (sv_build v = [] \<or> valid_dot_identifiers (sv_build v))"

lemma valid_dot_loop_no_plus: "valid_dot_loop s \<Longrightarrow> CHR ''+'' \<notin> set s"
proof (induction s rule: valid_dot_loop.induct)
  case (1 s)
  have id: "CHR ''+'' \<notin> set i" if "valid_identifier i" for i
    using that by (auto simp: valid_identifier_def list_all_iff ident_char_def is_digit_def)
  show ?case
  proof (cases "cut_at (CHR ''.'') s")
    case None
    with 1 id [of s] show ?thesis
      by (cases "s = []") (simp_all add: valid_dot_loop.simps [of s])
  next
    case (Some p)
    then obtain i rest where p: "cut_at (CHR ''.'') s = Some (i, rest)" by (cases p) auto
    then have "s \<noteq> []" by auto
    with p "1.prems" have "valid_identifier i" "valid_dot_loop rest"
      by (simp_all add: valid_dot_loop.simps [of s])
    with 1 p id [of i] have "CHR ''+'' \<notin> set i" "CHR ''+'' \<notin> set rest"
      by (auto simp: cut_at_Some_iff)
    with p show ?thesis by (auto simp: cut_at_Some_iff)
  qed
qed

lemma semver_core_show:
  assumes "0 \<le> sint a" "0 \<le> sint b" "0 \<le> sint c"
  shows "semver_core (show_i64 a @ CHR ''.'' # show_i64 b @ CHR ''.'' # show_i64 c) pre bld =
    Some \<lparr>sv_major = a, sv_minor = b, sv_patch = c, sv_prerelease = pre, sv_build = bld\<rparr>"
  using assms by (simp add: semver_core_def show_i64_no_sep)

lemma semver_parse_str:
  assumes "semver_wf v"
  shows "semver_parse (semver_str v) = Some v"
proof -
  define core where "core = show_i64 (sv_major v) @ CHR ''.'' # show_i64 (sv_minor v)
    @ CHR ''.'' # show_i64 (sv_patch v)"
  define pre where "pre = (if sv_prerelease v \<noteq> [] then CHR ''-'' # sv_prerelease v else [])"
  from assms have nn: "0 \<le> sint (sv_major v)" "0 \<le> sint (sv_minor v)" "0 \<le> sint (sv_patch v)"
    and vp: "sv_prerelease v = [] \<or> valid_dot_identifiers (sv_prerelease v)"
    and vb: "sv_build v = [] \<or> valid_dot_identifiers (sv_build v)"
    by (simp_all add: semver_wf_def)
  have core: "CHR ''-'' \<notin> set core" "CHR ''+'' \<notin> set core"
    using nn by (auto simp: core_def show_i64_no_sep)
  have plus: "CHR ''+'' \<notin> set (core @ pre)"
    using core vp by (auto simp: pre_def valid_dot_identifiers_def dest: valid_dot_loop_no_plus)
  have str: "semver_str v = (core @ pre) @ (if sv_build v \<noteq> [] then CHR ''+'' # sv_build v else [])"
    by (simp add: semver_str_def core_def pre_def)
  have cut1: "cut_at (CHR ''+'') (semver_str v) =
      (if sv_build v = [] then None else Some (core @ pre, sv_build v))"
    using plus cut_at_append [OF plus, of "sv_build v"] by (simp add: str)
  have cut2: "cut_at (CHR ''-'') (core @ pre) =
      (if sv_prerelease v = [] then None else Some (core, sv_prerelease v))"
    using core by (simp add: pre_def)
  have nonempty: "semver_str v \<noteq> []"
    by (simp add: semver_str_def)
  have split1: "(case cut_at (CHR ''+'') (semver_str v) of None \<Rightarrow> (semver_str v, [], True)
      | Some (a, b) \<Rightarrow> (a, b, valid_dot_identifiers b)) = (core @ pre, sv_build v, True)"
    using vb unfolding cut1 by (auto simp: str)
  have split2: "(case cut_at (CHR ''-'') (core @ pre) of None \<Rightarrow> (core @ pre, [], True)
      | Some (a, b) \<Rightarrow> (a, b, valid_dot_identifiers b)) = (core, sv_prerelease v, True)"
    using vp unfolding cut2 by (auto simp: pre_def)
  have "semver_core core (sv_prerelease v) (sv_build v) = Some v"
    using nn by (simp add: core_def semver_core_show)
  with nonempty show ?thesis
    unfolding semver_parse_def split1 by (simp add: split2)
qed

lemma semver_parse_wf: "semver_parse t = Some v \<Longrightarrow> semver_wf v"
  by (auto simp: semver_parse_def semver_core_def semver_wf_def Let_def
      dest!: parse_u64_Some split: if_splits option.splits)

end
