(* ===== verification/RR_Model.thy ===== *)
theory RR_Model
  imports RR_Identity RR_Enums RR_Version
begin

text \<open>
  The descriptor model: provenance (\<^verbatim>\<open>provenance.hpp\<close>), typed capability values
  (\<^verbatim>\<open>capability.hpp\<close>, \<^verbatim>\<open>capability.cpp\<close>) and the records of
  \<^verbatim>\<open>model.hpp\<close>. Each struct is a record whose field names carry a prefix for
  their struct; \<open>default_...\<close> is the value of a default-constructed struct.

  The defaulted \<^verbatim>\<open>operator==\<close> compares member by member. Where every member
  compares by value it is HOL equality. It is not for a struct with a semantic version, whose
  \<^verbatim>\<open>operator==\<close> ignores build metadata, or with a capability value, whose
  \<^verbatim>\<open>operator==\<close> looks at the active shape only and compares doubles by IEEE rules;
  those structs have an equality of their own (\<open>..._eq\<close>).
\<close>

section \<open>Provenance\<close>

record Provenance =
  pv_kind :: EvidenceKind
  pv_source :: string
  pv_timestamp_ms :: i64
  pv_digest :: string

definition default_Provenance :: Provenance where
  "default_Provenance =
    \<lparr>pv_kind = EvidenceKind.UNKNOWN, pv_source = [], pv_timestamp_ms = 0, pv_digest = []\<rparr>"

definition is_physical :: "Provenance \<Rightarrow> bool" where
  "is_physical p \<longleftrightarrow>
    pv_kind p = EvidenceKind.MEASURED \<or> pv_kind p = EvidenceKind.REPORTED
    \<or> pv_kind p = EvidenceKind.DERIVED"

definition make_provenance :: "EvidenceKind \<Rightarrow> string \<Rightarrow> i64 \<Rightarrow> string \<Rightarrow> Provenance" where
  "make_provenance k src ts dig =
    \<lparr>pv_kind = k, pv_source = src, pv_timestamp_ms = ts, pv_digest = dig\<rparr>"

section \<open>Doubles\<close>

text \<open>
  A \<^verbatim>\<open>double\<close> is stored as its IEEE 754 bit pattern; \<^verbatim>\<open>==\<close>
  identifies the two zeros and is false on a NaN.
\<close>

type_synonym f64 = "64 word"

definition f64_nan :: "f64 \<Rightarrow> bool" where
  "f64_nan b \<longleftrightarrow> take_bit 63 b > 0x7FF0000000000000"

definition f64_zero :: "f64 \<Rightarrow> bool" where
  "f64_zero b \<longleftrightarrow> take_bit 63 b = 0"

definition f64_eq :: "f64 \<Rightarrow> f64 \<Rightarrow> bool" where
  "f64_eq a b \<longleftrightarrow> \<not> f64_nan a \<and> \<not> f64_nan b \<and> (a = b \<or> (f64_zero a \<and> f64_zero b))"

section \<open>Capability values\<close>

datatype CapabilityValueKind =
  BOOLEAN | INTEGER | REAL | RANGE | STRING | STRUCTURED | UNKNOWN

fun to_string_CapabilityValueKind :: "CapabilityValueKind \<Rightarrow> string" where
  "to_string_CapabilityValueKind CapabilityValueKind.BOOLEAN = ''BOOLEAN''"
| "to_string_CapabilityValueKind CapabilityValueKind.INTEGER = ''INTEGER''"
| "to_string_CapabilityValueKind CapabilityValueKind.REAL = ''REAL''"
| "to_string_CapabilityValueKind CapabilityValueKind.RANGE = ''RANGE''"
| "to_string_CapabilityValueKind CapabilityValueKind.STRING = ''STRING''"
| "to_string_CapabilityValueKind CapabilityValueKind.STRUCTURED = ''STRUCTURED''"
| "to_string_CapabilityValueKind CapabilityValueKind.UNKNOWN = ''UNKNOWN''"

datatype CapabilityValue = CapabilityValue
  (cv_kind: CapabilityValueKind)
  (cv_boolean: bool)
  (cv_integer: i64)
  (cv_real: f64)
  (cv_string: string)
  (cv_has_min: bool)
  (cv_has_max: bool)
  (cv_range_min: f64)
  (cv_range_max: f64)
  (cv_structured: "(string \<times> CapabilityValue) list")

definition default_CapabilityValue :: CapabilityValue where
  "default_CapabilityValue =
    CapabilityValue CapabilityValueKind.UNKNOWN False 0 0 [] False False 0 0 []"

definition make_bool :: "bool \<Rightarrow> CapabilityValue" where
  "make_bool v = CapabilityValue CapabilityValueKind.BOOLEAN v 0 0 [] False False 0 0 []"

definition make_integer :: "i64 \<Rightarrow> CapabilityValue" where
  "make_integer v = CapabilityValue CapabilityValueKind.INTEGER False v 0 [] False False 0 0 []"

definition make_real :: "f64 \<Rightarrow> CapabilityValue" where
  "make_real v = CapabilityValue CapabilityValueKind.REAL False 0 v [] False False 0 0 []"

definition make_string :: "string \<Rightarrow> CapabilityValue" where
  "make_string v = CapabilityValue CapabilityValueKind.STRING False 0 0 v False False 0 0 []"

definition make_range :: "f64 \<Rightarrow> f64 \<Rightarrow> CapabilityValue" where
  "make_range lo hi = CapabilityValue CapabilityValueKind.RANGE False 0 0 [] True True lo hi []"

definition make_structured :: CapabilityValue where
  "make_structured =
    CapabilityValue CapabilityValueKind.STRUCTURED False 0 0 [] False False 0 0 []"

fun cv_eq :: "CapabilityValue \<Rightarrow> CapabilityValue \<Rightarrow> bool"
  and cv_list_eq :: "(string \<times> CapabilityValue) list \<Rightarrow> (string \<times> CapabilityValue) list \<Rightarrow> bool"
where
  "cv_eq (CapabilityValue k b i r s mn mx lo hi st) (CapabilityValue k' b' i' r' s' mn' mx' lo' hi' st') =
    (if k \<noteq> k' then False
     else case k of
       CapabilityValueKind.BOOLEAN \<Rightarrow> b = b'
     | CapabilityValueKind.INTEGER \<Rightarrow> i = i'
     | CapabilityValueKind.REAL \<Rightarrow> f64_eq r r'
     | CapabilityValueKind.RANGE \<Rightarrow> mn = mn' \<and> mx = mx' \<and> f64_eq lo lo' \<and> f64_eq hi hi'
     | CapabilityValueKind.STRING \<Rightarrow> s = s'
     | CapabilityValueKind.STRUCTURED \<Rightarrow> cv_list_eq st st'
     | CapabilityValueKind.UNKNOWN \<Rightarrow> True)"
| "cv_list_eq [] [] = True"
| "cv_list_eq ((k, v) # xs) ((k', v') # ys) = (k = k' \<and> cv_eq v v' \<and> cv_list_eq xs ys)"
| "cv_list_eq _ _ = False"

record CapabilityDescriptor =
  cap_capability_id :: CapabilityId
  cap_kind :: CapabilityKind
  cap_generation :: CapabilityGeneration
  cap_version :: SemanticVersion
  cap_value :: CapabilityValue
  cap_attributes :: "string list"
  cap_constraints :: "string list"
  cap_provenance :: Provenance
  cap_freshness :: Freshness
  cap_authority_generation :: AuthorityGeneration

definition default_CapabilityDescriptor :: CapabilityDescriptor where
  "default_CapabilityDescriptor =
    \<lparr>cap_capability_id = no_id, cap_kind = CapabilityKind.UNKNOWN, cap_generation = no_gen,
     cap_version = default_SemanticVersion, cap_value = default_CapabilityValue,
     cap_attributes = [], cap_constraints = [], cap_provenance = default_Provenance,
     cap_freshness = Freshness.UNKNOWN, cap_authority_generation = no_gen\<rparr>"

definition cap_eq :: "CapabilityDescriptor \<Rightarrow> CapabilityDescriptor \<Rightarrow> bool" where
  "cap_eq a b \<longleftrightarrow>
    semver_eq (cap_version a) (cap_version b) \<and> cv_eq (cap_value a) (cap_value b)
    \<and> a\<lparr>cap_version := cap_version b, cap_value := cap_value b\<rparr> = b"

section \<open>Descriptors\<close>

definition default_version :: "'tag StructuredVersion" where
  "default_version = StructuredVersion 0 0 0"

record EndpointLocator =
  loc_text :: "string"

definition default_EndpointLocator :: EndpointLocator where
  "default_EndpointLocator =
    \<lparr>loc_text = []\<rparr>"

definition locator_empty :: "EndpointLocator \<Rightarrow> bool" where
  "locator_empty l \<longleftrightarrow> loc_text l = []"

record EndpointDescriptor =
  ep_endpoint_id :: "EndpointId"
  ep_service_instance :: "ServiceInstanceId"
  ep_generation :: "EndpointGeneration"
  ep_protocol :: "ProtocolId"
  ep_locator :: "EndpointLocator"
  ep_transport :: "TransportKind"
  ep_port :: "u16"
  ep_security :: "EndpointSecurity"
  ep_health :: "Health"
  ep_reachability :: "Reachability"
  ep_freshness :: "Freshness"
  ep_provenance :: "Provenance"
  ep_authority_generation :: "AuthorityGeneration"

definition default_EndpointDescriptor :: EndpointDescriptor where
  "default_EndpointDescriptor =
    \<lparr>ep_endpoint_id = no_id, ep_service_instance = no_id, ep_generation = no_gen,
     ep_protocol = no_id, ep_locator = default_EndpointLocator,
     ep_transport = TransportKind.UNKNOWN, ep_port = 0,
     ep_security = EndpointSecurity.UNKNOWN, ep_health = Health.UNKNOWN,
     ep_reachability = Reachability.UNKNOWN, ep_freshness = Freshness.UNKNOWN,
     ep_provenance = default_Provenance, ep_authority_generation = no_gen\<rparr>"

record ProtocolDescriptor =
  pd_protocol_id :: "ProtocolId"
  pd_name :: "string"
  pd_generation :: "ProtocolGeneration"
  pd_version :: "ProtocolVersion"
  pd_compatibility_min :: "ProtocolVersion"
  pd_framing :: "string"
  pd_required_capabilities :: "CapabilityKind list"
  pd_max_payload :: "i64"
  pd_provenance :: "Provenance"

definition default_ProtocolDescriptor :: ProtocolDescriptor where
  "default_ProtocolDescriptor =
    \<lparr>pd_protocol_id = no_id, pd_name = [], pd_generation = no_gen,
     pd_version = default_version, pd_compatibility_min = default_version, pd_framing = [],
     pd_required_capabilities = [], pd_max_payload = 0, pd_provenance = default_Provenance\<rparr>"

record RuntimeDescriptor =
  rt_runtime_id :: "RuntimeId"
  rt_runtime_instance :: "RuntimeInstanceId"
  rt_generation :: "RuntimeGeneration"
  rt_kind :: "RuntimeKind"
  rt_name :: "string"
  rt_family :: "string"
  rt_version :: "SemanticVersion"
  rt_api_version :: "ApiVersion"
  rt_abi_version :: "AbiVersion"
  rt_build_identity :: "string"
  rt_compiler_identity :: "string"
  rt_supported_protocols :: "ProtocolId list"
  rt_capabilities :: "CapabilityId list"
  rt_backends :: "BackendId list"
  rt_architecture :: "string"
  rt_device_constraint :: "string"
  rt_provenance :: "Provenance"
  rt_node :: "NodeId"
  rt_owner_worker :: "WorkerId"
  rt_owner_boot :: "WorkerBootId"

definition default_RuntimeDescriptor :: RuntimeDescriptor where
  "default_RuntimeDescriptor =
    \<lparr>rt_runtime_id = no_id, rt_runtime_instance = no_id, rt_generation = no_gen,
     rt_kind = RuntimeKind.UNKNOWN, rt_name = [], rt_family = [],
     rt_version = default_SemanticVersion, rt_api_version = default_version,
     rt_abi_version = default_version, rt_build_identity = [], rt_compiler_identity = [],
     rt_supported_protocols = [], rt_capabilities = [], rt_backends = [],
     rt_architecture = [], rt_device_constraint = [], rt_provenance = default_Provenance,
     rt_node = no_id, rt_owner_worker = no_id, rt_owner_boot = no_id\<rparr>"

record BackendDescriptor =
  bd_backend_id :: "BackendId"
  bd_kind :: "BackendKind"
  bd_generation :: "BackendGeneration"
  bd_runtime_binding :: "RuntimeInstanceId"
  bd_capabilities :: "CapabilityId list"
  bd_version :: "SemanticVersion"
  bd_health :: "Health"
  bd_readiness :: "Readiness"
  bd_freshness :: "Freshness"
  bd_provenance :: "Provenance"

definition default_BackendDescriptor :: BackendDescriptor where
  "default_BackendDescriptor =
    \<lparr>bd_backend_id = no_id, bd_kind = BackendKind.UNKNOWN, bd_generation = no_gen,
     bd_runtime_binding = no_id, bd_capabilities = [], bd_version = default_SemanticVersion,
     bd_health = Health.UNKNOWN, bd_readiness = Readiness.UNKNOWN,
     bd_freshness = Freshness.UNKNOWN, bd_provenance = default_Provenance\<rparr>"

record DeviceDescriptor =
  dd_device_id :: "DeviceId"
  dd_generation :: "DeviceGeneration"
  dd_name :: "string"
  dd_vendor :: "string"
  dd_architecture :: "string"
  dd_compute_capability :: "string"
  dd_total_memory :: "i64"
  dd_free_memory :: "i64"
  dd_backend_binding :: "string"
  dd_provenance :: "Provenance"
  dd_freshness :: "Freshness"
  dd_health :: "Health"

definition default_DeviceDescriptor :: DeviceDescriptor where
  "default_DeviceDescriptor =
    \<lparr>dd_device_id = no_id, dd_generation = no_gen, dd_name = [], dd_vendor = [],
     dd_architecture = [], dd_compute_capability = [], dd_total_memory = 0,
     dd_free_memory = 0, dd_backend_binding = [], dd_provenance = default_Provenance,
     dd_freshness = Freshness.UNKNOWN, dd_health = Health.UNKNOWN\<rparr>"

record ServiceDescriptor =
  svc_service_id :: "ServiceId"
  svc_kind :: "ServiceKind"
  svc_name :: "string"
  svc_generation :: "ServiceGeneration"
  svc_owner :: "OwnerId"
  svc_lifecycle :: "Lifecycle"
  svc_version :: "SemanticVersion"
  svc_api_version :: "ApiVersion"
  svc_abi_version :: "AbiVersion"
  svc_required_capabilities :: "CapabilityKind list"
  svc_optional_capabilities :: "CapabilityKind list"
  svc_protocol_requirements :: "ProtocolId list"
  svc_compatibility_ref :: "CompatibilityId"
  svc_policy_generation :: "PolicyGeneration"
  svc_provenance :: "Provenance"
  svc_semantic_digest :: "string"

definition default_ServiceDescriptor :: ServiceDescriptor where
  "default_ServiceDescriptor =
    \<lparr>svc_service_id = no_id, svc_kind = ServiceKind.UNKNOWN, svc_name = [],
     svc_generation = no_gen, svc_owner = no_id, svc_lifecycle = Lifecycle.REGISTERING,
     svc_version = default_SemanticVersion, svc_api_version = default_version,
     svc_abi_version = default_version, svc_required_capabilities = [],
     svc_optional_capabilities = [], svc_protocol_requirements = [],
     svc_compatibility_ref = no_id, svc_policy_generation = no_gen,
     svc_provenance = default_Provenance, svc_semantic_digest = []\<rparr>"

record ServiceInstance =
  si_instance_id :: "ServiceInstanceId"
  si_service_id :: "ServiceId"
  si_service_generation :: "ServiceGeneration"
  si_instance_generation :: "ServiceInstanceGeneration"
  si_node :: "NodeId"
  si_worker :: "WorkerId"
  si_boot :: "WorkerBootId"
  si_process :: "ProcessId"
  si_runtime_id :: "RuntimeId"
  si_runtime_instance :: "RuntimeInstanceId"
  si_endpoints :: "EndpointId list"
  si_protocols :: "ProtocolId list"
  si_capabilities :: "CapabilityId list"
  si_health :: "Health"
  si_readiness :: "Readiness"
  si_freshness :: "Freshness"
  si_reachability :: "Reachability"
  si_lease :: "LeaseId"
  si_lifecycle :: "Lifecycle"
  si_version :: "SemanticVersion"
  si_compatibility_ref :: "CompatibilityId"
  si_authority_generation :: "AuthorityGeneration"
  si_registered_ms :: "i64"
  si_updated_ms :: "i64"
  si_expires_ms :: "i64"
  si_provenance :: "Provenance"
  si_semantic_digest :: "string"

definition default_ServiceInstance :: ServiceInstance where
  "default_ServiceInstance =
    \<lparr>si_instance_id = no_id, si_service_id = no_id, si_service_generation = no_gen,
     si_instance_generation = no_gen, si_node = no_id, si_worker = no_id, si_boot = no_id,
     si_process = no_id, si_runtime_id = no_id, si_runtime_instance = no_id,
     si_endpoints = [], si_protocols = [], si_capabilities = [], si_health = Health.UNKNOWN,
     si_readiness = Readiness.UNKNOWN, si_freshness = Freshness.UNKNOWN,
     si_reachability = Reachability.UNKNOWN, si_lease = no_id,
     si_lifecycle = Lifecycle.REGISTERING, si_version = default_SemanticVersion,
     si_compatibility_ref = no_id, si_authority_generation = no_gen, si_registered_ms = 0,
     si_updated_ms = 0, si_expires_ms = 0, si_provenance = default_Provenance,
     si_semantic_digest = []\<rparr>"

record NodeDescriptor =
  nd_node_id :: "NodeId"
  nd_generation :: "NodeGeneration"
  nd_hostname :: "string"
  nd_runtimes :: "RuntimeInstanceId list"
  nd_service_instances :: "ServiceInstanceId list"
  nd_devices :: "DeviceId list"
  nd_backends :: "BackendId list"
  nd_health :: "Health"
  nd_readiness :: "Readiness"
  nd_freshness :: "Freshness"
  nd_reachability :: "Reachability"
  nd_provenance :: "Provenance"

definition default_NodeDescriptor :: NodeDescriptor where
  "default_NodeDescriptor =
    \<lparr>nd_node_id = no_id, nd_generation = no_gen, nd_hostname = [], nd_runtimes = [],
     nd_service_instances = [], nd_devices = [], nd_backends = [], nd_health = Health.UNKNOWN,
     nd_readiness = Readiness.UNKNOWN, nd_freshness = Freshness.UNKNOWN,
     nd_reachability = Reachability.UNKNOWN, nd_provenance = default_Provenance\<rparr>"

record LeaseDescriptor =
  ls_lease_id :: "LeaseId"
  ls_generation :: "LeaseGeneration"
  ls_service_instance :: "ServiceInstanceId"
  ls_boot :: "WorkerBootId"
  ls_issued_ms :: "i64"
  ls_renew_interval_ms :: "i64"
  ls_renewal_policy :: "LeaseRenewalPolicy"
  ls_state :: "LeaseState"
  ls_expires_ms :: "i64"
  ls_provenance :: "Provenance"
  ls_authority_generation :: "AuthorityGeneration"

definition default_LeaseDescriptor :: LeaseDescriptor where
  "default_LeaseDescriptor =
    \<lparr>ls_lease_id = no_id, ls_generation = no_gen, ls_service_instance = no_id,
     ls_boot = no_id, ls_issued_ms = 0, ls_renew_interval_ms = 0,
     ls_renewal_policy = LeaseRenewalPolicy.UNKNOWN, ls_state = LeaseState.UNKNOWN,
     ls_expires_ms = 0, ls_provenance = default_Provenance, ls_authority_generation = no_gen\<rparr>"

record InvalidationRecord =
  iv_target_kind :: "string"
  iv_target_text :: "string"
  iv_generation :: "RecordGeneration"
  iv_epoch :: "CoordinatorEpoch"
  iv_boot :: "WorkerBootId"
  iv_authority_generation :: "AuthorityGeneration"
  iv_reason :: "string"
  iv_timestamp_ms :: "i64"
  iv_provenance :: "Provenance"

definition default_InvalidationRecord :: InvalidationRecord where
  "default_InvalidationRecord =
    \<lparr>iv_target_kind = [], iv_target_text = [], iv_generation = no_gen, iv_epoch = no_gen,
     iv_boot = no_id, iv_authority_generation = no_gen, iv_reason = [], iv_timestamp_ms = 0,
     iv_provenance = default_Provenance\<rparr>"

record TombstoneRecord =
  tb_tombstone_id :: "TombstoneId"
  tb_target_kind :: "string"
  tb_target_text :: "string"
  tb_generation_floor :: "RecordGeneration"
  tb_epoch :: "CoordinatorEpoch"
  tb_boot :: "WorkerBootId"
  tb_authority_generation :: "AuthorityGeneration"
  tb_reason :: "string"
  tb_timestamp_ms :: "i64"
  tb_provenance :: "Provenance"

definition default_TombstoneRecord :: TombstoneRecord where
  "default_TombstoneRecord =
    \<lparr>tb_tombstone_id = no_id, tb_target_kind = [], tb_target_text = [],
     tb_generation_floor = no_gen, tb_epoch = no_gen, tb_boot = no_id,
     tb_authority_generation = no_gen, tb_reason = [], tb_timestamp_ms = 0,
     tb_provenance = default_Provenance\<rparr>"

record CompatibilityRecord =
  cr_compatibility_id :: "CompatibilityId"
  cr_generation :: "CompatibilityGeneration"
  cr_outcome :: "CompatibilityOutcome"
  cr_freshness :: "Freshness"
  cr_provenance :: "Provenance"

definition default_CompatibilityRecord :: CompatibilityRecord where
  "default_CompatibilityRecord =
    \<lparr>cr_compatibility_id = no_id, cr_generation = no_gen,
     cr_outcome = CompatibilityOutcome.UNKNOWN, cr_freshness = Freshness.UNKNOWN,
     cr_provenance = default_Provenance\<rparr>"

record ServiceDependency =
  sd_required_kind :: "ServiceKind"
  sd_required_service :: "ServiceId"
  sd_minimum_version :: "SemanticVersion"
  sd_required_capability :: "CapabilityKind"
  sd_required :: "bool"
  sd_generation :: "RecordGeneration"

definition default_ServiceDependency :: ServiceDependency where
  "default_ServiceDependency =
    \<lparr>sd_required_kind = ServiceKind.UNKNOWN, sd_required_service = no_id,
     sd_minimum_version = default_SemanticVersion,
     sd_required_capability = CapabilityKind.UNKNOWN, sd_required = True,
     sd_generation = no_gen\<rparr>"

record AuthorityEnvelope =
  env_epoch :: "CoordinatorEpoch"
  env_boot :: "WorkerBootId"
  env_registry_generation :: "RegistryGeneration"
  env_service_generation :: "ServiceGeneration"
  env_service_instance_generation :: "ServiceInstanceGeneration"
  env_runtime_generation :: "RuntimeGeneration"
  env_runtime_instance_generation :: "RuntimeInstanceGeneration"
  env_endpoint_generation :: "EndpointGeneration"
  env_protocol_generation :: "ProtocolGeneration"
  env_backend_generation :: "BackendGeneration"
  env_device_generation :: "DeviceGeneration"
  env_capability_generation :: "CapabilityGeneration"
  env_lease_generation :: "LeaseGeneration"
  env_observation_generation :: "ObservationGeneration"
  env_attempt_generation :: "AttemptGeneration"
  env_dispatch_generation :: "DispatchGeneration"
  env_record_generation :: "RecordGeneration"

definition default_AuthorityEnvelope :: AuthorityEnvelope where
  "default_AuthorityEnvelope =
    \<lparr>env_epoch = no_gen, env_boot = no_id, env_registry_generation = no_gen,
     env_service_generation = no_gen, env_service_instance_generation = no_gen,
     env_runtime_generation = no_gen, env_runtime_instance_generation = no_gen,
     env_endpoint_generation = no_gen, env_protocol_generation = no_gen,
     env_backend_generation = no_gen, env_device_generation = no_gen,
     env_capability_generation = no_gen, env_lease_generation = no_gen,
     env_observation_generation = no_gen, env_attempt_generation = no_gen,
     env_dispatch_generation = no_gen, env_record_generation = no_gen\<rparr>"

section \<open>Equality of descriptors that hold a semantic version\<close>

definition rt_eq :: "RuntimeDescriptor \<Rightarrow> RuntimeDescriptor \<Rightarrow> bool" where
  "rt_eq a b \<longleftrightarrow> semver_eq (rt_version a) (rt_version b) \<and> a\<lparr>rt_version := rt_version b\<rparr> = b"

definition bd_eq :: "BackendDescriptor \<Rightarrow> BackendDescriptor \<Rightarrow> bool" where
  "bd_eq a b \<longleftrightarrow> semver_eq (bd_version a) (bd_version b) \<and> a\<lparr>bd_version := bd_version b\<rparr> = b"

definition svc_eq :: "ServiceDescriptor \<Rightarrow> ServiceDescriptor \<Rightarrow> bool" where
  "svc_eq a b \<longleftrightarrow> semver_eq (svc_version a) (svc_version b) \<and> a\<lparr>svc_version := svc_version b\<rparr> = b"

definition si_eq :: "ServiceInstance \<Rightarrow> ServiceInstance \<Rightarrow> bool" where
  "si_eq a b \<longleftrightarrow> semver_eq (si_version a) (si_version b) \<and> a\<lparr>si_version := si_version b\<rparr> = b"

lemma ver_eq_iff: "ver_eq a b \<longleftrightarrow> a = b"
  by (cases a; cases b) (auto simp: ver_eq_def ver_compare_def)

lemma semver_eq_refl [simp]: "semver_eq v v"
  by (simp add: semver_eq_def)

lemma rt_eq_refl [simp]: "rt_eq a a"
  by (simp add: rt_eq_def)

lemma bd_eq_refl [simp]: "bd_eq a a"
  by (simp add: bd_eq_def)

lemma svc_eq_refl [simp]: "svc_eq a a"
  by (simp add: svc_eq_def)

lemma si_eq_refl [simp]: "si_eq a a"
  by (simp add: si_eq_def)

end
