(* ===== verification/RR_State.thy ===== *)
theory RR_State
  imports RR_Model
begin

text \<open>
  The state of a registry: errors (\<^verbatim>\<open>error.hpp\<close>), the authority state
  (\<^verbatim>\<open>authority.hpp\<close>), the accounting counters
  (\<^verbatim>\<open>accounting.hpp\<close>) and the members of the class
  \<^verbatim>\<open>Registry\<close> (\<^verbatim>\<open>registry.hpp\<close>), with the private helpers that
  every operation uses: construction, envelope validation, the generation commit, tombstone
  coverage and index rebuilding.

  The recursive mutex serialises the public operations, so an operation is one atomic step.
  Accounting counters are \<^verbatim>\<open>std::int64_t\<close>; they only move by one per call and are
  modelled by unbounded integers.
\<close>

section \<open>Errors\<close>

datatype ErrorKind =
  STALE_EPOCH | STALE_BOOT | STALE_REGISTRY_GENERATION | STALE_SERVICE_GENERATION
  | STALE_INSTANCE_GENERATION | STALE_RUNTIME_GENERATION | STALE_ENDPOINT_GENERATION
  | STALE_CAPABILITY_GENERATION | STALE_LEASE_GENERATION | STALE_HEALTH | STALE_READINESS
  | STALE_REACHABILITY | STALE_INVALIDATION | STALE_TOMBSTONE | STALE_ATTEMPT | STALE_DISPATCH
  | DUPLICATE_CONFLICT | STALE_RENEWAL | TOMBSTONE_RESURRECTION | UNKNOWN_IDENTITY
  | NOT_CURRENT | UNREADY_ONLY | MALFORMED | INSUFFICIENT_EVIDENCE | INCOMPATIBLE
  | RESOURCE_BOUND | INTERNAL

datatype RegistryError = RegistryError (err_kind: ErrorKind) (err_what: string)

section \<open>Authority state\<close>

record RegistryAuthority =
  ra_epoch :: CoordinatorEpoch
  ra_registry_generation :: RegistryGeneration
  ra_record_generation :: RecordGeneration
  ra_current_boot :: "(WorkerId, WorkerBootId) hmap"
  ra_live_boots :: "WorkerBootId hset"
  ra_boot_worker :: "(WorkerBootId, WorkerId) hmap"
  ra_service_gen :: ServiceGeneration
  ra_instance_gen :: ServiceInstanceGeneration
  ra_runtime_gen :: RuntimeGeneration
  ra_runtime_instance_gen :: RuntimeInstanceGeneration
  ra_endpoint_gen :: EndpointGeneration
  ra_protocol_gen :: ProtocolGeneration
  ra_backend_gen :: BackendGeneration
  ra_device_gen :: DeviceGeneration
  ra_capability_gen :: CapabilityGeneration
  ra_lease_gen :: LeaseGeneration
  ra_node_gen :: NodeGeneration
  ra_compat_gen :: CompatibilityGeneration
  ra_trust_gen :: TrustGeneration
  ra_authority_gen :: AuthorityGeneration

definition default_RegistryAuthority :: RegistryAuthority where
  "default_RegistryAuthority =
    \<lparr>ra_epoch = no_gen, ra_registry_generation = no_gen, ra_record_generation = no_gen,
     ra_current_boot = [], ra_live_boots = [], ra_boot_worker = [], ra_service_gen = no_gen,
     ra_instance_gen = no_gen, ra_runtime_gen = no_gen, ra_runtime_instance_gen = no_gen,
     ra_endpoint_gen = no_gen, ra_protocol_gen = no_gen, ra_backend_gen = no_gen,
     ra_device_gen = no_gen, ra_capability_gen = no_gen, ra_lease_gen = no_gen,
     ra_node_gen = no_gen, ra_compat_gen = no_gen, ra_trust_gen = no_gen,
     ra_authority_gen = no_gen\<rparr>"

definition is_boot_live :: "RegistryAuthority \<Rightarrow> WorkerBootId \<Rightarrow> bool" where
  "is_boot_live a boot \<longleftrightarrow> boot \<in> set (ra_live_boots a)"

definition boot_owner :: "RegistryAuthority \<Rightarrow> WorkerBootId \<Rightarrow> WorkerId" where
  "boot_owner a boot = (case hm_find (ra_boot_worker a) boot of None \<Rightarrow> no_id | Some w \<Rightarrow> w)"

section \<open>Accounting\<close>

record Accounting =
  ac_services :: int
  ac_service_instances :: int
  ac_runtimes :: int
  ac_runtime_instances :: int
  ac_nodes :: int
  ac_endpoints :: int
  ac_protocols :: int
  ac_backends :: int
  ac_devices :: int
  ac_capabilities :: int
  ac_leases :: int
  ac_available_instances :: int
  ac_degraded_instances :: int
  ac_stale_instances :: int
  ac_unreachable_instances :: int
  ac_active_leases :: int
  ac_expired_leases :: int
  ac_registrations :: int
  ac_deregistrations :: int
  ac_supersessions :: int
  ac_invalidations :: int
  ac_tombstones :: int
  ac_queries :: int
  ac_exact_hits :: int
  ac_compatible_hits :: int
  ac_misses :: int
  ac_stale_only :: int
  ac_unready_only :: int
  ac_incompatible :: int
  ac_stale_mutation_rejections :: int
  ac_duplicate_conflict_rejections :: int
  ac_worker_restarts :: int

definition default_Accounting :: Accounting where
  "default_Accounting =
    \<lparr>ac_services = 0, ac_service_instances = 0, ac_runtimes = 0, ac_runtime_instances = 0,
     ac_nodes = 0, ac_endpoints = 0, ac_protocols = 0, ac_backends = 0, ac_devices = 0,
     ac_capabilities = 0, ac_leases = 0, ac_available_instances = 0,
     ac_degraded_instances = 0, ac_stale_instances = 0, ac_unreachable_instances = 0,
     ac_active_leases = 0, ac_expired_leases = 0, ac_registrations = 0,
     ac_deregistrations = 0, ac_supersessions = 0, ac_invalidations = 0, ac_tombstones = 0,
     ac_queries = 0, ac_exact_hits = 0, ac_compatible_hits = 0, ac_misses = 0,
     ac_stale_only = 0, ac_unready_only = 0, ac_incompatible = 0,
     ac_stale_mutation_rejections = 0, ac_duplicate_conflict_rejections = 0,
     ac_worker_restarts = 0\<rparr>"

text \<open>\<^verbatim>\<open>if (counter > 0) --counter\<close>.\<close>

definition dec_pos :: "int \<Rightarrow> int" where
  "dec_pos n = (if n > 0 then n - 1 else n)"

section \<open>The registry\<close>

record RegistryOptions =
  ro_retain_history :: bool
  ro_max_history_per_identity :: u64
  ro_require_physical_probe_for_tcp :: bool

definition default_RegistryOptions :: RegistryOptions where
  "default_RegistryOptions =
    \<lparr>ro_retain_history = True, ro_max_history_per_identity = 64,
     ro_require_physical_probe_for_tcp = False\<rparr>"

record AuthorityVerdict =
  av_accept :: bool
  av_kind :: ErrorKind
  av_reason :: string

record Registry =
  r_options :: RegistryOptions
  r_authority :: RegistryAuthority
  r_accounting :: Accounting
  r_services :: "(ServiceId, ServiceDescriptor) hmap"
  r_instances :: "(ServiceInstanceId, ServiceInstance) hmap"
  r_runtimes :: "(RuntimeId, RuntimeDescriptor) hmap"
  r_runtime_instances :: "(RuntimeInstanceId, RuntimeDescriptor) hmap"
  r_endpoints :: "(EndpointId, EndpointDescriptor) hmap"
  r_protocols :: "(ProtocolId, ProtocolDescriptor) hmap"
  r_backends :: "(BackendId, BackendDescriptor) hmap"
  r_devices :: "(DeviceId, DeviceDescriptor) hmap"
  r_capabilities :: "(CapabilityId, CapabilityDescriptor) hmap"
  r_nodes :: "(NodeId, NodeDescriptor) hmap"
  r_leases :: "(LeaseId, LeaseDescriptor) hmap"
  r_tombstones :: "(TombstoneId, TombstoneRecord) hmap"
  r_compat_records :: "(CompatibilityId, CompatibilityRecord) hmap"
  r_invalidations :: "InvalidationRecord list"
  r_instance_history :: "ServiceInstance list"
  r_runtime_history :: "RuntimeDescriptor list"
  r_endpoint_history :: "EndpointDescriptor list"
  r_capability_history :: "CapabilityDescriptor list"
  r_index_by_kind :: "(ServiceKind, ServiceId hset) hmap"
  r_index_by_service :: "(ServiceId, ServiceInstanceId hset) hmap"
  r_index_by_boot :: "(WorkerBootId, ServiceInstanceId hset) hmap"
  r_index_by_node :: "(NodeId, ServiceInstanceId hset) hmap"
  r_next_boot :: u64
  r_next_id :: u64

type_synonym 'a operation = "Registry \<Rightarrow> (RegistryError, 'a) outcome \<times> Registry"

definition throw :: "ErrorKind \<Rightarrow> string \<Rightarrow> 'a operation" where
  "throw k msg r = (Throw (RegistryError k msg), r)"

text \<open>\<open>count f\<close> is \<^verbatim>\<open>++accounting_.f\<close>.\<close>

definition count :: "((int \<Rightarrow> int) \<Rightarrow> Accounting \<Rightarrow> Accounting) \<Rightarrow> Registry \<Rightarrow> Registry" where
  "count f r = r\<lparr>r_accounting := f (\<lambda>n. n + 1) (r_accounting r)\<rparr>"

text \<open>\<open>uncount f\<close> is \<^verbatim>\<open>if (accounting_.f > 0) --accounting_.f\<close>.\<close>

definition uncount :: "((int \<Rightarrow> int) \<Rightarrow> Accounting \<Rightarrow> Accounting) \<Rightarrow> Registry \<Rightarrow> Registry" where
  "uncount f r = r\<lparr>r_accounting := f dec_pos (r_accounting r)\<rparr>"

text \<open>\<^verbatim>\<open>next_id_++\<close>: the value before the increment, which wraps around.\<close>

definition take_next_id :: "Registry \<Rightarrow> 'tag Id \<times> Registry" where
  "take_next_id r = (MkId (r_next_id r), r\<lparr>r_next_id := r_next_id r + 1\<rparr>)"

definition commit_registry_generation :: "Registry \<Rightarrow> Registry" where
  "commit_registry_generation r = r\<lparr>r_authority := (r_authority r)
    \<lparr>ra_registry_generation := MkGen (gen_value (ra_registry_generation (r_authority r)) + 1),
     ra_record_generation := MkGen (gen_value (ra_record_generation (r_authority r)) + 1),
     ra_authority_gen := MkGen (gen_value (ra_authority_gen (r_authority r)) + 1)\<rparr>\<rparr>"

definition validate_envelope :: "Registry \<Rightarrow> AuthorityEnvelope \<Rightarrow> AuthorityVerdict" where
  "validate_envelope r env =
    (if env_epoch env \<noteq> ra_epoch (r_authority r) then
       \<lparr>av_accept = False, av_kind = STALE_EPOCH,
        av_reason = ''epoch '' @ show_u64 (gen_value (env_epoch env))
          @ '' is stale; current epoch '' @ show_u64 (gen_value (ra_epoch (r_authority r)))\<rparr>
     else if \<not> is_boot_live (r_authority r) (env_boot env) then
       \<lparr>av_accept = False, av_kind = STALE_BOOT,
        av_reason = ''boot '' @ show_u64 (id_value (env_boot env)) @ '' is not a live incarnation''\<rparr>
     else \<lparr>av_accept = True, av_kind = INTERNAL, av_reason = []\<rparr>)"

text \<open>
  The first lines of every mutating operation: validate the envelope and throw the verdict before
  anything is written.
\<close>

definition with_authority :: "AuthorityEnvelope \<Rightarrow> 'a operation \<Rightarrow> 'a operation" where
  "with_authority env body r =
    (let v = validate_envelope r env
     in if \<not> av_accept v then throw (av_kind v) (av_reason v) r else body r)"

definition covered_by_tombstone :: "Registry \<Rightarrow> string \<Rightarrow> string \<Rightarrow> u64 \<Rightarrow> bool" where
  "covered_by_tombstone r target_kind target_text gen_floor \<longleftrightarrow>
    list_ex (\<lambda>(_, tomb). tb_target_kind tomb = target_kind \<and> tb_target_text tomb = target_text
      \<and> gen_floor \<le> gen_value (tb_generation_floor tomb)) (r_tombstones r)"

text \<open>\<^verbatim>\<open>rebuild_indexes\<close>: one pass over the canonical instances.\<close>

definition index_step ::
  "(ServiceId, ServiceDescriptor) hmap \<Rightarrow> ServiceInstance \<Rightarrow>
    (ServiceKind, ServiceId hset) hmap \<times> (ServiceId, ServiceInstanceId hset) hmap
      \<times> (WorkerBootId, ServiceInstanceId hset) hmap \<times> (NodeId, ServiceInstanceId hset) hmap \<Rightarrow>
    (ServiceKind, ServiceId hset) hmap \<times> (ServiceId, ServiceInstanceId hset) hmap
      \<times> (WorkerBootId, ServiceInstanceId hset) hmap \<times> (NodeId, ServiceInstanceId hset) hmap"
where
  "index_step svcs inst ix =
    (case ix of (kind_ix, service_ix, boot_ix, node_ix) \<Rightarrow>
      ((case hm_find svcs (si_service_id inst) of
          None \<Rightarrow> kind_ix
        | Some svc \<Rightarrow> index_insert (svc_kind svc) (si_service_id inst) kind_ix),
       index_insert (si_service_id inst) (si_instance_id inst) service_ix,
       index_insert (si_boot inst) (si_instance_id inst) boot_ix,
       index_insert (si_node inst) (si_instance_id inst) node_ix))"

definition rebuild_indexes :: "Registry \<Rightarrow> Registry" where
  "rebuild_indexes r =
    (let (kind_ix, service_ix, boot_ix, node_ix) =
       foldl (\<lambda>ix (_, inst). index_step (r_services r) inst ix) ([], [], [], []) (r_instances r)
     in r\<lparr>r_index_by_kind := kind_ix, r_index_by_service := service_ix,
          r_index_by_boot := boot_ix, r_index_by_node := node_ix\<rparr>)"

text \<open>The constructor.\<close>

definition new_registry :: "RegistryOptions \<Rightarrow> Registry" where
  "new_registry opts = rebuild_indexes
    \<lparr>r_options = opts,
     r_authority = default_RegistryAuthority\<lparr>ra_epoch := MkGen 1, ra_registry_generation := MkGen 1, ra_record_generation := MkGen 1\<rparr>,
     r_accounting = default_Accounting, r_services = [], r_instances = [], r_runtimes = [],
     r_runtime_instances = [], r_endpoints = [], r_protocols = [], r_backends = [],
     r_devices = [], r_capabilities = [], r_nodes = [], r_leases = [], r_tombstones = [],
     r_compat_records = [], r_invalidations = [], r_instance_history = [],
     r_runtime_history = [], r_endpoint_history = [], r_capability_history = [],
     r_index_by_kind = [], r_index_by_service = [], r_index_by_boot = [],
     r_index_by_node = [], r_next_boot = 100, r_next_id = 1\<rparr>"

section \<open>Evaluation of the helpers\<close>

text \<open>
  What the helpers do to each member. The generic operations only ever read and write the registry
  through these equations.
\<close>

lemma throw_simps [simp]:
  "fst (throw k msg r) = Throw (RegistryError k msg)" "snd (throw k msg r) = r"
  by (simp_all add: throw_def)

lemma with_authority_accept:
  "av_accept (validate_envelope r env) \<Longrightarrow> with_authority env body r = body r"
  by (simp add: with_authority_def)

lemma with_authority_reject:
  "\<not> av_accept (validate_envelope r env) \<Longrightarrow>
    with_authority env body r =
      (Throw (RegistryError (av_kind (validate_envelope r env)) (av_reason (validate_envelope r env))), r)"
  by (simp add: with_authority_def throw_def Let_def)

lemma accept_iff:
  "av_accept (validate_envelope r env) \<longleftrightarrow>
    env_epoch env = ra_epoch (r_authority r) \<and> is_boot_live (r_authority r) (env_boot env)"
  by (simp add: validate_envelope_def)

lemma with_authority_returns:
  "with_authority env body r = (Return x, r') \<Longrightarrow>
    env_epoch env = ra_epoch (r_authority r) \<and> is_boot_live (r_authority r) (env_boot env)
    \<and> body r = (Return x, r')"
  by (auto simp: with_authority_def throw_def Let_def accept_iff [symmetric] split: if_splits)

lemma take_next_id_simps [simp]:
  "fst (take_next_id r) = MkId (r_next_id r)"
  "snd (take_next_id r) = r\<lparr>r_next_id := r_next_id r + 1\<rparr>"
  by (simp_all add: take_next_id_def)

lemma count_simps [simp]:
  "r_options (count f r) = r_options r" "r_authority (count f r) = r_authority r"
  "r_accounting (count f r) = f (\<lambda>n. n + 1) (r_accounting r)"
  "r_services (count f r) = r_services r" "r_instances (count f r) = r_instances r"
  "r_runtimes (count f r) = r_runtimes r"
  "r_runtime_instances (count f r) = r_runtime_instances r"
  "r_endpoints (count f r) = r_endpoints r" "r_protocols (count f r) = r_protocols r"
  "r_backends (count f r) = r_backends r" "r_devices (count f r) = r_devices r"
  "r_capabilities (count f r) = r_capabilities r" "r_nodes (count f r) = r_nodes r"
  "r_leases (count f r) = r_leases r" "r_tombstones (count f r) = r_tombstones r"
  "r_compat_records (count f r) = r_compat_records r"
  "r_invalidations (count f r) = r_invalidations r"
  "r_instance_history (count f r) = r_instance_history r"
  "r_index_by_kind (count f r) = r_index_by_kind r"
  "r_index_by_service (count f r) = r_index_by_service r"
  "r_index_by_boot (count f r) = r_index_by_boot r"
  "r_index_by_node (count f r) = r_index_by_node r"
  "r_next_boot (count f r) = r_next_boot r" "r_next_id (count f r) = r_next_id r"
  by (simp_all add: count_def)

lemma uncount_simps [simp]:
  "r_options (uncount f r) = r_options r" "r_authority (uncount f r) = r_authority r"
  "r_accounting (uncount f r) = f dec_pos (r_accounting r)"
  "r_services (uncount f r) = r_services r" "r_instances (uncount f r) = r_instances r"
  "r_runtimes (uncount f r) = r_runtimes r"
  "r_runtime_instances (uncount f r) = r_runtime_instances r"
  "r_endpoints (uncount f r) = r_endpoints r" "r_protocols (uncount f r) = r_protocols r"
  "r_backends (uncount f r) = r_backends r" "r_devices (uncount f r) = r_devices r"
  "r_capabilities (uncount f r) = r_capabilities r" "r_nodes (uncount f r) = r_nodes r"
  "r_leases (uncount f r) = r_leases r" "r_tombstones (uncount f r) = r_tombstones r"
  "r_compat_records (uncount f r) = r_compat_records r"
  "r_invalidations (uncount f r) = r_invalidations r"
  "r_instance_history (uncount f r) = r_instance_history r"
  "r_index_by_kind (uncount f r) = r_index_by_kind r"
  "r_index_by_service (uncount f r) = r_index_by_service r"
  "r_index_by_boot (uncount f r) = r_index_by_boot r"
  "r_index_by_node (uncount f r) = r_index_by_node r"
  "r_next_boot (uncount f r) = r_next_boot r" "r_next_id (uncount f r) = r_next_id r"
  by (simp_all add: uncount_def)

lemma commit_simps [simp]:
  "r_accounting (commit_registry_generation r) = r_accounting r"
  "r_services (commit_registry_generation r) = r_services r"
  "r_instances (commit_registry_generation r) = r_instances r"
  "r_runtimes (commit_registry_generation r) = r_runtimes r"
  "r_runtime_instances (commit_registry_generation r) = r_runtime_instances r"
  "r_endpoints (commit_registry_generation r) = r_endpoints r"
  "r_protocols (commit_registry_generation r) = r_protocols r"
  "r_backends (commit_registry_generation r) = r_backends r"
  "r_devices (commit_registry_generation r) = r_devices r"
  "r_capabilities (commit_registry_generation r) = r_capabilities r"
  "r_nodes (commit_registry_generation r) = r_nodes r"
  "r_leases (commit_registry_generation r) = r_leases r"
  "r_tombstones (commit_registry_generation r) = r_tombstones r"
  "r_index_by_kind (commit_registry_generation r) = r_index_by_kind r"
  "r_index_by_service (commit_registry_generation r) = r_index_by_service r"
  "r_index_by_boot (commit_registry_generation r) = r_index_by_boot r"
  "r_index_by_node (commit_registry_generation r) = r_index_by_node r"
  "r_next_boot (commit_registry_generation r) = r_next_boot r"
  "r_next_id (commit_registry_generation r) = r_next_id r"
  "ra_epoch (r_authority (commit_registry_generation r)) = ra_epoch (r_authority r)"
  "ra_live_boots (r_authority (commit_registry_generation r)) = ra_live_boots (r_authority r)"
  "ra_current_boot (r_authority (commit_registry_generation r)) = ra_current_boot (r_authority r)"
  "ra_boot_worker (r_authority (commit_registry_generation r)) = ra_boot_worker (r_authority r)"
  by (simp_all add: commit_registry_generation_def)

lemma rebuild_simps [simp]:
  "r_authority (rebuild_indexes r) = r_authority r"
  "r_accounting (rebuild_indexes r) = r_accounting r"
  "r_services (rebuild_indexes r) = r_services r"
  "r_instances (rebuild_indexes r) = r_instances r"
  "r_runtimes (rebuild_indexes r) = r_runtimes r"
  "r_runtime_instances (rebuild_indexes r) = r_runtime_instances r"
  "r_endpoints (rebuild_indexes r) = r_endpoints r"
  "r_protocols (rebuild_indexes r) = r_protocols r"
  "r_backends (rebuild_indexes r) = r_backends r"
  "r_devices (rebuild_indexes r) = r_devices r"
  "r_capabilities (rebuild_indexes r) = r_capabilities r"
  "r_nodes (rebuild_indexes r) = r_nodes r"
  "r_leases (rebuild_indexes r) = r_leases r"
  "r_tombstones (rebuild_indexes r) = r_tombstones r"
  "r_next_boot (rebuild_indexes r) = r_next_boot r"
  "r_next_id (rebuild_indexes r) = r_next_id r"
  by (simp_all add: rebuild_indexes_def split: prod.splits)

lemma is_boot_live_commit [simp]:
  "is_boot_live (r_authority (commit_registry_generation r)) b = is_boot_live (r_authority r) b"
  by (simp add: is_boot_live_def)

lemma dec_pos_nonneg: "0 \<le> n \<Longrightarrow> 0 \<le> dec_pos n"
  by (simp add: dec_pos_def)

section \<open>The incarnation view\<close>

text \<open>
  What envelope validation and the incarnation invariants depend on: the epoch, the live boots with
  the maps between boots and workers, and the boot counter.
\<close>

definition auth_core ::
  "Registry \<Rightarrow> CoordinatorEpoch \<times> WorkerBootId hset \<times> (WorkerId, WorkerBootId) hmap
     \<times> (WorkerBootId, WorkerId) hmap \<times> u64" where
  "auth_core r =
    (ra_epoch (r_authority r), ra_live_boots (r_authority r), ra_current_boot (r_authority r),
     ra_boot_worker (r_authority r), r_next_boot r)"

lemma validate_envelope_cong:
  "auth_core r = auth_core r' \<Longrightarrow> validate_envelope r env = validate_envelope r' env"
  by (simp add: auth_core_def validate_envelope_def is_boot_live_def)

lemma auth_core_live:
  "auth_core r = auth_core r' \<Longrightarrow>
    is_boot_live (r_authority r) b = is_boot_live (r_authority r') b"
  by (simp add: auth_core_def is_boot_live_def)

lemma auth_core_simps [simp]:
  "auth_core (count f r) = auth_core r"
  "auth_core (uncount f r) = auth_core r"
  "auth_core (commit_registry_generation r) = auth_core r"
  "auth_core (rebuild_indexes r) = auth_core r"
  "auth_core (r\<lparr>r_services := a1\<rparr>) = auth_core r"
  "auth_core (r\<lparr>r_instances := a2\<rparr>) = auth_core r"
  "auth_core (r\<lparr>r_runtimes := a3\<rparr>) = auth_core r"
  "auth_core (r\<lparr>r_runtime_instances := a4\<rparr>) = auth_core r"
  "auth_core (r\<lparr>r_endpoints := a5\<rparr>) = auth_core r"
  "auth_core (r\<lparr>r_protocols := a6\<rparr>) = auth_core r"
  "auth_core (r\<lparr>r_backends := a7\<rparr>) = auth_core r"
  "auth_core (r\<lparr>r_devices := a8\<rparr>) = auth_core r"
  "auth_core (r\<lparr>r_capabilities := a9\<rparr>) = auth_core r"
  "auth_core (r\<lparr>r_nodes := a10\<rparr>) = auth_core r"
  "auth_core (r\<lparr>r_leases := a11\<rparr>) = auth_core r"
  "auth_core (r\<lparr>r_tombstones := a12\<rparr>) = auth_core r"
  "auth_core (r\<lparr>r_invalidations := a13\<rparr>) = auth_core r"
  "auth_core (r\<lparr>r_instance_history := a14\<rparr>) = auth_core r"
  "auth_core (r\<lparr>r_runtime_history := a15\<rparr>) = auth_core r"
  "auth_core (r\<lparr>r_endpoint_history := a16\<rparr>) = auth_core r"
  "auth_core (r\<lparr>r_capability_history := a17\<rparr>) = auth_core r"
  "auth_core (r\<lparr>r_next_id := a18\<rparr>) = auth_core r"
  by (simp_all add: auth_core_def)

end
