(* ===== verification/RR_Registration.thy ===== *)
theory RR_Registration
  imports RR_State
begin

text \<open>
  Registration of versioned records (\<^verbatim>\<open>registry.cpp\<close>): services, runtimes,
  protocols, endpoints, capabilities, backends, devices and nodes. All eight operations follow one
  protocol, stated once as the locale \<open>versioned_registration\<close>: a known record is replaced only
  by a strictly newer generation, an identical one is confirmed without effect, and anything else
  is rejected with the stored records unchanged.

  The lemmas interpret the locale on each operation, which yields the generation monotonicity of
  every store.
\<close>

section \<open>Operations\<close>

text \<open>\<^verbatim>\<open>if (authority_.x_gen < g) authority_.x_gen = g\<close>.\<close>

definition raise_gen :: "'tag Gen \<Rightarrow> 'tag Gen \<Rightarrow> 'tag Gen" where
  "raise_gen cur new = (if cur < new then new else cur)"

definition register_service :: "ServiceDescriptor \<Rightarrow> AuthorityEnvelope \<Rightarrow> unit operation" where
  "register_service svc env = with_authority env (\<lambda>r.
    let finish = (\<lambda>r. (Return (), rebuild_indexes (commit_registry_generation
          (r\<lparr>r_authority := (r_authority r)
             \<lparr>ra_service_gen := raise_gen (ra_service_gen (r_authority r)) (svc_generation svc)\<rparr>\<rparr>))))
    in case hm_find (r_services r) (svc_service_id svc) of
      Some cur \<Rightarrow>
        if svc_generation svc = svc_generation cur \<and> svc_eq svc cur then (Return (), r)
        else if svc_generation svc \<le> svc_generation cur then
          throw STALE_SERVICE_GENERATION
            (''registration rejected because ServiceGeneration ''
              @ show_u64 (gen_value (svc_generation svc)) @ '' is stale; current ''
              @ show_u64 (gen_value (svc_generation cur)))
            (count ac_duplicate_conflict_rejections_update r)
        else finish (r\<lparr>r_services := hm_put (svc_service_id svc) svc (r_services r)\<rparr>)
    | None \<Rightarrow>
        if covered_by_tombstone r ''ServiceId'' (render_typed_id (svc_service_id svc))
             (gen_value (svc_generation svc)) then
          throw TOMBSTONE_RESURRECTION
            ''registration rejected because ServiceId is covered by a tombstone''
            (count ac_stale_mutation_rejections_update r)
        else finish (count ac_services_update
          (r\<lparr>r_services := hm_put (svc_service_id svc) svc (r_services r)\<rparr>)))"

definition register_runtime ::
  "RuntimeDescriptor \<Rightarrow> AuthorityEnvelope \<Rightarrow> RuntimeInstanceId operation" where
  "register_runtime rt env = with_authority env (\<lambda>r.
    let finish = (\<lambda>copy r. (Return (rt_runtime_instance copy), commit_registry_generation
          (r\<lparr>r_authority := (r_authority r)
             \<lparr>ra_runtime_gen := raise_gen (ra_runtime_gen (r_authority r)) (rt_generation copy)\<rparr>\<rparr>)))
    in case hm_find (r_runtime_instances r) (rt_runtime_instance rt) of
      Some cur \<Rightarrow>
        if rt_generation rt = rt_generation cur \<and> rt_eq rt cur then
          (Return (rt_runtime_instance rt), r)
        else if rt_generation rt \<le> rt_generation cur then
          throw STALE_RUNTIME_GENERATION
            (''stale RuntimeGeneration '' @ show_u64 (gen_value (rt_generation rt)))
            (count ac_duplicate_conflict_rejections_update r)
        else finish rt (r\<lparr>r_runtime_instances :=
          hm_put (rt_runtime_instance rt) rt (r_runtime_instances r)\<rparr>)
    | None \<Rightarrow>
        if covered_by_tombstone r ''RuntimeInstanceId'' (render_typed_id (rt_runtime_instance rt))
             (gen_value (rt_generation rt)) then
          throw TOMBSTONE_RESURRECTION ''runtime instance resurrected by tombstone''
            (count ac_stale_mutation_rejections_update r)
        else
          let (copy, r1) =
            (if id_value (rt_runtime_instance rt) = 0 then
               let (i, r') = take_next_id r in (rt\<lparr>rt_runtime_instance := i\<rparr>, r')
             else (rt, r));
            r2 = r1\<lparr>r_runtimes := hm_put (rt_runtime_id rt) copy (r_runtimes r1),
                    r_runtime_instances :=
                      hm_put (rt_runtime_instance copy) copy (r_runtime_instances r1),
                    r_runtime_history := r_runtime_history r1 @ [copy]\<rparr>
          in finish copy (count ac_runtime_instances_update (count ac_runtimes_update r2)))"

definition register_protocol :: "ProtocolDescriptor \<Rightarrow> AuthorityEnvelope \<Rightarrow> unit operation" where
  "register_protocol pd env = with_authority env (\<lambda>r.
    let finish = (\<lambda>r. (Return (), commit_registry_generation
          (r\<lparr>r_authority := (r_authority r)
             \<lparr>ra_protocol_gen := raise_gen (ra_protocol_gen (r_authority r)) (pd_generation pd)\<rparr>\<rparr>)))
    in case hm_find (r_protocols r) (pd_protocol_id pd) of
      Some cur \<Rightarrow>
        if pd_generation pd = pd_generation cur \<and> pd = cur then (Return (), r)
        else if pd_generation pd \<le> pd_generation cur then
          throw DUPLICATE_CONFLICT ''stale or duplicate ProtocolId registration''
            (count ac_duplicate_conflict_rejections_update r)
        else finish (r\<lparr>r_protocols := hm_put (pd_protocol_id pd) pd (r_protocols r)\<rparr>)
    | None \<Rightarrow>
        finish (count ac_protocols_update
          (r\<lparr>r_protocols := hm_put (pd_protocol_id pd) pd (r_protocols r)\<rparr>)))"

definition register_endpoint :: "EndpointDescriptor \<Rightarrow> AuthorityEnvelope \<Rightarrow> EndpointId operation" where
  "register_endpoint ep env = with_authority env (\<lambda>r.
    let finish = (\<lambda>copy r. (Return (ep_endpoint_id copy), commit_registry_generation
          (r\<lparr>r_authority := (r_authority r)
             \<lparr>ra_endpoint_gen := raise_gen (ra_endpoint_gen (r_authority r)) (ep_generation copy)\<rparr>\<rparr>)))
    in case hm_find (r_endpoints r) (ep_endpoint_id ep) of
      Some cur \<Rightarrow>
        if ep_generation ep = ep_generation cur \<and> ep = cur then (Return (ep_endpoint_id ep), r)
        else if ep_generation ep \<le> ep_generation cur then
          throw STALE_ENDPOINT_GENERATION
            (''stale EndpointGeneration '' @ show_u64 (gen_value (ep_generation ep)))
            (count ac_duplicate_conflict_rejections_update r)
        else finish ep (count ac_supersessions_update
          (r\<lparr>r_endpoint_history := r_endpoint_history r @ [cur],
             r_endpoints := hm_put (ep_endpoint_id ep) ep (r_endpoints r)\<rparr>))
    | None \<Rightarrow>
        if covered_by_tombstone r ''EndpointId'' (render_typed_id (ep_endpoint_id ep))
             (gen_value (ep_generation ep)) then
          throw TOMBSTONE_RESURRECTION ''endpoint resurrected by tombstone''
            (count ac_stale_mutation_rejections_update r)
        else
          let (copy, r1) =
            (if id_value (ep_endpoint_id ep) = 0 then
               let (i, r') = take_next_id r in (ep\<lparr>ep_endpoint_id := i\<rparr>, r')
             else (ep, r));
            r2 = r1\<lparr>r_endpoints := hm_put (ep_endpoint_id copy) copy (r_endpoints r1),
                    r_endpoint_history := r_endpoint_history r1 @ [copy]\<rparr>
          in finish copy (count ac_endpoints_update r2))"

definition register_capability ::
  "CapabilityDescriptor \<Rightarrow> AuthorityEnvelope \<Rightarrow> CapabilityId operation" where
  "register_capability cap env = with_authority env (\<lambda>r.
    let finish = (\<lambda>copy r. (Return (cap_capability_id copy), commit_registry_generation
          (r\<lparr>r_authority := (r_authority r)
             \<lparr>ra_capability_gen :=
                raise_gen (ra_capability_gen (r_authority r)) (cap_generation copy)\<rparr>\<rparr>)))
    in case hm_find (r_capabilities r) (cap_capability_id cap) of
      Some cur \<Rightarrow>
        if cap_generation cap = cap_generation cur \<and> cap_eq cap cur then
          (Return (cap_capability_id cap), r)
        else if cap_generation cap \<le> cap_generation cur then
          throw STALE_CAPABILITY_GENERATION
            (''stale CapabilityGeneration '' @ show_u64 (gen_value (cap_generation cap)))
            (count ac_duplicate_conflict_rejections_update r)
        else finish cap (count ac_supersessions_update
          (r\<lparr>r_capability_history := r_capability_history r @ [cur],
             r_capabilities := hm_put (cap_capability_id cap) cap (r_capabilities r)\<rparr>))
    | None \<Rightarrow>
        if covered_by_tombstone r ''CapabilityId'' (render_typed_id (cap_capability_id cap))
             (gen_value (cap_generation cap)) then
          throw TOMBSTONE_RESURRECTION ''capability resurrected by tombstone''
            (count ac_stale_mutation_rejections_update r)
        else
          let (copy, r1) =
            (if id_value (cap_capability_id cap) = 0 then
               let (i, r') = take_next_id r in (cap\<lparr>cap_capability_id := i\<rparr>, r')
             else (cap, r));
            r2 = r1\<lparr>r_capabilities := hm_put (cap_capability_id copy) copy (r_capabilities r1),
                    r_capability_history := r_capability_history r1 @ [copy]\<rparr>
          in finish copy (count ac_capabilities_update r2))"

definition register_backend :: "BackendDescriptor \<Rightarrow> AuthorityEnvelope \<Rightarrow> BackendId operation" where
  "register_backend bd env = with_authority env (\<lambda>r.
    let finish = (\<lambda>copy r. (Return (bd_backend_id copy), commit_registry_generation
          (r\<lparr>r_authority := (r_authority r)
             \<lparr>ra_backend_gen := raise_gen (ra_backend_gen (r_authority r)) (bd_generation copy)\<rparr>\<rparr>)))
    in case hm_find (r_backends r) (bd_backend_id bd) of
      Some cur \<Rightarrow>
        if bd_generation bd = bd_generation cur \<and> bd_eq bd cur then (Return (bd_backend_id bd), r)
        else if bd_generation bd \<le> bd_generation cur then
          throw STALE_EPOCH ''stale BackendGeneration''
            (count ac_duplicate_conflict_rejections_update r)
        else finish bd (r\<lparr>r_backends := hm_put (bd_backend_id bd) bd (r_backends r)\<rparr>)
    | None \<Rightarrow>
        let (copy, r1) =
          (if id_value (bd_backend_id bd) = 0 then
             let (i, r') = take_next_id r in (bd\<lparr>bd_backend_id := i\<rparr>, r')
           else (bd, r))
        in finish copy (count ac_backends_update
             (r1\<lparr>r_backends := hm_put (bd_backend_id copy) copy (r_backends r1)\<rparr>)))"

definition register_device :: "DeviceDescriptor \<Rightarrow> AuthorityEnvelope \<Rightarrow> DeviceId operation" where
  "register_device dd env = with_authority env (\<lambda>r.
    let finish = (\<lambda>copy r. (Return (dd_device_id copy), commit_registry_generation
          (r\<lparr>r_authority := (r_authority r)
             \<lparr>ra_device_gen := raise_gen (ra_device_gen (r_authority r)) (dd_generation copy)\<rparr>\<rparr>)))
    in case hm_find (r_devices r) (dd_device_id dd) of
      Some cur \<Rightarrow>
        if dd_generation dd = dd_generation cur \<and> dd = cur then (Return (dd_device_id dd), r)
        else if dd_generation dd \<le> dd_generation cur then
          throw STALE_EPOCH ''stale DeviceGeneration''
            (count ac_duplicate_conflict_rejections_update r)
        else finish dd (r\<lparr>r_devices := hm_put (dd_device_id dd) dd (r_devices r)\<rparr>)
    | None \<Rightarrow>
        let (copy, r1) =
          (if id_value (dd_device_id dd) = 0 then
             let (i, r') = take_next_id r in (dd\<lparr>dd_device_id := i\<rparr>, r')
           else (dd, r))
        in finish copy (count ac_devices_update
             (r1\<lparr>r_devices := hm_put (dd_device_id copy) copy (r_devices r1)\<rparr>)))"

definition register_node :: "NodeDescriptor \<Rightarrow> AuthorityEnvelope \<Rightarrow> unit operation" where
  "register_node nd env = with_authority env (\<lambda>r.
    let finish = (\<lambda>r. (Return (), commit_registry_generation
          (r\<lparr>r_authority := (r_authority r)
             \<lparr>ra_node_gen := raise_gen (ra_node_gen (r_authority r)) (nd_generation nd)\<rparr>\<rparr>)))
    in case hm_find (r_nodes r) (nd_node_id nd) of
      Some cur \<Rightarrow>
        if nd_generation nd = nd_generation cur \<and> nd = cur then (Return (), r)
        else if nd_generation nd \<le> nd_generation cur then
          throw STALE_EPOCH ''stale NodeGeneration''
            (count ac_duplicate_conflict_rejections_update r)
        else finish (r\<lparr>r_nodes := hm_put (nd_node_id nd) nd (r_nodes r)\<rparr>)
    | None \<Rightarrow>
        finish (count ac_nodes_update (r\<lparr>r_nodes := hm_put (nd_node_id nd) nd (r_nodes r)\<rparr>)))"

section \<open>The registration protocol\<close>

text \<open>
  The contract of a registration operation over one store. \<open>explicit d\<close> says that the record
  brings its own identity (otherwise the registry assigns one), and \<open>admits r d\<close> that no tombstone
  covers it.
\<close>

locale versioned_registration =
  fixes register :: "'d \<Rightarrow> AuthorityEnvelope \<Rightarrow> 'res operation"
    and store :: "Registry \<Rightarrow> ('k, 'd) hmap"
    and key :: "'d \<Rightarrow> 'k"
    and gen :: "'d \<Rightarrow> 'g Gen"
    and same :: "'d \<Rightarrow> 'd \<Rightarrow> bool"
    and explicit :: "'d \<Rightarrow> bool"
    and admits :: "Registry \<Rightarrow> 'd \<Rightarrow> bool"
  assumes frame: "auth_core (snd (register d env r)) = auth_core r"
    and rejected: "\<not> av_accept (validate_envelope r env) \<Longrightarrow> \<exists>e. register d env r = (Throw e, r)"
    and confirm: "\<lbrakk>av_accept (validate_envelope r env); hm_find (store r) (key d) = Some cur;
        gen d = gen cur; same d cur\<rbrakk> \<Longrightarrow> \<exists>x. register d env r = (Return x, r)"
    and stale: "\<lbrakk>av_accept (validate_envelope r env); hm_find (store r) (key d) = Some cur;
        gen d \<le> gen cur; \<not> (gen d = gen cur \<and> same d cur)\<rbrakk>
      \<Longrightarrow> \<exists>e r'. register d env r = (Throw e, r') \<and> store r' = store r"
    and newer: "\<lbrakk>av_accept (validate_envelope r env); hm_find (store r) (key d) = Some cur;
        gen cur < gen d\<rbrakk>
      \<Longrightarrow> \<exists>x r'. register d env r = (Return x, r') \<and> store r' = hm_put (key d) d (store r)"
    and covered: "\<lbrakk>av_accept (validate_envelope r env); hm_find (store r) (key d) = None;
        \<not> admits r d\<rbrakk> \<Longrightarrow> \<exists>e r'. register d env r = (Throw e, r') \<and> store r' = store r"
    and fresh: "\<lbrakk>av_accept (validate_envelope r env); hm_find (store r) (key d) = None;
        admits r d; explicit d\<rbrakk>
      \<Longrightarrow> \<exists>x r'. register d env r = (Return x, r') \<and> store r' = hm_put (key d) d (store r)"
begin

text \<open>The six branches, by what happens to the store.\<close>

lemma branches:
  assumes "explicit d"
  obtains (kept) "store (snd (register d env r)) = store r"
      "returned (fst (register d env r)) \<Longrightarrow>
        \<exists>cur. hm_find (store r) (key d) = Some cur \<and> gen d = gen cur \<and> same d cur"
  | (written) "store (snd (register d env r)) = hm_put (key d) d (store r)"
      "returned (fst (register d env r))"
      "\<forall>cur. hm_find (store r) (key d) = Some cur \<longrightarrow> gen cur < gen d"
proof (cases "av_accept (validate_envelope r env)")
  case False
  then show ?thesis using rejected [of r env d] kept by auto
next
  case acc: True
  show ?thesis
  proof (cases "hm_find (store r) (key d)")
    case None
    show ?thesis
    proof (cases "admits r d")
      case True
      then show ?thesis using fresh [OF acc None True assms] None written by auto
    next
      case False
      then show ?thesis using covered [OF acc None False] kept by auto
    qed
  next
    case (Some cur)
    consider "gen d = gen cur \<and> same d cur" | "gen d \<le> gen cur" "\<not> (gen d = gen cur \<and> same d cur)"
      | "gen cur < gen d" by fastforce
    then show ?thesis
    proof cases
      case 1
      then show ?thesis using confirm [OF acc Some] Some kept by auto
    next
      case 2
      then show ?thesis using stale [OF acc Some 2] kept by auto
    next
      case 3
      then show ?thesis using newer [OF acc Some 3] Some written by auto
    qed
  qed
qed

lemma throw_keeps_store:
  assumes "explicit d" "\<not> returned (fst (register d env r))"
  shows "store (snd (register d env r)) = store r"
  using assms(1) by (rule branches [of d env r]) (use assms(2) in auto)

text \<open>A stored generation never decreases.\<close>

lemma generation_monotone:
  assumes "explicit d" "hm_find (store r) k = Some cur"
  shows "\<exists>cur'. hm_find (store (snd (register d env r))) k = Some cur' \<and> gen cur \<le> gen cur'"
  using assms(1)
proof (rule branches [of d env r])
  assume "store (snd (register d env r)) = hm_put (key d) d (store r)"
    "\<forall>cur. hm_find (store r) (key d) = Some cur \<longrightarrow> gen cur < gen d"
  with assms(2) show ?thesis by (auto intro: less_imp_le)
qed (use assms(2) in auto)

lemma generation_monotone_run:
  "(\<forall>(d, env) \<in> set ds. explicit d) \<Longrightarrow> hm_find (store r) k = Some cur \<Longrightarrow>
    \<exists>cur'. hm_find (store (foldl (\<lambda>r (d, env). snd (register d env r)) r ds)) k = Some cur'
      \<and> gen cur \<le> gen cur'"
proof (induction ds arbitrary: r cur)
  case (Cons p ds)
  obtain d env where p: "p = (d, env)" by (cases p)
  with Cons.prems obtain cur1
    where 1: "hm_find (store (snd (register d env r))) k = Some cur1" "gen cur \<le> gen cur1"
    using generation_monotone [of d r k cur env] by auto
  from Cons.IH [OF _ 1(1)] Cons.prems(1) 1(2) show ?case
    by (force simp: p intro: order_trans)
qed auto

text \<open>After a successful registration the store holds the record at its generation.\<close>

lemma returned_stored:
  assumes "explicit d" "returned (fst (register d env r))"
  shows "\<exists>cur. hm_find (store (snd (register d env r))) (key d) = Some cur
    \<and> gen cur = gen d \<and> (cur = d \<or> same d cur)"
  using assms(1) by (rule branches [of d env r]) (use assms(2) in auto)

text \<open>A record that is older than the stored one is turned down and changes nothing stored.\<close>

lemma replay_rejected:
  assumes "hm_find (store r) (key d) = Some cur" "gen d < gen cur"
  shows "\<not> returned (fst (register d env r)) \<and> store (snd (register d env r)) = store r"
proof (cases "av_accept (validate_envelope r env)")
  case True
  moreover have "\<not> (gen d = gen cur \<and> same d cur)"
    using assms(2) by auto
  ultimately obtain e r' where "register d env r = (Throw e, r')" "store r' = store r"
    using stale [OF True assms(1)] assms(2) by (meson less_imp_le)
  then show ?thesis by simp
next
  case False
  then show ?thesis using rejected [of r env d] by auto
qed

text \<open>
  Repeating a successful registration of a record that equals itself succeeds and leaves the
  registry exactly as it is.
\<close>

lemma repeat_confirmed:
  assumes "explicit d" "returned (fst (register d env r))" "same d d"
  shows "snd (register d env (snd (register d env r))) = snd (register d env r)
    \<and> returned (fst (register d env (snd (register d env r))))"
proof -
  let ?r' = "snd (register d env r)"
  have "av_accept (validate_envelope r env)"
    using assms(2) rejected [of r env d] by (metis fst_conv returned_simps(2))
  then have acc: "av_accept (validate_envelope ?r' env)"
    using validate_envelope_cong [OF frame] by simp
  from returned_stored [OF assms(1,2)] assms(3) obtain cur
    where "hm_find (store ?r') (key d) = Some cur" "gen cur = gen d" "same d cur" by auto
  then show ?thesis using confirm [OF acc, of d cur] by auto
qed

end

text \<open>
  Most stores compare records by a reflexive equality. Capabilities do not: a value that contains a
  NaN differs from itself.
\<close>

locale idempotent_registration = versioned_registration +
  assumes same_refl: "same d d"
begin

lemma repeat_idempotent:
  assumes "explicit d" "returned (fst (register d env r))"
  shows "snd (register d env (snd (register d env r))) = snd (register d env r)
    \<and> returned (fst (register d env (snd (register d env r))))"
  using assms same_refl by (rule repeat_confirmed)

end

text \<open>The eight operations follow the protocol.\<close>

lemmas registration_simps =
  with_authority_def throw_def Let_def take_next_id_def auth_core_def

interpretation service_reg: idempotent_registration register_service r_services svc_service_id
  svc_generation "svc_eq" "\<lambda>_. True"
  "\<lambda>r d. \<not> covered_by_tombstone r ''ServiceId'' (render_typed_id (svc_service_id d))
     (gen_value (svc_generation d))"
  by unfold_locales
    (auto simp: register_service_def registration_simps split: option.splits)

interpretation runtime_reg: idempotent_registration register_runtime r_runtime_instances rt_runtime_instance
  rt_generation "rt_eq" "\<lambda>d. id_value (rt_runtime_instance d) \<noteq> 0"
  "\<lambda>r d. \<not> covered_by_tombstone r ''RuntimeInstanceId'' (render_typed_id (rt_runtime_instance d))
     (gen_value (rt_generation d))"
  by unfold_locales
    (auto simp: register_runtime_def registration_simps split: option.splits)

interpretation protocol_reg: idempotent_registration register_protocol r_protocols pd_protocol_id
  pd_generation "(=)" "\<lambda>_. True"
  "\<lambda>_ _. True"
  by unfold_locales
    (auto simp: register_protocol_def registration_simps split: option.splits)

interpretation endpoint_reg: idempotent_registration register_endpoint r_endpoints ep_endpoint_id
  ep_generation "(=)" "\<lambda>d. id_value (ep_endpoint_id d) \<noteq> 0"
  "\<lambda>r d. \<not> covered_by_tombstone r ''EndpointId'' (render_typed_id (ep_endpoint_id d))
     (gen_value (ep_generation d))"
  by unfold_locales
    (auto simp: register_endpoint_def registration_simps split: option.splits)

interpretation capability_reg: versioned_registration register_capability r_capabilities cap_capability_id
  cap_generation "cap_eq" "\<lambda>d. id_value (cap_capability_id d) \<noteq> 0"
  "\<lambda>r d. \<not> covered_by_tombstone r ''CapabilityId'' (render_typed_id (cap_capability_id d))
     (gen_value (cap_generation d))"
  by unfold_locales
    (auto simp: register_capability_def registration_simps split: option.splits)

interpretation backend_reg: idempotent_registration register_backend r_backends bd_backend_id
  bd_generation "bd_eq" "\<lambda>d. id_value (bd_backend_id d) \<noteq> 0"
  "\<lambda>_ _. True"
  by unfold_locales
    (auto simp: register_backend_def registration_simps split: option.splits)

interpretation device_reg: idempotent_registration register_device r_devices dd_device_id
  dd_generation "(=)" "\<lambda>d. id_value (dd_device_id d) \<noteq> 0"
  "\<lambda>_ _. True"
  by unfold_locales
    (auto simp: register_device_def registration_simps split: option.splits)

interpretation node_reg: idempotent_registration register_node r_nodes nd_node_id
  nd_generation "(=)" "\<lambda>_. True"
  "\<lambda>_ _. True"
  by unfold_locales
    (auto simp: register_node_def registration_simps split: option.splits)

end
