(* ===== verification/RR_Instances.thy ===== *)
theory RR_Instances
  imports RR_State
begin

text \<open>
  Service instances (\<^verbatim>\<open>registry.cpp\<close>): aggregation of endpoint observations, the
  lifecycle classification, the guarded updates of health, readiness, freshness and reachability,
  transactional registration, supersession and deregistration.
\<close>

section \<open>Aggregation and classification\<close>

definition aggregate_health ::
  "ServiceInstance \<Rightarrow> (EndpointId, EndpointDescriptor) hmap \<Rightarrow> Health" where
  "aggregate_health inst eps =
    foldl (\<lambda>h eid.
      case hm_find eps eid of
        None \<Rightarrow> h
      | Some ep \<Rightarrow>
          if ep_health ep = Health.UNHEALTHY \<or> ep_health ep = Health.UNAVAILABLE then Health.UNHEALTHY
          else if ep_health ep = Health.DEGRADED \<and> h \<noteq> Health.UNHEALTHY then Health.DEGRADED
          else h)
      (si_health inst) (si_endpoints inst)"

fun aggregate_reachability_loop ::
  "(EndpointId, EndpointDescriptor) hmap \<Rightarrow> EndpointId list \<Rightarrow> bool \<Rightarrow> Reachability" where
  "aggregate_reachability_loop eps [] degraded =
    (if degraded then Reachability.DEGRADED else Reachability.REACHABLE)"
| "aggregate_reachability_loop eps (eid # eids) degraded =
    (case hm_find eps eid of
       None \<Rightarrow> Reachability.UNKNOWN
     | Some ep \<Rightarrow>
         if ep_reachability ep = Reachability.UNREACHABLE then Reachability.UNREACHABLE
         else
           let degraded' = (if ep_reachability ep = Reachability.DEGRADED then True else degraded)
           in if ep_reachability ep = Reachability.REVALIDATION_REQUIRED
                \<or> ep_reachability ep = Reachability.UNKNOWN
              then Reachability.REVALIDATION_REQUIRED
              else aggregate_reachability_loop eps eids degraded')"

definition aggregate_reachability ::
  "ServiceInstance \<Rightarrow> (EndpointId, EndpointDescriptor) hmap \<Rightarrow> Reachability" where
  "aggregate_reachability inst eps =
    (if si_endpoints inst = [] then si_reachability inst
     else aggregate_reachability_loop eps (si_endpoints inst) False)"

definition capability_current :: "CapabilityDescriptor \<Rightarrow> bool" where
  "capability_current cap \<longleftrightarrow> cap_freshness cap = Freshness.CURRENT"

text \<open>The two nested loops of \<^verbatim>\<open>reclassify_lifecycle\<close> over required capabilities.\<close>

definition has_current_capability ::
  "(CapabilityId, CapabilityDescriptor) hmap \<Rightarrow> CapabilityId list \<Rightarrow> CapabilityKind \<Rightarrow> bool" where
  "has_current_capability caps cids req \<longleftrightarrow>
    list_ex (\<lambda>cid. case hm_find caps cid of
      None \<Rightarrow> False
    | Some cap \<Rightarrow> cap_kind cap = req \<and> capability_current cap) cids"

definition classify :: "Registry \<Rightarrow> ServiceInstance \<Rightarrow> Health \<Rightarrow> Reachability \<Rightarrow> Lifecycle" where
  "classify r inst h reach =
    (if \<not> is_boot_live (r_authority r) (si_boot inst) then Lifecycle.STALE
     else if si_freshness inst \<noteq> Freshness.CURRENT then Lifecycle.STALE
     else if reach = Reachability.UNREACHABLE then Lifecycle.UNREACHABLE
     else if reach = Reachability.REVALIDATION_REQUIRED \<or> reach = Reachability.UNKNOWN then
       Lifecycle.UNREADY
     else if id_set (si_lease inst) \<and>
        (case hm_find (r_leases r) (si_lease inst) of
           None \<Rightarrow> True | Some l \<Rightarrow> ls_state l \<noteq> LeaseState.ACTIVE) then Lifecycle.STALE
     else if (case hm_find (r_services r) (si_service_id inst) of
           None \<Rightarrow> False
         | Some svc \<Rightarrow> list_ex (\<lambda>req.
             \<not> has_current_capability (r_capabilities r) (si_capabilities inst) req)
             (svc_required_capabilities svc)) then Lifecycle.UNREADY
     else if si_readiness inst = Readiness.DRAINING then Lifecycle.DRAINING
     else if si_readiness inst = Readiness.NOT_READY
        \<or> si_readiness inst = Readiness.REVALIDATION_REQUIRED
        \<or> si_readiness inst = Readiness.UNKNOWN then Lifecycle.UNREADY
     else if h = Health.UNHEALTHY \<or> h = Health.UNAVAILABLE then Lifecycle.UNREADY
     else if h = Health.DEGRADED \<or> si_readiness inst = Readiness.PARTIALLY_READY
        \<or> reach = Reachability.DEGRADED then Lifecycle.DEGRADED
     else Lifecycle.AVAILABLE)"

definition reclassify_lifecycle :: "Registry \<Rightarrow> ServiceInstance \<Rightarrow> ServiceInstance" where
  "reclassify_lifecycle r inst =
    (let h = aggregate_health inst (r_endpoints r);
         reach = aggregate_reachability inst (r_endpoints r)
     in inst\<lparr>si_health := h, si_reachability := reach,
             si_lifecycle := classify r inst h reach\<rparr>)"

section \<open>Guarded updates\<close>

definition generation_is_current_generation :: "AuthorityEnvelope \<Rightarrow> ServiceInstance \<Rightarrow> bool" where
  "generation_is_current_generation env inst \<longleftrightarrow>
    (if gen_value (env_service_instance_generation env) \<noteq> 0
        \<and> env_service_instance_generation env \<noteq> si_instance_generation inst then False else True)"

text \<open>
  The shape that the four updates of an instance field share: look the instance up, check the
  generation named in the envelope, write the field, classify, commit.
\<close>

definition update_instance ::
  "ServiceInstanceId \<Rightarrow> (ServiceInstance \<Rightarrow> ServiceInstance) \<Rightarrow> ErrorKind \<Rightarrow> string \<Rightarrow>
    AuthorityEnvelope \<Rightarrow> unit operation" where
  "update_instance iid f stale_kind stale_msg env = with_authority env (\<lambda>r.
    case hm_find (r_instances r) iid of
      None \<Rightarrow> throw UNKNOWN_IDENTITY ''no such instance'' r
    | Some inst \<Rightarrow>
        if \<not> generation_is_current_generation env inst then
          throw stale_kind stale_msg (count ac_stale_mutation_rejections_update r)
        else
          (Return (), commit_registry_generation
            (r\<lparr>r_instances := hm_put iid (reclassify_lifecycle r (f inst)) (r_instances r)\<rparr>)))"

definition update_health ::
  "ServiceInstanceId \<Rightarrow> Health \<Rightarrow> AuthorityEnvelope \<Rightarrow> unit operation" where
  "update_health iid h env =
    update_instance iid (\<lambda>inst. inst\<lparr>si_health := h\<rparr>) STALE_HEALTH
      ''stale health update; instance was superseded'' env"

definition update_readiness ::
  "ServiceInstanceId \<Rightarrow> Readiness \<Rightarrow> AuthorityEnvelope \<Rightarrow> unit operation" where
  "update_readiness iid rd env =
    update_instance iid (\<lambda>inst. inst\<lparr>si_readiness := rd\<rparr>) STALE_READINESS
      ''stale readiness update; instance was superseded'' env"

definition update_freshness ::
  "ServiceInstanceId \<Rightarrow> Freshness \<Rightarrow> AuthorityEnvelope \<Rightarrow> unit operation" where
  "update_freshness iid f env =
    update_instance iid (\<lambda>inst. inst\<lparr>si_freshness := f\<rparr>) STALE_EPOCH
      ''stale freshness update'' env"

definition update_instance_reachability ::
  "ServiceInstanceId \<Rightarrow> Reachability \<Rightarrow> AuthorityEnvelope \<Rightarrow> unit operation" where
  "update_instance_reachability iid rc env =
    update_instance iid (\<lambda>inst. inst\<lparr>si_reachability := rc\<rparr>) STALE_EPOCH
      ''stale reachability update'' env"

definition update_reachability ::
  "EndpointId \<Rightarrow> Reachability \<Rightarrow> AuthorityEnvelope \<Rightarrow> unit operation" where
  "update_reachability eid rc env = with_authority env (\<lambda>r.
    case hm_find (r_endpoints r) eid of
      None \<Rightarrow> throw UNKNOWN_IDENTITY ''no such endpoint'' r
    | Some ep \<Rightarrow>
        if gen_value (env_endpoint_generation env) \<noteq> 0
           \<and> env_endpoint_generation env \<noteq> ep_generation ep then
          throw STALE_EPOCH ''stale endpoint generation''
            (count ac_stale_mutation_rejections_update r)
        else
          let r1 = r\<lparr>r_endpoints := hm_put eid (ep\<lparr>ep_reachability := rc\<rparr>) (r_endpoints r)\<rparr>;
              r2 = (if id_set (ep_service_instance ep) then
                      (case hm_find (r_instances r1) (ep_service_instance ep) of
                         None \<Rightarrow> r1
                       | Some inst \<Rightarrow> r1\<lparr>r_instances := hm_put (ep_service_instance ep)
                           (reclassify_lifecycle r1 inst) (r_instances r1)\<rparr>)
                    else r1)
          in (Return (), commit_registry_generation r2))"

section \<open>Registration of an instance\<close>

text \<open>The lifecycle states that take an instance out of competition for its service.\<close>

definition historical :: "Lifecycle \<Rightarrow> bool" where
  "historical l \<longleftrightarrow> l = Lifecycle.SUPERSEDED \<or> l = Lifecycle.TOMBSTONED
     \<or> l = Lifecycle.RETIRED \<or> l = Lifecycle.INVALIDATED"

text \<open>The loop that looks for the current instance of a service: the first of highest generation.\<close>

definition find_current ::
  "ServiceId \<Rightarrow> (ServiceInstanceId, ServiceInstance) hmap \<Rightarrow>
    (ServiceInstanceId \<times> ServiceInstance) option" where
  "find_current sid m =
    foldl (\<lambda>cur (iid, existing).
      if si_service_id existing = sid \<and> \<not> historical (si_lifecycle existing) then
        (case cur of
           None \<Rightarrow> Some (iid, existing)
         | Some (_, best) \<Rightarrow>
             if si_instance_generation existing > si_instance_generation best
             then Some (iid, existing) else cur)
      else cur) None m"

definition owner_inactive :: "ServiceInstance option \<Rightarrow> bool" where
  "owner_inactive owner =
    (case owner of
       None \<Rightarrow> True
     | Some inst \<Rightarrow> si_lifecycle inst = Lifecycle.SUPERSEDED \<or> si_lifecycle inst = Lifecycle.STALE
         \<or> si_lifecycle inst = Lifecycle.TOMBSTONED \<or> si_lifecycle inst = Lifecycle.RETIRED
         \<or> si_lifecycle inst = Lifecycle.INVALIDATED)"

text \<open>The endpoint loop: \<open>Some e\<close> when it throws \<open>e\<close>, with the writes made so far.\<close>

fun bind_endpoints ::
  "ServiceInstanceId \<Rightarrow> EndpointId list \<Rightarrow> Registry \<Rightarrow> RegistryError option \<times> Registry" where
  "bind_endpoints iid [] r = (None, r)"
| "bind_endpoints iid (eid # eids) r =
    (case hm_find (r_endpoints r) eid of
       None \<Rightarrow>
         (Some (RegistryError UNKNOWN_IDENTITY ''instance references unregistered endpoint''), r)
     | Some ep \<Rightarrow>
         if id_value (ep_service_instance ep) = 0 then
           bind_endpoints iid eids
             (r\<lparr>r_endpoints := hm_put eid (ep\<lparr>ep_service_instance := iid\<rparr>) (r_endpoints r)\<rparr>)
         else if ep_service_instance ep \<noteq> iid then
           if \<not> owner_inactive (hm_find (r_instances r) (ep_service_instance ep)) then
             (Some (RegistryError DUPLICATE_CONFLICT ''endpoint already bound to another instance''),
              count ac_duplicate_conflict_rejections_update r)
           else
             bind_endpoints iid eids
               (r\<lparr>r_endpoints := hm_put eid (ep\<lparr>ep_service_instance := iid,
                    ep_reachability := Reachability.REACHABLE,
                    ep_freshness := Freshness.CURRENT\<rparr>) (r_endpoints r)\<rparr>)
         else bind_endpoints iid eids r)"

text \<open>From the endpoint loop to the return.\<close>

definition commit_instance :: "ServiceInstance \<Rightarrow> ServiceInstanceId operation" where
  "commit_instance copy r =
    (case bind_endpoints (si_instance_id copy) (si_endpoints copy) r of
       (Some e, r1) \<Rightarrow> (Throw e, r1)
     | (None, r1) \<Rightarrow>
         let r2 = r1\<lparr>r_instances := hm_put (si_instance_id copy) copy (r_instances r1),
                     r_instance_history := r_instance_history r1 @ [copy]\<rparr>;
             r3 = count ac_registrations_update (count ac_service_instances_update r2);
             r4 = r3\<lparr>r_instances :=
                    hm_put (si_instance_id copy) (reclassify_lifecycle r3 copy) (r_instances r3)\<rparr>
         in (Return (si_instance_id copy), rebuild_indexes (commit_registry_generation r4)))"

text \<open>The identity is assigned from the counter when the caller leaves it out.\<close>

definition assign_instance_id :: "ServiceInstance \<Rightarrow> Registry \<Rightarrow> ServiceInstance \<times> Registry" where
  "assign_instance_id inst r =
    (if id_value (si_instance_id inst) = 0 then
       let (i, r') = take_next_id r in (inst\<lparr>si_instance_id := i\<rparr>, r')
     else (inst, r))"

text \<open>From the search for the current instance to the end of the operation.\<close>

definition place_instance :: "ServiceInstance \<Rightarrow> ServiceInstanceId operation" where
  "place_instance copy r =
    (case find_current (si_service_id copy) (r_instances r) of
       Some (cid, current) \<Rightarrow>
         if si_instance_generation copy = si_instance_generation current \<and> si_eq copy current then
           (Return (si_instance_id copy), r)
         else if si_instance_generation copy \<le> si_instance_generation current then
           throw STALE_INSTANCE_GENERATION
             (''registration rejected because ServiceInstanceGeneration ''
               @ show_u64 (gen_value (si_instance_generation copy)) @ '' is stale; current ''
               @ show_u64 (gen_value (si_instance_generation current)))
             (count ac_duplicate_conflict_rejections_update r)
         else
           commit_instance copy
             (count ac_supersessions_update (uncount ac_available_instances_update
               (r\<lparr>r_instance_history := r_instance_history r @ [current],
                  r_instances := hm_put cid (current\<lparr>si_lifecycle := Lifecycle.SUPERSEDED\<rparr>)
                    (r_instances r)\<rparr>)))
     | None \<Rightarrow>
         if covered_by_tombstone r ''ServiceId'' (render_typed_id (si_service_id copy))
              (gen_value (si_instance_generation copy)) then
           throw TOMBSTONE_RESURRECTION ''instance resurrected by tombstone''
             (count ac_stale_mutation_rejections_update r)
         else commit_instance copy r)"

definition register_instance ::
  "ServiceInstance \<Rightarrow> AuthorityEnvelope \<Rightarrow> ServiceInstanceId operation" where
  "register_instance inst env = with_authority env (\<lambda>r.
    if hm_find (r_services r) (si_service_id inst) = None then
      throw UNKNOWN_IDENTITY ''instance references unregistered ServiceId'' r
    else (case assign_instance_id inst r of (copy, r1) \<Rightarrow> place_instance copy r1))"

section \<open>Supersession and deregistration\<close>

definition supersede ::
  "ServiceInstanceId \<Rightarrow> ServiceInstance \<Rightarrow> AuthorityEnvelope \<Rightarrow> unit operation" where
  "supersede old_id new_inst env = with_authority env (\<lambda>r.
    case hm_find (r_instances r) old_id of
      None \<Rightarrow> throw UNKNOWN_IDENTITY ''no such instance'' r
    | Some old \<Rightarrow>
        let r1 = uncount ac_available_instances_update
              (r\<lparr>r_instance_history := r_instance_history r @ [old],
                 r_instances := hm_put old_id (old\<lparr>si_lifecycle := Lifecycle.SUPERSEDED\<rparr>)
                   (r_instances r)\<rparr>)
        in case register_instance new_inst env r1 of
             (Throw e, r2) \<Rightarrow> (Throw e, r2)
           | (Return _, r2) \<Rightarrow> (Return (), count ac_supersessions_update r2))"

definition deregister :: "ServiceInstanceId \<Rightarrow> AuthorityEnvelope \<Rightarrow> unit operation" where
  "deregister iid env = with_authority env (\<lambda>r.
    case hm_find (r_instances r) iid of
      None \<Rightarrow> (Return (), r)
    | Some inst \<Rightarrow>
        if \<not> generation_is_current_generation env inst then
          throw STALE_INSTANCE_GENERATION ''stale deregister''
            (count ac_stale_mutation_rejections_update r)
        else
          (Return (), commit_registry_generation (count ac_deregistrations_update
            (uncount ac_available_instances_update
              (r\<lparr>r_instance_history := r_instance_history r @ [inst],
                 r_instances := hm_put iid (inst\<lparr>si_lifecycle := Lifecycle.RETIRED\<rparr>)
                   (r_instances r)\<rparr>)))))"

section \<open>Lookups and self-checks\<close>

definition find_instance :: "Registry \<Rightarrow> ServiceInstanceId \<Rightarrow> ServiceInstance option" where
  "find_instance r iid = hm_find (r_instances r) iid"

definition find_service :: "Registry \<Rightarrow> ServiceId \<Rightarrow> ServiceDescriptor option" where
  "find_service r sid = hm_find (r_services r) sid"

definition find_runtime :: "Registry \<Rightarrow> RuntimeId \<Rightarrow> RuntimeDescriptor option" where
  "find_runtime r i = hm_find (r_runtimes r) i"

definition find_runtime_instance :: "Registry \<Rightarrow> RuntimeInstanceId \<Rightarrow> RuntimeDescriptor option" where
  "find_runtime_instance r i = hm_find (r_runtime_instances r) i"

definition find_endpoint :: "Registry \<Rightarrow> EndpointId \<Rightarrow> EndpointDescriptor option" where
  "find_endpoint r i = hm_find (r_endpoints r) i"

definition find_capability :: "Registry \<Rightarrow> CapabilityId \<Rightarrow> CapabilityDescriptor option" where
  "find_capability r i = hm_find (r_capabilities r) i"

definition find_lease :: "Registry \<Rightarrow> LeaseId \<Rightarrow> LeaseDescriptor option" where
  "find_lease r i = hm_find (r_leases r) i"

text \<open>
  \<^verbatim>\<open>instance_index_by_service\<close> groups the keys of the canonical map by service, each
  group sorted.
\<close>

definition instance_index_by_service ::
  "Registry \<Rightarrow> (ServiceId, ServiceInstanceId list) hmap" where
  "instance_index_by_service r =
    hm_map sort (foldl (\<lambda>m (iid, inst).
      hm_put (si_service_id inst)
        ((case hm_find m (si_service_id inst) of None \<Rightarrow> [] | Some s \<Rightarrow> s) @ [iid]) m)
      [] (r_instances r))"

definition check_invariants :: "Registry \<Rightarrow> string list" where
  "check_invariants r =
    concat (map (\<lambda>(sid, ids).
      if (case hm_find (r_index_by_service r) sid of
            None \<Rightarrow> True | Some s \<Rightarrow> length s \<noteq> length ids)
      then [''service index disagrees with canonical records for '' @ show_u64 (id_value sid)]
      else []) (instance_index_by_service r))
    @ concat (map (\<lambda>(_, inst).
      (if hm_find (r_services r) (si_service_id inst) = None
       then [''instance references unregistered service''] else [])
      @ concat (map (\<lambda>eid. if hm_find (r_endpoints r) eid = None
          then [''instance references unregistered endpoint''] else []) (si_endpoints inst))
      @ (if si_lifecycle inst = Lifecycle.AVAILABLE
            \<and> (\<not> is_boot_live (r_authority r) (si_boot inst)
               \<or> si_freshness inst \<noteq> Freshness.CURRENT)
         then [''AVAILABLE instance has stale authority/freshness''] else [])) (r_instances r))"

definition accounting_negative :: "Registry \<Rightarrow> bool" where
  "accounting_negative r =
    (let a = r_accounting r
     in ac_services a < 0 \<or> ac_service_instances a < 0 \<or> ac_runtimes a < 0
        \<or> ac_runtime_instances a < 0 \<or> ac_nodes a < 0 \<or> ac_endpoints a < 0 \<or> ac_protocols a < 0
        \<or> ac_backends a < 0 \<or> ac_devices a < 0 \<or> ac_capabilities a < 0 \<or> ac_leases a < 0
        \<or> ac_active_leases a < 0 \<or> ac_expired_leases a < 0)"

section \<open>Lemmas on aggregation\<close>

text \<open>
  Aggregated reachability, without the loop: an instance without endpoints keeps its own reading;
  otherwise every endpoint must be registered, reachable or degraded, and one degraded endpoint
  degrades the instance.
\<close>

lemma reachability_loop_reachable:
  "aggregate_reachability_loop eps eids degraded = Reachability.REACHABLE \<longleftrightarrow>
    \<not> degraded \<and> (\<forall>e \<in> set eids. \<exists>ep. hm_find eps e = Some ep
      \<and> ep_reachability ep = Reachability.REACHABLE)"
proof (induction eids arbitrary: degraded)
  case (Cons e eids)
  show ?case
  proof (cases "hm_find eps e")
    case (Some ep)
    then show ?thesis by (cases "ep_reachability ep") (simp_all add: Cons)
  qed simp
qed simp

lemma reachability_loop_unreachable:
  "aggregate_reachability_loop eps eids degraded = Reachability.UNREACHABLE \<Longrightarrow>
    \<exists>e \<in> set eids. \<exists>ep. hm_find eps e = Some ep \<and> ep_reachability ep = Reachability.UNREACHABLE"
proof (induction eids arbitrary: degraded)
  case (Cons e eids)
  then show ?case
    by (cases "hm_find eps e") (auto simp: Let_def split: if_splits)
qed (simp split: if_splits)

lemma aggregate_reachable_iff:
  "si_endpoints inst \<noteq> [] \<Longrightarrow>
    aggregate_reachability inst eps = Reachability.REACHABLE \<longleftrightarrow>
      (\<forall>e \<in> set (si_endpoints inst). \<exists>ep. hm_find eps e = Some ep
        \<and> ep_reachability ep = Reachability.REACHABLE)"
  by (simp add: aggregate_reachability_def reachability_loop_reachable)

text \<open>Aggregated health reports a failed endpoint, whatever the order of the list.\<close>

definition endpoint_failed :: "EndpointDescriptor \<Rightarrow> bool" where
  "endpoint_failed ep \<longleftrightarrow> ep_health ep = Health.UNHEALTHY \<or> ep_health ep = Health.UNAVAILABLE"

definition health_step :: "(EndpointId, EndpointDescriptor) hmap \<Rightarrow> Health \<Rightarrow> EndpointId \<Rightarrow> Health" where
  "health_step eps h eid =
    (case hm_find eps eid of
       None \<Rightarrow> h
     | Some ep \<Rightarrow>
         if endpoint_failed ep then Health.UNHEALTHY
         else if ep_health ep = Health.DEGRADED \<and> h \<noteq> Health.UNHEALTHY then Health.DEGRADED
         else h)"

lemma aggregate_health_eq:
  "aggregate_health inst eps = foldl (health_step eps) (si_health inst) (si_endpoints inst)"
  unfolding aggregate_health_def health_step_def [abs_def] endpoint_failed_def by (rule refl)

lemma health_step_None: "hm_find eps e = None \<Longrightarrow> health_step eps h e = h"
  by (simp add: health_step_def)

lemma health_step_Some:
  "hm_find eps e = Some ep \<Longrightarrow> health_step eps h e =
    (if endpoint_failed ep then Health.UNHEALTHY
     else if ep_health ep = Health.DEGRADED \<and> h \<noteq> Health.UNHEALTHY then Health.DEGRADED else h)"
  by (simp add: health_step_def)

lemma health_step_unhealthy: "health_step eps Health.UNHEALTHY eid = Health.UNHEALTHY"
  by (simp add: health_step_def split: option.split)

lemma health_loop_unhealthy: "foldl (health_step eps) Health.UNHEALTHY eids = Health.UNHEALTHY"
  by (induction eids) (simp_all add: health_step_unhealthy)

definition some_endpoint ::
  "(EndpointId, EndpointDescriptor) hmap \<Rightarrow> EndpointId list \<Rightarrow> (EndpointDescriptor \<Rightarrow> bool) \<Rightarrow> bool"
where
  "some_endpoint eps eids P \<longleftrightarrow> list_ex (\<lambda>e. case hm_find eps e of None \<Rightarrow> False | Some ep \<Rightarrow> P ep) eids"

lemma health_loop:
  "foldl (health_step eps) h eids =
    (if h = Health.UNHEALTHY \<or> some_endpoint eps eids endpoint_failed then Health.UNHEALTHY
     else if some_endpoint eps eids (\<lambda>ep. ep_health ep = Health.DEGRADED) then Health.DEGRADED
     else h)"
proof (induction eids arbitrary: h)
  case Nil
  then show ?case by (simp add: some_endpoint_def)
next
  case (Cons e eids)
  show ?case
  proof (cases "hm_find eps e")
    case None
    then show ?thesis by (simp add: Cons health_step_None some_endpoint_def)
  next
    case (Some ep)
    then show ?thesis
      by (cases "endpoint_failed ep")
        (auto simp: Cons health_step_Some some_endpoint_def)
  qed
qed

section \<open>Lemmas on classification\<close>

lemma classify_available:
  "classify r inst h reach = Lifecycle.AVAILABLE \<longleftrightarrow>
    is_boot_live (r_authority r) (si_boot inst)
    \<and> si_freshness inst = Freshness.CURRENT
    \<and> reach = Reachability.REACHABLE
    \<and> si_readiness inst = Readiness.READY
    \<and> (h = Health.HEALTHY \<or> h = Health.UNKNOWN)
    \<and> (id_set (si_lease inst) \<longrightarrow> (\<exists>l. hm_find (r_leases r) (si_lease inst) = Some l
          \<and> ls_state l = LeaseState.ACTIVE))
    \<and> (\<forall>svc. hm_find (r_services r) (si_service_id inst) = Some svc \<longrightarrow>
          (\<forall>req \<in> set (svc_required_capabilities svc).
            has_current_capability (r_capabilities r) (si_capabilities inst) req))"
  by (cases reach; cases "si_readiness inst"; cases h)
    (auto simp: classify_def list_ex_iff split: option.splits)

end
