(* ===== verification/RR_Leases.thy ===== *)
theory RR_Leases
  imports RR_State
begin

text \<open>
  Leases, invalidation records and tombstones (\<^verbatim>\<open>registry.cpp\<close>): acquisition,
  renewal, expiry and revocation of leases with their counters, and the two append-only records of
  withdrawn identities.
\<close>

section \<open>Leases\<close>

definition acquire_lease :: "LeaseDescriptor \<Rightarrow> AuthorityEnvelope \<Rightarrow> LeaseId operation" where
  "acquire_lease lease env = with_authority env (\<lambda>r.
    let (copy, r1) =
          (if id_value (ls_lease_id lease) = 0 then
             let (i, r') = take_next_id r in (lease\<lparr>ls_lease_id := i\<rparr>, r')
           else (lease, r));
        copy' = copy\<lparr>ls_generation := MkGen (gen_value (ra_lease_gen (r_authority r1)) + 1)\<rparr>;
        r2 = r1\<lparr>r_authority := (r_authority r1)\<lparr>ra_lease_gen := ls_generation copy'\<rparr>,
                r_leases := hm_put (ls_lease_id copy') copy' (r_leases r1)\<rparr>;
        r3 = (if ls_state copy' = LeaseState.ACTIVE then count ac_active_leases_update r2 else r2)
    in (Return (ls_lease_id copy'), commit_registry_generation (count ac_leases_update r3)))"

definition renew_lease :: "LeaseId \<Rightarrow> AuthorityEnvelope \<Rightarrow> unit operation" where
  "renew_lease lid env = with_authority env (\<lambda>r.
    case hm_find (r_leases r) lid of
      None \<Rightarrow> throw UNKNOWN_IDENTITY ''no such lease'' r
    | Some l \<Rightarrow>
        if ls_state l = LeaseState.REVOKED then
          throw STALE_RENEWAL ''lease revoked'' (count ac_stale_mutation_rejections_update r)
        else if (case hm_find (r_instances r) (ls_service_instance l) of
                   None \<Rightarrow> False | Some inst \<Rightarrow> si_boot inst \<noteq> env_boot env) then
          throw STALE_BOOT ''stale boot cannot renew current lease''
            (count ac_stale_mutation_rejections_update r)
        else if gen_value (env_lease_generation env) \<noteq> 0
                \<and> env_lease_generation env \<noteq> ls_generation l then
          throw STALE_LEASE_GENERATION ''stale lease generation renewal''
            (count ac_stale_mutation_rejections_update r)
        else
          (Return (), commit_registry_generation
            (r\<lparr>r_leases := hm_put lid (l\<lparr>ls_state := LeaseState.ACTIVE\<rparr>) (r_leases r)\<rparr>)))"

text \<open>Expiry and revocation differ only in the state they set.\<close>

definition end_lease :: "LeaseState \<Rightarrow> LeaseId \<Rightarrow> AuthorityEnvelope \<Rightarrow> unit operation" where
  "end_lease st lid env = with_authority env (\<lambda>r.
    case hm_find (r_leases r) lid of
      None \<Rightarrow> (Return (), r)
    | Some l \<Rightarrow>
        (Return (), commit_registry_generation
          (if ls_state l = LeaseState.ACTIVE then
             uncount ac_active_leases_update (count ac_expired_leases_update
               (r\<lparr>r_leases := hm_put lid (l\<lparr>ls_state := st\<rparr>) (r_leases r)\<rparr>))
           else r)))"

definition expire_lease :: "LeaseId \<Rightarrow> AuthorityEnvelope \<Rightarrow> unit operation" where
  "expire_lease = end_lease LeaseState.EXPIRED"

definition revoke_lease :: "LeaseId \<Rightarrow> AuthorityEnvelope \<Rightarrow> unit operation" where
  "revoke_lease = end_lease LeaseState.REVOKED"

definition mark_lease_revalidation_required :: "LeaseId \<Rightarrow> Registry \<Rightarrow> Registry" where
  "mark_lease_revalidation_required lid r =
    (case hm_find (r_leases r) lid of
       None \<Rightarrow> r
     | Some l \<Rightarrow>
         if ls_state l = LeaseState.ACTIVE then
           uncount ac_active_leases_update
             (r\<lparr>r_leases := hm_put lid (l\<lparr>ls_state := LeaseState.REVALIDATION_REQUIRED\<rparr>)
                 (r_leases r)\<rparr>)
         else r)"

section \<open>Invalidation and tombstones\<close>

definition invalidate :: "InvalidationRecord \<Rightarrow> AuthorityEnvelope \<Rightarrow> unit operation" where
  "invalidate rec env = with_authority env (\<lambda>r.
    (Return (), commit_registry_generation (count ac_invalidations_update
      (r\<lparr>r_invalidations := r_invalidations r @ [rec]\<rparr>))))"

definition create_tombstone :: "TombstoneRecord \<Rightarrow> AuthorityEnvelope \<Rightarrow> TombstoneId operation" where
  "create_tombstone tomb env = with_authority env (\<lambda>r.
    let (copy, r1) =
      (if id_value (tb_tombstone_id tomb) = 0 then
         let (i, r') = take_next_id r in (tomb\<lparr>tb_tombstone_id := i\<rparr>, r')
       else (tomb, r))
    in (Return (tb_tombstone_id copy), commit_registry_generation (count ac_tombstones_update
         (r1\<lparr>r_tombstones := hm_put (tb_tombstone_id copy) copy (r_tombstones r1)\<rparr>))))"

end
