(* ===== verification/RR_Authority.thy ===== *)
theory RR_Authority
  imports RR_State
begin

text \<open>
  Coordinator epochs and worker incarnations (\<^verbatim>\<open>authority.cpp\<close>): starting an epoch,
  adopting a worker under a fresh boot identity, and revoking a boot with everything it owned.

  The lemmas describe each operation by its effect on every member it writes, and show which
  members it leaves alone.
\<close>

section \<open>Starting an epoch\<close>

text \<open>
  The four range-for loops of \<^verbatim>\<open>begin_coordinator_epoch\<close>, one function per record
  kind; \<^verbatim>\<open>load_from\<close> runs the same loops.
\<close>

definition revalidate_instance :: "ServiceInstance \<Rightarrow> ServiceInstance" where
  "revalidate_instance inst =
    (let inst1 =
       (if si_lifecycle inst = Lifecycle.AVAILABLE \<or> si_lifecycle inst = Lifecycle.DEGRADED
           \<or> si_lifecycle inst = Lifecycle.UNREADY then
          let inst' = inst\<lparr>si_freshness := Freshness.REVALIDATION_REQUIRED,
                           si_reachability := Reachability.REVALIDATION_REQUIRED\<rparr>
          in if si_lifecycle inst = Lifecycle.AVAILABLE \<or> si_lifecycle inst = Lifecycle.DEGRADED
             then inst'\<lparr>si_lifecycle := Lifecycle.UNREADY\<rparr> else inst'
        else inst)
     in inst1\<lparr>si_updated_ms := 0\<rparr>)"

definition revalidate_endpoint :: "EndpointDescriptor \<Rightarrow> EndpointDescriptor" where
  "revalidate_endpoint ep =
    (if ep_transport ep = TransportKind.IN_PROCESS \<or> ep_transport ep = TransportKind.LOCAL_IPC then
       ep\<lparr>ep_freshness := Freshness.REVALIDATION_REQUIRED,
          ep_reachability := Reachability.REVALIDATION_REQUIRED\<rparr>
     else if ep_transport ep = TransportKind.TCP then
       ep\<lparr>ep_reachability := Reachability.REVALIDATION_REQUIRED\<rparr>
     else ep)"

definition revalidate_capability :: "CapabilityDescriptor \<Rightarrow> CapabilityDescriptor" where
  "revalidate_capability cap =
    (if cap_freshness cap = Freshness.CURRENT \<and> is_physical (cap_provenance cap)
     then cap\<lparr>cap_freshness := Freshness.REVALIDATION_REQUIRED\<rparr> else cap)"

definition revalidate_lease :: "LeaseDescriptor \<Rightarrow> LeaseDescriptor" where
  "revalidate_lease lease =
    (if ls_state lease = LeaseState.ACTIVE
     then lease\<lparr>ls_state := LeaseState.REVALIDATION_REQUIRED\<rparr> else lease)"

definition begin_coordinator_epoch :: "Registry \<Rightarrow> Registry" where
  "begin_coordinator_epoch r =
    r\<lparr>r_authority := (r_authority r)
        \<lparr>ra_epoch := MkGen (gen_value (ra_epoch (r_authority r)) + 1),
         ra_live_boots := [], ra_current_boot := [], ra_boot_worker := []\<rparr>,
      r_instances := hm_map revalidate_instance (r_instances r),
      r_endpoints := hm_map revalidate_endpoint (r_endpoints r),
      r_capabilities := hm_map revalidate_capability (r_capabilities r),
      r_leases := hm_map revalidate_lease (r_leases r)\<rparr>"

section \<open>Revoking a boot\<close>

text \<open>The lease of a dead instance expires; the counters follow.\<close>

definition expire_owned_lease :: "ServiceInstance \<Rightarrow> Registry \<Rightarrow> Registry" where
  "expire_owned_lease inst r =
    (if id_set (si_lease inst) then
       (case hm_find (r_leases r) (si_lease inst) of
          None \<Rightarrow> r
        | Some l \<Rightarrow>
            if ls_state l = LeaseState.ACTIVE then
              uncount ac_active_leases_update (count ac_expired_leases_update
                (r\<lparr>r_leases := hm_put (si_lease inst) (l\<lparr>ls_state := LeaseState.EXPIRED\<rparr>)
                    (r_leases r)\<rparr>))
            else r)
     else r)"

definition release_endpoint ::
  "ServiceInstanceId \<Rightarrow> (EndpointId, EndpointDescriptor) hmap \<Rightarrow> EndpointId \<Rightarrow>
    (EndpointId, EndpointDescriptor) hmap" where
  "release_endpoint owner eps eid =
    (case hm_find eps eid of
       None \<Rightarrow> eps
     | Some ep \<Rightarrow>
         if ep_service_instance ep = owner then
           hm_put eid (ep\<lparr>ep_service_instance := no_id,
             ep_reachability := Reachability.UNREACHABLE\<rparr>) eps
         else eps)"

definition kill_instance :: "ServiceInstance \<Rightarrow> ServiceInstance" where
  "kill_instance inst =
    inst\<lparr>si_lifecycle := Lifecycle.STALE, si_freshness := Freshness.STALE,
         si_reachability := Reachability.UNREACHABLE, si_readiness := Readiness.NOT_READY\<rparr>"

text \<open>One round of the loop over \<^verbatim>\<open>instances_\<close>, for the entry with the given key.\<close>

definition revoke_instance :: "WorkerBootId \<Rightarrow> Registry \<Rightarrow> ServiceInstanceId \<Rightarrow> Registry" where
  "revoke_instance boot r iid =
    (case hm_find (r_instances r) iid of
       None \<Rightarrow> r
     | Some inst \<Rightarrow>
         if si_boot inst = boot then
           let r1 = expire_owned_lease inst r;
               inst' = kill_instance inst
           in r1\<lparr>r_instances := hm_put iid inst' (r_instances r1),
                 r_endpoints := foldl (release_endpoint (si_instance_id inst')) (r_endpoints r1)
                   (si_endpoints inst')\<rparr>
         else r)"

definition revoke_boot_internal :: "WorkerBootId \<Rightarrow> Registry \<Rightarrow> Registry" where
  "revoke_boot_internal boot r =
    (let a = r_authority r
     in if \<not> is_boot_live a boot then r
        else
          let a1 = a\<lparr>ra_live_boots := hs_erase boot (ra_live_boots a)\<rparr>;
              owner = boot_owner a1 boot;
              a2 = (case hm_find (ra_current_boot a1) owner of
                      None \<Rightarrow> a1
                    | Some cur \<Rightarrow>
                        if cur = boot then
                          a1\<lparr>ra_current_boot := hm_put owner no_id (ra_current_boot a1)\<rparr>
                        else a1);
              a3 = a2\<lparr>ra_boot_worker := hm_erase boot (ra_boot_worker a2)\<rparr>;
              r1 = r\<lparr>r_authority := a3\<rparr>
          in foldl (revoke_instance boot) r1 (hm_keys (r_instances r1)))"

definition mark_worker_died :: "WorkerBootId \<Rightarrow> Registry \<Rightarrow> Registry" where
  "mark_worker_died boot r = revoke_boot_internal boot r"

section \<open>Adopting a worker\<close>

definition adopt_worker :: "WorkerId \<Rightarrow> Registry \<Rightarrow> WorkerBootId \<times> Registry" where
  "adopt_worker worker r =
    (let r0 = r\<lparr>r_next_boot := r_next_boot r + 1\<rparr>;
         new_boot = MkId (r_next_boot r0);
         r1 = (case hm_find (ra_current_boot (r_authority r0)) worker of
                 None \<Rightarrow> r0
               | Some prev \<Rightarrow> if prev \<noteq> new_boot then revoke_boot_internal prev r0 else r0);
         a = r_authority r1;
         a' = a\<lparr>ra_current_boot := hm_put worker new_boot (ra_current_boot a),
                ra_live_boots := hs_insert new_boot (ra_live_boots a),
                ra_boot_worker := hm_put new_boot worker (ra_boot_worker a)\<rparr>
     in (new_boot, count ac_worker_restarts_update (r1\<lparr>r_authority := a'\<rparr>)))"

definition set_worker_health_reporting :: "WorkerId \<Rightarrow> bool \<Rightarrow> Registry \<Rightarrow> Registry" where
  "set_worker_health_reporting worker enabled r = r"

section \<open>Effects\<close>

lemma revalidate_instance_ids [simp]:
  "si_instance_id (revalidate_instance i) = si_instance_id i"
  "si_service_id (revalidate_instance i) = si_service_id i"
  "si_boot (revalidate_instance i) = si_boot i"
  "si_node (revalidate_instance i) = si_node i"
  "si_endpoints (revalidate_instance i) = si_endpoints i"
  "si_capabilities (revalidate_instance i) = si_capabilities i"
  "si_lease (revalidate_instance i) = si_lease i"
  "si_instance_generation (revalidate_instance i) = si_instance_generation i"
  by (simp_all add: revalidate_instance_def Let_def)

section \<open>What revocation does\<close>

definition dead_for :: "WorkerBootId \<Rightarrow> ServiceInstance \<Rightarrow> ServiceInstance" where
  "dead_for boot inst = (if si_boot inst = boot then kill_instance inst else inst)"

lemma kill_instance_simps [simp]:
  "si_instance_id (kill_instance i) = si_instance_id i"
  "si_service_id (kill_instance i) = si_service_id i"
  "si_boot (kill_instance i) = si_boot i" "si_node (kill_instance i) = si_node i"
  "si_endpoints (kill_instance i) = si_endpoints i" "si_lease (kill_instance i) = si_lease i"
  "si_lifecycle (kill_instance i) = Lifecycle.STALE"
  "si_freshness (kill_instance i) = Freshness.STALE"
  "si_reachability (kill_instance i) = Reachability.UNREACHABLE"
  "si_readiness (kill_instance i) = Readiness.NOT_READY"
  by (simp_all add: kill_instance_def)

lemma dead_for_simps [simp]:
  "si_instance_id (dead_for b i) = si_instance_id i"
  "si_service_id (dead_for b i) = si_service_id i"
  "si_boot (dead_for b i) = si_boot i" "si_node (dead_for b i) = si_node i"
  "si_endpoints (dead_for b i) = si_endpoints i" "si_lease (dead_for b i) = si_lease i"
  "dead_for b (dead_for b i) = dead_for b i"
  by (simp_all add: dead_for_def kill_instance_def)

lemma expire_owned_lease_frame [simp]:
  "r_authority (expire_owned_lease i r) = r_authority r"
  "r_instances (expire_owned_lease i r) = r_instances r"
  "r_services (expire_owned_lease i r) = r_services r"
  "r_endpoints (expire_owned_lease i r) = r_endpoints r"
  "r_capabilities (expire_owned_lease i r) = r_capabilities r"
  "r_tombstones (expire_owned_lease i r) = r_tombstones r"
  "r_index_by_kind (expire_owned_lease i r) = r_index_by_kind r"
  "r_index_by_service (expire_owned_lease i r) = r_index_by_service r"
  "r_index_by_boot (expire_owned_lease i r) = r_index_by_boot r"
  "r_index_by_node (expire_owned_lease i r) = r_index_by_node r"
  "r_next_boot (expire_owned_lease i r) = r_next_boot r"
  "r_next_id (expire_owned_lease i r) = r_next_id r"
  by (simp_all add: expire_owned_lease_def split: option.splits)

lemma revoke_instance_frame [simp]:
  "r_authority (revoke_instance b r k) = r_authority r"
  "r_services (revoke_instance b r k) = r_services r"
  "r_capabilities (revoke_instance b r k) = r_capabilities r"
  "r_tombstones (revoke_instance b r k) = r_tombstones r"
  "r_index_by_kind (revoke_instance b r k) = r_index_by_kind r"
  "r_index_by_service (revoke_instance b r k) = r_index_by_service r"
  "r_index_by_boot (revoke_instance b r k) = r_index_by_boot r"
  "r_index_by_node (revoke_instance b r k) = r_index_by_node r"
  "r_next_boot (revoke_instance b r k) = r_next_boot r"
  "r_next_id (revoke_instance b r k) = r_next_id r"
  by (simp_all add: revoke_instance_def Let_def split: option.splits)

lemma revoke_instance_instances [simp]:
  "hm_find (r_instances (revoke_instance b r k)) k' =
    (if k' = k then map_option (dead_for b) (hm_find (r_instances r) k')
     else hm_find (r_instances r) k')"
  by (simp add: revoke_instance_def Let_def dead_for_def split: option.splits)

lemma revoke_loop_frame [simp]:
  "r_authority (foldl (revoke_instance b) r ks) = r_authority r"
  "r_services (foldl (revoke_instance b) r ks) = r_services r"
  "r_capabilities (foldl (revoke_instance b) r ks) = r_capabilities r"
  "r_tombstones (foldl (revoke_instance b) r ks) = r_tombstones r"
  "r_index_by_kind (foldl (revoke_instance b) r ks) = r_index_by_kind r"
  "r_index_by_service (foldl (revoke_instance b) r ks) = r_index_by_service r"
  "r_index_by_boot (foldl (revoke_instance b) r ks) = r_index_by_boot r"
  "r_index_by_node (foldl (revoke_instance b) r ks) = r_index_by_node r"
  "r_next_boot (foldl (revoke_instance b) r ks) = r_next_boot r"
  "r_next_id (foldl (revoke_instance b) r ks) = r_next_id r"
  by (induction ks arbitrary: r) simp_all

lemma revoke_loop_instances:
  "hm_find (r_instances (foldl (revoke_instance b) r ks)) k =
    (if k \<in> set ks then map_option (dead_for b) (hm_find (r_instances r) k)
     else hm_find (r_instances r) k)"
proof (induction ks arbitrary: r)
  case (Cons k' ks)
  have "map_option (dead_for b) (map_option (dead_for b) x) = map_option (dead_for b) x" for x
    by (cases x) simp_all
  with Cons show ?case by simp
qed simp

lemma hm_keys_None: "k \<notin> set (hm_keys m) \<Longrightarrow> hm_find m k = None"
  by (simp add: hm_keys_def hm_find_None_iff)

lemma revoke_boot_instances:
  "hm_find (r_instances (revoke_boot_internal b r)) k =
    (if is_boot_live (r_authority r) b then map_option (dead_for b) (hm_find (r_instances r) k)
     else hm_find (r_instances r) k)"
  by (auto simp: revoke_boot_internal_def Let_def revoke_loop_instances hm_keys_None)

lemma revoke_boot_frame [simp]:
  "ra_epoch (r_authority (revoke_boot_internal b r)) = ra_epoch (r_authority r)"
  "r_services (revoke_boot_internal b r) = r_services r"
  "r_capabilities (revoke_boot_internal b r) = r_capabilities r"
  "r_tombstones (revoke_boot_internal b r) = r_tombstones r"
  "r_index_by_kind (revoke_boot_internal b r) = r_index_by_kind r"
  "r_index_by_service (revoke_boot_internal b r) = r_index_by_service r"
  "r_index_by_boot (revoke_boot_internal b r) = r_index_by_boot r"
  "r_index_by_node (revoke_boot_internal b r) = r_index_by_node r"
  "r_next_boot (revoke_boot_internal b r) = r_next_boot r"
  "r_next_id (revoke_boot_internal b r) = r_next_id r"
  by (simp_all add: revoke_boot_internal_def Let_def split: option.splits)

lemma revoke_boot_live [simp]:
  "ra_live_boots (r_authority (revoke_boot_internal b r)) =
    hs_erase b (ra_live_boots (r_authority r))"
proof (cases "is_boot_live (r_authority r) b")
  case True
  then show ?thesis
    by (simp add: revoke_boot_internal_def Let_def split: option.splits)
next
  case False
  then have "hs_erase b (ra_live_boots (r_authority r)) = ra_live_boots (r_authority r)"
    by (auto simp: hs_erase_def is_boot_live_def filter_id_conv)
  with False show ?thesis by (simp add: revoke_boot_internal_def)
qed

lemma revoke_boot_worker:
  "ra_boot_worker (r_authority (revoke_boot_internal b r)) =
    (if is_boot_live (r_authority r) b then hm_erase b (ra_boot_worker (r_authority r))
     else ra_boot_worker (r_authority r))"
  by (simp add: revoke_boot_internal_def Let_def split: option.splits)

lemma revoke_boot_current:
  "ra_current_boot (r_authority (revoke_boot_internal b r)) =
    (let owner = boot_owner (r_authority r) b
     in if is_boot_live (r_authority r) b
           \<and> hm_find (ra_current_boot (r_authority r)) owner = Some b
        then hm_put owner no_id (ra_current_boot (r_authority r))
        else ra_current_boot (r_authority r))"
  by (simp add: revoke_boot_internal_def Let_def boot_owner_def split: option.splits)

text \<open>Leases of dead instances are no longer active; other leases keep their state.\<close>

lemma expire_owned_lease_leases:
  "hm_find (r_leases (expire_owned_lease i r)) l =
    (if id_set (si_lease i) \<and> l = si_lease i then
       map_option (\<lambda>d. if ls_state d = LeaseState.ACTIVE then d\<lparr>ls_state := LeaseState.EXPIRED\<rparr>
         else d) (hm_find (r_leases r) l)
     else hm_find (r_leases r) l)"
  by (auto simp: expire_owned_lease_def split: option.splits)

lemma expire_owned_lease_inactive:
  "id_set (si_lease i) \<Longrightarrow> hm_find (r_leases (expire_owned_lease i r)) (si_lease i) = Some d \<Longrightarrow>
    ls_state d \<noteq> LeaseState.ACTIVE"
  by (auto simp: expire_owned_lease_def split: option.splits if_splits)

lemma revoke_instance_leases:
  "hm_find (r_leases (revoke_instance b r k)) l =
    (case hm_find (r_instances r) k of
       None \<Rightarrow> hm_find (r_leases r) l
     | Some i \<Rightarrow> if si_boot i = b then hm_find (r_leases (expire_owned_lease i r)) l
         else hm_find (r_leases r) l)"
  by (simp add: revoke_instance_def Let_def split: option.splits)

lemma revoke_instance_lease_state:
  "hm_find (r_leases (revoke_instance b r k)) l = Some d' \<Longrightarrow>
    \<exists>d. hm_find (r_leases r) l = Some d \<and> (d' = d \<or> d' = d\<lparr>ls_state := LeaseState.EXPIRED\<rparr>)"
  by (auto simp: revoke_instance_leases expire_owned_lease_leases split: option.splits if_splits)

lemma revoke_loop_lease_inactive:
  "(\<And>d. hm_find (r_leases r) l = Some d \<Longrightarrow> ls_state d \<noteq> LeaseState.ACTIVE) \<Longrightarrow>
    hm_find (r_leases (foldl (revoke_instance b) r ks)) l = Some d' \<Longrightarrow>
    ls_state d' \<noteq> LeaseState.ACTIVE"
proof (induction ks arbitrary: r)
  case (Cons k ks)
  show ?case
  proof (rule Cons.IH)
    show "ls_state d \<noteq> LeaseState.ACTIVE"
      if "hm_find (r_leases (revoke_instance b r k)) l = Some d" for d
      using revoke_instance_lease_state [OF that] Cons.prems(1) by auto
    show "hm_find (r_leases (foldl (revoke_instance b) (revoke_instance b r k) ks)) l = Some d'"
      using Cons.prems(2) by simp
  qed
qed simp

lemma revoke_loop_lease:
  assumes "k \<in> set ks" "hm_find (r_instances r) k = Some i" "si_boot i = b" "id_set (si_lease i)"
    and "hm_find (r_leases (foldl (revoke_instance b) r ks)) (si_lease i) = Some d"
  shows "ls_state d \<noteq> LeaseState.ACTIVE"
  using assms
proof (induction ks arbitrary: r i)
  case (Cons k' ks)
  let ?r = "revoke_instance b r k'"
  show ?case
  proof (cases "k' = k")
    case True
    have "ls_state d' \<noteq> LeaseState.ACTIVE"
      if "hm_find (r_leases ?r) (si_lease i) = Some d'" for d'
      using that Cons.prems
      by (auto simp: True revoke_instance_leases dest: expire_owned_lease_inactive)
    then show ?thesis
      using revoke_loop_lease_inactive [of ?r "si_lease i" b ks d] Cons.prems(5) by auto
  next
    case False
    then show ?thesis
      using Cons.IH [of ?r i] Cons.prems by auto
  qed
qed simp

text \<open>Endpoints bound to a dead instance are released.\<close>

definition released :: "EndpointDescriptor \<Rightarrow> EndpointDescriptor" where
  "released ep = ep\<lparr>ep_service_instance := no_id, ep_reachability := Reachability.UNREACHABLE\<rparr>"

lemma release_endpoint_find:
  "hm_find (release_endpoint owner eps eid) e =
    (if e = eid then
       map_option (\<lambda>ep. if ep_service_instance ep = owner then released ep else ep) (hm_find eps e)
     else hm_find eps e)"
  by (auto simp: release_endpoint_def released_def split: option.splits)

lemma release_loop_find:
  "hm_find (foldl (release_endpoint owner) eps eids) e =
    (if e \<in> set eids then
       map_option (\<lambda>ep. if ep_service_instance ep = owner then released ep else ep) (hm_find eps e)
     else hm_find eps e)"
proof (induction eids arbitrary: eps)
  case (Cons eid eids)
  show ?case
    by (cases "hm_find eps e") (auto simp: Cons release_endpoint_find released_def)
qed simp

lemma revoke_instance_endpoints:
  "hm_find (r_endpoints (revoke_instance b r k)) e =
    (case hm_find (r_instances r) k of
       None \<Rightarrow> hm_find (r_endpoints r) e
     | Some i \<Rightarrow> if si_boot i = b \<and> e \<in> set (si_endpoints i)
         then map_option (\<lambda>ep. if ep_service_instance ep = si_instance_id i then released ep else ep)
           (hm_find (r_endpoints r) e)
         else hm_find (r_endpoints r) e)"
  by (simp add: revoke_instance_def Let_def release_loop_find split: option.splits)

lemma revoke_loop_released:
  "hm_find (r_endpoints r) e = Some ep \<Longrightarrow> ep = released ep \<Longrightarrow>
    hm_find (r_endpoints (foldl (revoke_instance b) r ks)) e = Some ep"
proof (induction ks arbitrary: r)
  case (Cons k ks)
  have "hm_find (r_endpoints (revoke_instance b r k)) e = Some ep"
    using Cons.prems by (auto simp: revoke_instance_endpoints split: option.splits)
  with Cons show ?case by simp
qed simp

lemma released_released [simp]: "released (released ep) = released ep"
  by (simp add: released_def)

lemma revoke_loop_endpoints:
  "hm_find (r_endpoints r) e = Some ep \<Longrightarrow>
    hm_find (r_endpoints (foldl (revoke_instance b) r ks)) e = Some ep
    \<or> hm_find (r_endpoints (foldl (revoke_instance b) r ks)) e = Some (released ep)"
proof (induction ks arbitrary: r)
  case (Cons k ks)
  have "hm_find (r_endpoints (revoke_instance b r k)) e = Some ep
      \<or> hm_find (r_endpoints (revoke_instance b r k)) e = Some (released ep)"
    using Cons.prems by (simp add: revoke_instance_endpoints split: option.split)
  then show ?case
    using Cons.IH revoke_loop_released [of "revoke_instance b r k" e "released ep"] by auto
qed simp

lemma revoke_loop_release:
  assumes "k \<in> set ks" "hm_find (r_instances r) k = Some i" "si_boot i = b"
    and "e \<in> set (si_endpoints i)" "hm_find (r_endpoints r) e = Some ep"
    and "ep_service_instance ep = si_instance_id i"
  shows "hm_find (r_endpoints (foldl (revoke_instance b) r ks)) e = Some (released ep)"
  using assms
proof (induction ks arbitrary: r i)
  case (Cons k' ks)
  let ?r = "revoke_instance b r k'"
  show ?case
  proof (cases "hm_find (r_endpoints ?r) e = Some (released ep)")
    case True
    then show ?thesis using revoke_loop_released [OF True] by simp
  next
    case False
    have "hm_find (r_endpoints ?r) e = Some ep \<or> hm_find (r_endpoints ?r) e = Some (released ep)"
      using revoke_loop_endpoints [OF Cons.prems(5), of b "[k']"] by simp
    with False have same: "hm_find (r_endpoints ?r) e = Some ep" by simp
    show ?thesis
    proof (cases "k' = k")
      case True
      then have "hm_find (r_endpoints ?r) e = Some (released ep)"
        using Cons.prems by (simp add: revoke_instance_endpoints)
      with False show ?thesis by simp
    next
      case neq: False
      then show ?thesis
        using Cons.IH [of ?r i] Cons.prems same by simp
    qed
  qed
qed simp

section \<open>Incarnations\<close>

text \<open>
  The invariant of the authority state: a live boot belongs to a worker whose current boot it is,
  and no boot beyond the counter has been handed out.
\<close>

definition incarnation_inv :: "Registry \<Rightarrow> bool" where
  "incarnation_inv r \<longleftrightarrow>
    (let a = r_authority r in
      distinct (ra_live_boots a)
      \<and> (\<forall>b. is_boot_live a b \<longrightarrow> (\<exists>w. hm_find (ra_boot_worker a) b = Some w
            \<and> hm_find (ra_current_boot a) w = Some b))
      \<and> (\<forall>b. is_boot_live a b \<longrightarrow> id_set b \<and> id_value b \<le> r_next_boot r)
      \<and> (\<forall>w b. hm_find (ra_current_boot a) w = Some b \<longrightarrow> id_value b \<le> r_next_boot r))"

lemma incarnation_invI:
  assumes "distinct (ra_live_boots (r_authority r))"
    and "\<And>b. is_boot_live (r_authority r) b \<Longrightarrow> \<exists>w. hm_find (ra_boot_worker (r_authority r)) b = Some w
           \<and> hm_find (ra_current_boot (r_authority r)) w = Some b"
    and "\<And>b. is_boot_live (r_authority r) b \<Longrightarrow> id_set b \<and> id_value b \<le> r_next_boot r"
    and "\<And>w b. hm_find (ra_current_boot (r_authority r)) w = Some b \<Longrightarrow> id_value b \<le> r_next_boot r"
  shows "incarnation_inv r"
  using assms by (auto simp: incarnation_inv_def Let_def)

lemma incarnation_invD:
  assumes "incarnation_inv r"
  shows "distinct (ra_live_boots (r_authority r))"
    and "is_boot_live (r_authority r) b \<Longrightarrow> \<exists>w. hm_find (ra_boot_worker (r_authority r)) b = Some w
           \<and> hm_find (ra_current_boot (r_authority r)) w = Some b"
    and "is_boot_live (r_authority r) b \<Longrightarrow> id_set b \<and> id_value b \<le> r_next_boot r"
    and "hm_find (ra_current_boot (r_authority r)) w = Some b \<Longrightarrow> id_value b \<le> r_next_boot r"
  using assms by (simp_all add: incarnation_inv_def Let_def)

lemma incarnation_inv_cong: "auth_core r' = auth_core r \<Longrightarrow> incarnation_inv r' = incarnation_inv r"
  by (simp add: incarnation_inv_def Let_def auth_core_def is_boot_live_def)

lemma one_live_boot_per_worker:
  assumes "incarnation_inv r"
    and "is_boot_live (r_authority r) b" "is_boot_live (r_authority r) b'"
    and "hm_find (ra_boot_worker (r_authority r)) b = hm_find (ra_boot_worker (r_authority r)) b'"
  shows "b = b'"
  using incarnation_invD(2) [OF assms(1,2)] incarnation_invD(2) [OF assms(1,3)] assms(4) by auto

lemma incarnation_new_registry: "incarnation_inv (new_registry opts)"
  by (simp add: incarnation_inv_def new_registry_def rebuild_indexes_def default_RegistryAuthority_def
      is_boot_live_def)

lemma incarnation_begin_epoch: "incarnation_inv (begin_coordinator_epoch r)"
  by (simp add: incarnation_inv_def begin_coordinator_epoch_def is_boot_live_def)

lemma is_boot_live_revoke [simp]:
  "is_boot_live (r_authority (revoke_boot_internal b r)) b' \<longleftrightarrow>
    is_boot_live (r_authority r) b' \<and> b' \<noteq> b"
  by (simp add: is_boot_live_def)

lemma incarnation_revoke:
  assumes inv: "incarnation_inv r"
  shows "incarnation_inv (revoke_boot_internal b r)"
proof (rule incarnation_invI)
  show "distinct (ra_live_boots (r_authority (revoke_boot_internal b r)))"
    using incarnation_invD(1) [OF inv] by simp
next
  fix b' assume live: "is_boot_live (r_authority (revoke_boot_internal b r)) b'"
  then have "is_boot_live (r_authority r) b'" by simp
  then show "id_set b' \<and> id_value b' \<le> r_next_boot (revoke_boot_internal b r)"
    using incarnation_invD(3) [OF inv] by simp
  from incarnation_invD(2) [OF inv \<open>is_boot_live (r_authority r) b'\<close>]
  show "\<exists>w. hm_find (ra_boot_worker (r_authority (revoke_boot_internal b r))) b' = Some w
      \<and> hm_find (ra_current_boot (r_authority (revoke_boot_internal b r))) w = Some b'"
    using live by (auto simp: revoke_boot_worker revoke_boot_current Let_def)
next
  fix w b' assume "hm_find (ra_current_boot (r_authority (revoke_boot_internal b r))) w = Some b'"
  then have "b' = no_id \<or> hm_find (ra_current_boot (r_authority r)) w = Some b'"
    by (auto simp: revoke_boot_current Let_def split: if_splits)
  then show "id_value b' \<le> r_next_boot (revoke_boot_internal b r)"
    using incarnation_invD(4) [OF inv] by (auto simp: no_id_def)
qed

text \<open>The registry between the revocation of the previous boot and the recording of the new one.\<close>

definition adopt_base :: "WorkerId \<Rightarrow> Registry \<Rightarrow> Registry" where
  "adopt_base worker r =
    (let r0 = r\<lparr>r_next_boot := r_next_boot r + 1\<rparr>
     in case hm_find (ra_current_boot (r_authority r)) worker of
          None \<Rightarrow> r0
        | Some prev \<Rightarrow>
            if prev \<noteq> MkId (r_next_boot r + 1) then revoke_boot_internal prev r0 else r0)"

lemma adopt_worker_eq:
  "adopt_worker worker r =
    (let new_boot = MkId (r_next_boot r + 1); r1 = adopt_base worker r; a = r_authority r1
     in (new_boot, count ac_worker_restarts_update (r1\<lparr>r_authority :=
       a\<lparr>ra_current_boot := hm_put worker new_boot (ra_current_boot a),
         ra_live_boots := hs_insert new_boot (ra_live_boots a),
         ra_boot_worker := hm_put new_boot worker (ra_boot_worker a)\<rparr>\<rparr>)))"
  by (simp add: adopt_worker_def adopt_base_def Let_def split: option.split)

lemma adopt_base_next_boot [simp]: "r_next_boot (adopt_base worker r) = r_next_boot r + 1"
  by (simp add: adopt_base_def Let_def split: option.splits)

lemma incarnation_bump:
  assumes inv: "incarnation_inv r" and room: "r_next_boot r < r_next_boot r + 1"
  shows "incarnation_inv (r\<lparr>r_next_boot := r_next_boot r + 1\<rparr>)"
proof (rule incarnation_invI)
  show "distinct (ra_live_boots (r_authority (r\<lparr>r_next_boot := r_next_boot r + 1\<rparr>)))"
    using incarnation_invD(1) [OF inv] by simp
next
  fix b assume "is_boot_live (r_authority (r\<lparr>r_next_boot := r_next_boot r + 1\<rparr>)) b"
  then have live: "is_boot_live (r_authority r) b" by simp
  show "id_set b \<and> id_value b \<le> r_next_boot (r\<lparr>r_next_boot := r_next_boot r + 1\<rparr>)"
    using incarnation_invD(3) [OF inv live] room by (auto intro: order.trans [OF _ less_imp_le])
  show "\<exists>w. hm_find (ra_boot_worker (r_authority (r\<lparr>r_next_boot := r_next_boot r + 1\<rparr>))) b = Some w
     \<and> hm_find (ra_current_boot (r_authority (r\<lparr>r_next_boot := r_next_boot r + 1\<rparr>))) w = Some b"
    using incarnation_invD(2) [OF inv live] by simp
next
  fix w b assume "hm_find (ra_current_boot (r_authority (r\<lparr>r_next_boot := r_next_boot r + 1\<rparr>))) w = Some b"
  then show "id_value b \<le> r_next_boot (r\<lparr>r_next_boot := r_next_boot r + 1\<rparr>)"
    using incarnation_invD(4) [OF inv] room by fastforce
qed

lemma incarnation_adopt_base:
  "incarnation_inv r \<Longrightarrow> r_next_boot r < r_next_boot r + 1 \<Longrightarrow> incarnation_inv (adopt_base worker r)"
  by (simp add: adopt_base_def Let_def incarnation_bump incarnation_revoke split: option.split)

lemma adopt_base_not_live:
  assumes inv: "incarnation_inv r" and room: "r_next_boot r < r_next_boot r + 1"
    and "hm_find (ra_current_boot (r_authority r)) worker = Some b"
  shows "\<not> is_boot_live (r_authority (adopt_base worker r)) b"
proof -
  have "id_value b \<le> r_next_boot r" using incarnation_invD(4) [OF inv assms(3)] .
  then have "b \<noteq> MkId (r_next_boot r + 1)" using room by auto
  then show ?thesis using assms(3) by (simp add: adopt_base_def Let_def)
qed

lemma adopt_base_live:
  "is_boot_live (r_authority (adopt_base worker r)) b \<Longrightarrow> is_boot_live (r_authority r) b"
  by (auto simp: adopt_base_def Let_def split: option.splits if_splits)

lemma incarnation_adopt:
  assumes inv: "incarnation_inv r" and room: "r_next_boot r < r_next_boot r + 1"
  shows "incarnation_inv (snd (adopt_worker worker r))"
proof (rule incarnation_invI)
  let ?r1 = "adopt_base worker r" and ?new = "MkId (r_next_boot r + 1) :: WorkerBootId"
  let ?r = "snd (adopt_worker worker r)"
  note inv1 = incarnation_adopt_base [OF inv room, of worker]
  have live: "is_boot_live (r_authority ?r) b \<longleftrightarrow> b = ?new \<or> is_boot_live (r_authority ?r1) b" for b
    by (simp add: adopt_worker_eq Let_def is_boot_live_def)
  have next': "r_next_boot ?r = r_next_boot r + 1" by (simp add: adopt_worker_eq Let_def)
  show "distinct (ra_live_boots (r_authority ?r))"
    using incarnation_invD(1) [OF inv1] by (simp add: adopt_worker_eq Let_def)
  show "id_set b \<and> id_value b \<le> r_next_boot ?r" if "is_boot_live (r_authority ?r) b" for b
    using that incarnation_invD(3) [OF inv1, of b] room by (auto simp: live next' id_set_def)
  show "id_value b \<le> r_next_boot ?r"
    if "hm_find (ra_current_boot (r_authority ?r)) w = Some b" for w b
    using that incarnation_invD(4) [OF inv1, of w b]
    by (auto simp: adopt_worker_eq Let_def split: if_splits)
  show "\<exists>w. hm_find (ra_boot_worker (r_authority ?r)) b = Some w
      \<and> hm_find (ra_current_boot (r_authority ?r)) w = Some b"
    if "is_boot_live (r_authority ?r) b" for b
  proof (cases "b = ?new")
    case True
    then show ?thesis by (simp add: adopt_worker_eq Let_def)
  next
    case False
    with that have l1: "is_boot_live (r_authority ?r1) b" by (simp add: live)
    obtain w where w: "hm_find (ra_boot_worker (r_authority ?r1)) b = Some w"
      "hm_find (ra_current_boot (r_authority ?r1)) w = Some b"
      using incarnation_invD(2) [OF inv1 l1] by blast
    have "w \<noteq> worker"
    proof
      assume "w = worker"
      with w(2) have cur1: "hm_find (ra_current_boot (r_authority ?r1)) worker = Some b" by simp
      then have "hm_find (ra_current_boot (r_authority r)) worker = Some b \<or> b = no_id"
        by (auto simp: adopt_base_def Let_def revoke_boot_current split: option.splits if_splits)
      with l1 adopt_base_not_live [OF inv room] have "b = no_id" by blast
      with incarnation_invD(3) [OF inv1 l1] show False by (simp add: no_id_def id_set_def)
    qed
    with w False show ?thesis by (simp add: adopt_worker_eq Let_def)
  qed
qed

end
