(* ===== verification/RR_Invariants.thy ===== *)
theory RR_Invariants
  imports RR_Registration RR_Instances RR_Leases RR_Authority
begin

text \<open>
  The invariants of a registry and their preservation, operation by operation: the secondary
  indexes agree with the canonical records, an instance reported as available is backed by a live
  boot and current observations, no counter is negative, and lease generations are fenced by the
  registry's lease counter.
\<close>

section \<open>What registration leaves alone\<close>

text \<open>The parts of a registry that the invariants on instances and leases read.\<close>

definition instance_view where
  "instance_view r = (auth_core r, r_instances r, r_leases r, ra_lease_gen (r_authority r))"

lemma registration_view [frame_simps]:
  "instance_view (snd (register_service svc env r)) = instance_view r"
  "instance_view (snd (register_runtime rt env r)) = instance_view r"
  "instance_view (snd (register_protocol pd env r)) = instance_view r"
  "instance_view (snd (register_endpoint ep env r)) = instance_view r"
  "instance_view (snd (register_capability cap env r)) = instance_view r"
  "instance_view (snd (register_backend bd env r)) = instance_view r"
  "instance_view (snd (register_device dd env r)) = instance_view r"
  "instance_view (snd (register_node nd env r)) = instance_view r"
  by (simp_all add: instance_view_def register_service_def register_runtime_def
      register_protocol_def register_endpoint_def register_capability_def register_backend_def
      register_device_def register_node_def registration_simps commit_registry_generation_def
      split: option.splits)

text \<open>The parts that the index invariant reads; registering a service changes them.\<close>

definition index_view where
  "index_view r = (r_instances r, r_services r, r_index_by_kind r, r_index_by_service r,
     r_index_by_boot r, r_index_by_node r)"

lemma registration_index_view [frame_simps]:
  "index_view (snd (register_runtime rt env r)) = index_view r"
  "index_view (snd (register_protocol pd env r)) = index_view r"
  "index_view (snd (register_endpoint ep env r)) = index_view r"
  "index_view (snd (register_capability cap env r)) = index_view r"
  "index_view (snd (register_backend bd env r)) = index_view r"
  "index_view (snd (register_device dd env r)) = index_view r"
  "index_view (snd (register_node nd env r)) = index_view r"
  by (simp_all add: index_view_def register_runtime_def
      register_protocol_def register_endpoint_def register_capability_def register_backend_def
      register_device_def register_node_def registration_simps
      split: option.splits)

section \<open>Indexes\<close>

text \<open>Where an instance stands: what the indexes record about it.\<close>

definition placed ::
  "ServiceInstance \<Rightarrow> ServiceInstanceId \<times> ServiceId \<times> WorkerBootId \<times> NodeId" where
  "placed i = (si_instance_id i, si_service_id i, si_boot i, si_node i)"

definition placement ::
  "Registry \<Rightarrow> ServiceInstanceId \<Rightarrow>
    (ServiceInstanceId \<times> ServiceId \<times> WorkerBootId \<times> NodeId) option" where
  "placement r k = map_option placed (hm_find (r_instances r) k)"

text \<open>
  Every instance is stored under its own identity, and each index lists exactly the stored
  instances (for the index by kind: the services that have one).
\<close>

definition keyed :: "(ServiceInstanceId, ServiceInstance) hmap \<Rightarrow> bool" where
  "keyed m \<longleftrightarrow> hm_wf m \<and> (\<forall>k i. hm_find m k = Some i \<longrightarrow> si_instance_id i = k)"

definition keys_ok :: "Registry \<Rightarrow> bool" where
  "keys_ok r \<longleftrightarrow> keyed (r_instances r)"

lemma keyed_put: "keyed m \<Longrightarrow> si_instance_id i = k \<Longrightarrow> keyed (hm_put k i m)"
  by (simp add: keyed_def)

definition index_ok :: "Registry \<Rightarrow> bool" where
  "index_ok r \<longleftrightarrow>
    (\<forall>s. index_members (r_index_by_service r) s = {k. \<exists>b n. placement r k = Some (k, s, b, n)})
    \<and> (\<forall>b. index_members (r_index_by_boot r) b = {k. \<exists>s n. placement r k = Some (k, s, b, n)})
    \<and> (\<forall>n. index_members (r_index_by_node r) n = {k. \<exists>s b. placement r k = Some (k, s, b, n)})
    \<and> (\<forall>kd. index_members (r_index_by_kind r) kd =
          {s. \<exists>k b n svc. placement r k = Some (k, s, b, n)
            \<and> hm_find (r_services r) s = Some svc \<and> svc_kind svc = kd})"

text \<open>The rebuild loop, started from any indexes, adds exactly the members of the list.\<close>

lemma index_loop:
  assumes "foldl (\<lambda>ix (_, inst). index_step svcs inst ix) (kx, sx, bx, nx) m = (kx', sx', bx', nx')"
  shows "index_members sx' s = index_members sx s \<union> {si_instance_id i |i. i \<in> snd ` set m \<and> si_service_id i = s}
    \<and> index_members bx' b = index_members bx b \<union> {si_instance_id i |i. i \<in> snd ` set m \<and> si_boot i = b}
    \<and> index_members nx' n = index_members nx n \<union> {si_instance_id i |i. i \<in> snd ` set m \<and> si_node i = n}
    \<and> index_members kx' kd = index_members kx kd \<union> {si_service_id i |i svc. i \<in> snd ` set m
          \<and> hm_find svcs (si_service_id i) = Some svc \<and> svc_kind svc = kd}"
  using assms
proof (induction m arbitrary: kx sx bx nx)
  case (Cons p m)
  obtain k i where p: "p = (k, i)" by (cases p)
  obtain k1 s1 b1 n1 where 1: "index_step svcs i (kx, sx, bx, nx) = (k1, s1, b1, n1)"
    by (metis prod_cases4)
  then have "index_members s1 s = index_members sx s \<union> {si_instance_id i |j. j = i \<and> si_service_id i = s}"
    "index_members b1 b = index_members bx b \<union> {si_instance_id i |j. j = i \<and> si_boot i = b}"
    "index_members n1 n = index_members nx n \<union> {si_instance_id i |j. j = i \<and> si_node i = n}"
    "index_members k1 kd = index_members kx kd \<union> {si_service_id i |j svc. j = i
       \<and> hm_find svcs (si_service_id i) = Some svc \<and> svc_kind svc = kd}"
    by (auto simp: index_step_def split: option.splits if_splits)
  moreover have "foldl (\<lambda>ix (_, inst). index_step svcs inst ix) (k1, s1, b1, n1) m = (kx', sx', bx', nx')"
    using Cons.prems by (simp add: p 1)
  note Cons.IH [OF this]
  ultimately show ?case by (auto simp: p)
qed simp

lemma placed_eq:
  "placed i = (k, s, b, n) \<longleftrightarrow>
    si_instance_id i = k \<and> si_service_id i = s \<and> si_boot i = b \<and> si_node i = n"
  by (auto simp: placed_def)

lemma placement_iff:
  assumes "keys_ok r"
  shows "placement r k = Some (k, s, b, n) \<longleftrightarrow>
    (\<exists>i. i \<in> snd ` set (r_instances r) \<and> placed i = (k, s, b, n))"
proof
  assume "placement r k = Some (k, s, b, n)"
  then obtain i where "hm_find (r_instances r) k = Some i" "placed i = (k, s, b, n)"
    by (auto simp: placement_def)
  then show "\<exists>i. i \<in> snd ` set (r_instances r) \<and> placed i = (k, s, b, n)"
    by (force dest: hm_find_in_set)
next
  assume "\<exists>i. i \<in> snd ` set (r_instances r) \<and> placed i = (k, s, b, n)"
  then obtain k' i where i: "(k', i) \<in> set (r_instances r)" "placed i = (k, s, b, n)" by auto
  then have "hm_find (r_instances r) k' = Some i"
    using assms by (simp add: keys_ok_def keyed_def in_set_hm_find)
  moreover from this have "k' = k"
    using assms i(2) by (auto simp: keys_ok_def keyed_def placed_eq)
  ultimately show "placement r k = Some (k, s, b, n)" using i(2) by (simp add: placement_def)
qed

lemma rebuild_index_ok:
  assumes "keys_ok r"
  shows "index_ok (rebuild_indexes r)"
proof -
  obtain kx sx bx nx where ix: "foldl (\<lambda>ix (_, inst). index_step (r_services r) inst ix)
      ([], [], [], []) (r_instances r) = (kx, sx, bx, nx)"
    by (metis prod_cases4)
  have pl: "placement (rebuild_indexes r) = placement r"
    by (simp add: placement_def fun_eq_iff)
  have rb: "r_index_by_service (rebuild_indexes r) = sx" "r_index_by_boot (rebuild_indexes r) = bx"
    "r_index_by_node (rebuild_indexes r) = nx" "r_index_by_kind (rebuild_indexes r) = kx"
    by (simp_all add: rebuild_indexes_def ix)
  show ?thesis
    unfolding index_ok_def pl rb placement_iff [OF assms] placed_eq
    using index_loop [OF ix] by auto
qed

lemma index_ok_cong:
  assumes "placement r' = placement r" "r_services r' = r_services r"
    "r_index_by_service r' = r_index_by_service r" "r_index_by_boot r' = r_index_by_boot r"
    "r_index_by_node r' = r_index_by_node r" "r_index_by_kind r' = r_index_by_kind r"
  shows "index_ok r' = index_ok r"
  by (simp add: index_ok_def assms)

text \<open>Identities and indexes together, and all that they depend on.\<close>

definition structure_ok :: "Registry \<Rightarrow> bool" where
  "structure_ok r \<longleftrightarrow> keys_ok r \<and> index_ok r"

definition structure_view where
  "structure_view r = (hm_wf (r_instances r), placement r, r_services r, r_index_by_kind r,
     r_index_by_service r, r_index_by_boot r, r_index_by_node r)"

lemma keys_ok_alt:
  "keys_ok r \<longleftrightarrow> hm_wf (r_instances r) \<and> (\<forall>k p. placement r k = Some p \<longrightarrow> fst p = k)"
  by (auto simp: keys_ok_def keyed_def placement_def placed_def)

lemma structure_ok_cong: "structure_view r' = structure_view r \<Longrightarrow> structure_ok r' = structure_ok r"
  by (simp add: structure_ok_def structure_view_def keys_ok_alt index_ok_def)

lemma index_view_structure: "index_view r' = index_view r \<Longrightarrow> structure_view r' = structure_view r"
  by (simp add: index_view_def structure_view_def placement_def fun_eq_iff)

lemma structure_keep: "structure_ok r \<Longrightarrow> structure_view r' = structure_view r \<Longrightarrow> structure_ok r'"
  using structure_ok_cong by blast

lemmas structure_register [frame_simps] =
  registration_index_view [THEN index_view_structure]

lemma structure_view_simps [simp]:
  "structure_view (count f r) = structure_view r"
  "structure_view (uncount f r) = structure_view r"
  "structure_view (commit_registry_generation r) = structure_view r"
  "structure_view (r\<lparr>r_authority := a\<rparr>) = structure_view r"
  "structure_view (r\<lparr>r_endpoints := e\<rparr>) = structure_view r"
  "structure_view (r\<lparr>r_capabilities := c\<rparr>) = structure_view r"
  "structure_view (r\<lparr>r_leases := l\<rparr>) = structure_view r"
  "structure_view (r\<lparr>r_tombstones := t\<rparr>) = structure_view r"
  "structure_view (r\<lparr>r_invalidations := iv\<rparr>) = structure_view r"
  "structure_view (r\<lparr>r_instance_history := h\<rparr>) = structure_view r"
  "structure_view (r\<lparr>r_next_id := n\<rparr>) = structure_view r"
  "structure_view (r\<lparr>r_next_boot := b\<rparr>) = structure_view r"
  by (simp_all add: structure_view_def placement_def fun_eq_iff)

text \<open>Storing an instance in its own place changes no placement.\<close>

lemma hm_keys_put: "hm_find m k = Some v \<Longrightarrow> map fst (hm_put k v' m) = map fst m"
  by (induction m) (auto split: if_splits)

lemma structure_view_put:
  assumes "hm_find (r_instances r) k = Some i" "placed i' = placed i"
    and "structure_view r' = structure_view r" "r_instances r' = r_instances r"
  shows "structure_view (r'\<lparr>r_instances := hm_put k i' (r_instances r)\<rparr>) = structure_view r"
proof -
  have "hm_wf (hm_put k i' (r_instances r)) = hm_wf (r_instances r)"
    using assms(1) by (simp add: hm_wf_def hm_keys_put)
  then show ?thesis
    using assms by (auto simp: structure_view_def placement_def fun_eq_iff)
qed

lemma placed_simps [simp]:
  "placed (i\<lparr>si_lifecycle := l\<rparr>) = placed i"
  "placed (i\<lparr>si_health := h\<rparr>) = placed i"
  "placed (i\<lparr>si_readiness := rd\<rparr>) = placed i"
  "placed (i\<lparr>si_freshness := f\<rparr>) = placed i"
  "placed (i\<lparr>si_reachability := rc\<rparr>) = placed i"
  "placed (reclassify_lifecycle r i) = placed i"
  "placed (kill_instance i) = placed i"
  "placed (revalidate_instance i) = placed i"
  by (simp_all add: placed_def reclassify_lifecycle_def Let_def)

lemma reclassify_ids [simp]:
  "si_instance_id (reclassify_lifecycle r i) = si_instance_id i"
  "si_service_id (reclassify_lifecycle r i) = si_service_id i"
  "si_boot (reclassify_lifecycle r i) = si_boot i" "si_node (reclassify_lifecycle r i) = si_node i"
  "si_endpoints (reclassify_lifecycle r i) = si_endpoints i"
  "si_lease (reclassify_lifecycle r i) = si_lease i"
  "si_instance_generation (reclassify_lifecycle r i) = si_instance_generation i"
  "si_freshness (reclassify_lifecycle r i) = si_freshness i"
  "si_readiness (reclassify_lifecycle r i) = si_readiness i"
  by (simp_all add: reclassify_lifecycle_def Let_def)

lemma structure_update_instance [frame_simps]:
  "(\<And>i. placed (f i) = placed i) \<Longrightarrow>
    structure_view (snd (update_instance iid f k m env r)) = structure_view r"
  by (simp add: update_instance_def with_authority_def throw_def Let_def structure_view_put
      split: option.split)

lemma structure_updates [frame_simps]:
  "structure_view (snd (update_health iid h env r)) = structure_view r"
  "structure_view (snd (update_readiness iid rd env r)) = structure_view r"
  "structure_view (snd (update_freshness iid f env r)) = structure_view r"
  "structure_view (snd (update_instance_reachability iid rc env r)) = structure_view r"
  by (simp_all add: update_health_def update_readiness_def update_freshness_def
      update_instance_reachability_def frame_simps)

lemma structure_update_reachability [frame_simps]:
  "structure_view (snd (update_reachability eid rc env r)) = structure_view r"
  by (simp add: update_reachability_def with_authority_def throw_def Let_def structure_view_put
      split: option.split)

lemma structure_deregister [frame_simps]:
  "structure_view (snd (deregister iid env r)) = structure_view r"
  by (simp add: deregister_def with_authority_def throw_def Let_def structure_view_put
      split: option.split)

lemma structure_leases [frame_simps]:
  "structure_view (snd (acquire_lease l env r)) = structure_view r"
  "structure_view (snd (renew_lease lid env r)) = structure_view r"
  "structure_view (snd (expire_lease lid env r)) = structure_view r"
  "structure_view (snd (revoke_lease lid env r)) = structure_view r"
  "structure_view (mark_lease_revalidation_required lid r) = structure_view r"
  "structure_view (snd (invalidate iv env r)) = structure_view r"
  "structure_view (snd (create_tombstone tb env r)) = structure_view r"
  by (simp_all add: acquire_lease_def renew_lease_def expire_lease_def revoke_lease_def
      end_lease_def mark_lease_revalidation_required_def invalidate_def create_tombstone_def
      with_authority_def throw_def Let_def take_next_id_def split: option.split prod.split)

lemma structure_expire_owned [simp]: "structure_view (expire_owned_lease i r) = structure_view r"
  by (simp add: expire_owned_lease_def split: option.split)

lemma structure_revoke_instance [simp]:
  "structure_view (revoke_instance b r k) = structure_view r"
  by (simp add: revoke_instance_def Let_def structure_view_put split: option.split)

lemma structure_revoke_loop [simp]:
  "structure_view (foldl (revoke_instance b) r ks) = structure_view r"
  by (induction ks arbitrary: r) simp_all

lemma structure_authority [frame_simps]:
  "structure_view (revoke_boot_internal b r) = structure_view r"
  "structure_view (mark_worker_died b r) = structure_view r"
  "structure_view (snd (adopt_worker w r)) = structure_view r"
  "structure_view (set_worker_health_reporting w e r) = structure_view r"
  "structure_view (begin_coordinator_epoch r) = structure_view r"
proof -
  show rev: "structure_view (revoke_boot_internal b r) = structure_view r" for b r
    by (simp add: revoke_boot_internal_def Let_def)
  then show "structure_view (mark_worker_died b r) = structure_view r"
    by (simp add: mark_worker_died_def)
  show "structure_view (snd (adopt_worker w r)) = structure_view r"
    by (simp add: adopt_worker_def Let_def rev split: option.split)
  show "structure_view (set_worker_health_reporting w e r) = structure_view r"
    by (simp add: set_worker_health_reporting_def)
  have "map_option placed (map_option revalidate_instance x) = map_option placed x" for x
    by (cases x) simp_all
  then show "structure_view (begin_coordinator_epoch r) = structure_view r"
    by (simp add: begin_coordinator_epoch_def structure_view_def placement_def fun_eq_iff)
qed

text \<open>Registration of a service and of an instance rebuild the indexes.\<close>

lemma structure_register_service:
  "structure_ok r \<Longrightarrow> structure_ok (snd (register_service svc env r))"
proof -
  assume ok: "structure_ok r"
  have "structure_ok (rebuild_indexes r')" if "r_instances r' = r_instances r" for r'
    using ok rebuild_index_ok [of r'] that by (simp add: structure_ok_def keys_ok_def)
  moreover have "structure_ok (count f r)" for f
    using ok structure_ok_cong by (metis structure_view_simps(1))
  ultimately show ?thesis
    using ok by (simp add: register_service_def registration_simps split: option.split)
qed

lemma bind_endpoints_frame [simp]:
  "structure_view (snd (bind_endpoints iid eids r)) = structure_view r"
  "auth_core (snd (bind_endpoints iid eids r)) = auth_core r"
  "r_authority (snd (bind_endpoints iid eids r)) = r_authority r"
  "r_instances (snd (bind_endpoints iid eids r)) = r_instances r"
  "r_leases (snd (bind_endpoints iid eids r)) = r_leases r"
  "r_services (snd (bind_endpoints iid eids r)) = r_services r"
  "r_capabilities (snd (bind_endpoints iid eids r)) = r_capabilities r"
  by (induction eids arbitrary: r) (simp_all add: Let_def split: option.split)

lemma find_current_loop:
  "foldl (\<lambda>cur (iid, existing).
      if si_service_id existing = sid \<and> \<not> historical (si_lifecycle existing) then
        (case cur of
           None \<Rightarrow> Some (iid, existing)
         | Some (_, best) \<Rightarrow>
             if si_instance_generation existing > si_instance_generation best
             then Some (iid, existing) else cur)
      else cur) acc m = Some (k, i) \<Longrightarrow>
    acc = Some (k, i) \<or> (k, i) \<in> set m \<and> si_service_id i = sid \<and> \<not> historical (si_lifecycle i)"
proof (induction m arbitrary: acc)
  case (Cons p m)
  obtain k' i' where p: "p = (k', i')" by (cases p)
  from Cons.prems have "(if si_service_id i' = sid \<and> \<not> historical (si_lifecycle i') then
        (case acc of None \<Rightarrow> Some (k', i')
         | Some (_, best) \<Rightarrow> if si_instance_generation i' > si_instance_generation best
             then Some (k', i') else acc) else acc) = Some (k, i)
      \<or> (k, i) \<in> set m \<and> si_service_id i = sid \<and> \<not> historical (si_lifecycle i)"
    by (intro Cons.IH) (simp add: p)
  then show ?case by (auto simp: p split: if_splits option.splits)
qed simp

lemma find_current_Some:
  "find_current sid m = Some (k, i) \<Longrightarrow>
    (k, i) \<in> set m \<and> si_service_id i = sid \<and> \<not> historical (si_lifecycle i)"
  using find_current_loop [of sid None m k i] by (simp add: find_current_def)

lemma structure_commit_instance:
  assumes ok: "structure_ok r"
  shows "structure_ok (snd (commit_instance copy r))"
proof -
  obtain e r1 where b: "bind_endpoints (si_instance_id copy) (si_endpoints copy) r = (e, r1)"
    by fastforce
  have ok1: "structure_ok r1"
    using ok structure_ok_cong bind_endpoints_frame(1) by (metis b snd_conv)
  have "keys_ok r'" if "r_instances r' = hm_put (si_instance_id copy)
      (reclassify_lifecycle r2 copy) (hm_put (si_instance_id copy) copy (r_instances r1))" for r' r2
    using ok1 that keyed_put [of _ "reclassify_lifecycle r2 copy"] keyed_put [of _ copy]
    by (simp add: structure_ok_def keys_ok_def)
  then have "structure_ok (rebuild_indexes r')" if "r_instances r' = hm_put (si_instance_id copy)
      (reclassify_lifecycle r2 copy) (hm_put (si_instance_id copy) copy (r_instances r1))" for r' r2
    using that rebuild_index_ok [of r'] by (simp add: structure_ok_def keys_ok_def)
  then show ?thesis
    using ok1 by (simp add: commit_instance_def b Let_def split: option.split)
qed

text \<open>
  Registration of an instance, as the edits it is made of: a property that every edit preserves is
  preserved by the operation, and by supersession, on every path.
\<close>

lemma find_current_stored:
  "keys_ok r \<Longrightarrow> find_current sid (r_instances r) = Some (k, i) \<Longrightarrow>
    hm_find (r_instances r) k = Some i"
  using find_current_Some in_set_hm_find by (fastforce simp: keys_ok_def keyed_def)

lemma register_instance_preserves:
  assumes "good r"
    and keys: "\<And>r. good r \<Longrightarrow> keys_ok r"
    and next_id: "\<And>r n. good r \<Longrightarrow> good (r\<lparr>r_next_id := n\<rparr>)"
    and conflict: "\<And>r. good r \<Longrightarrow> good (count ac_duplicate_conflict_rejections_update r)"
    and stale: "\<And>r. good r \<Longrightarrow> good (count ac_stale_mutation_rejections_update r)"
    and supersession: "\<And>r k i. good r \<Longrightarrow> hm_find (r_instances r) k = Some i \<Longrightarrow>
      good (count ac_supersessions_update (uncount ac_available_instances_update
        (r\<lparr>r_instance_history := r_instance_history r @ [i],
           r_instances := hm_put k (i\<lparr>si_lifecycle := Lifecycle.SUPERSEDED\<rparr>) (r_instances r)\<rparr>)))"
    and commit: "\<And>r copy. good r \<Longrightarrow> good (snd (commit_instance copy r))"
  shows "good (snd (register_instance inst env r))"
proof -
  have placed: "good (snd (place_instance copy r))" if "good r" for copy r
  proof (cases "find_current (si_service_id copy) (r_instances r)")
    case None
    then show ?thesis
      using that stale commit by (simp add: place_instance_def)
  next
    case (Some p)
    obtain k i where p: "p = (k, i)" by (cases p)
    have "good (count ac_supersessions_update (uncount ac_available_instances_update
        (r\<lparr>r_instance_history := r_instance_history r @ [i],
           r_instances := hm_put k (i\<lparr>si_lifecycle := Lifecycle.SUPERSEDED\<rparr>) (r_instances r)\<rparr>)))"
      using find_current_stored [OF keys [OF that] Some [unfolded p]] that
      by (rule supersession [rotated])
    then show ?thesis
      using that conflict commit Some p by (simp add: place_instance_def)
  qed
  have "good (snd (assign_instance_id inst r))"
    using assms(1) next_id by (simp add: assign_instance_id_def Let_def take_next_id_def)
  then show ?thesis
    using assms(1) placed
    by (cases "assign_instance_id inst r") (simp add: register_instance_def with_authority_def throw_def Let_def)
qed

lemma supersede_preserves:
  assumes "good r"
    and first: "\<And>r k i. good r \<Longrightarrow> hm_find (r_instances r) k = Some i \<Longrightarrow>
      good (uncount ac_available_instances_update
        (r\<lparr>r_instance_history := r_instance_history r @ [i],
           r_instances := hm_put k (i\<lparr>si_lifecycle := Lifecycle.SUPERSEDED\<rparr>) (r_instances r)\<rparr>))"
    and second: "\<And>r. good r \<Longrightarrow> good (snd (register_instance new_inst env r))"
    and counted: "\<And>r. good r \<Longrightarrow> good (count ac_supersessions_update r)"
  shows "good (snd (supersede old_id new_inst env r))"
proof (cases "av_accept (validate_envelope r env)")
  case True
  show ?thesis
  proof (cases "hm_find (r_instances r) old_id")
    case None
    with assms(1) show ?thesis by (simp add: supersede_def with_authority_def throw_def Let_def)
  next
    case (Some old)
    let ?r1 = "uncount ac_available_instances_update
        (r\<lparr>r_instance_history := r_instance_history r @ [old],
           r_instances := hm_put old_id (old\<lparr>si_lifecycle := Lifecycle.SUPERSEDED\<rparr>) (r_instances r)\<rparr>)"
    have "good (snd (register_instance new_inst env ?r1))"
      using first [OF assms(1) Some] by (rule second)
    moreover obtain res r2 where "register_instance new_inst env ?r1 = (res, r2)" by fastforce
    ultimately show ?thesis
      using True Some counted
      by (cases res) (simp_all add: supersede_def with_authority_def throw_def Let_def)
  qed
next
  case False
  with assms(1) show ?thesis by (simp add: supersede_def with_authority_reject)
qed

lemma structure_supersession:
  "hm_find (r_instances r) k = Some i \<Longrightarrow>
    structure_view (r\<lparr>r_instance_history := h,
      r_instances := hm_put k (i\<lparr>si_lifecycle := l\<rparr>) (r_instances r)\<rparr>) = structure_view r"
  by (simp add: structure_view_put)

lemma structure_register_instance:
  "structure_ok r \<Longrightarrow> structure_ok (snd (register_instance inst env r))"
  by (rule register_instance_preserves [where good = structure_ok])
    (auto simp: structure_ok_def [THEN iffD1] structure_commit_instance structure_supersession
      structure_ok_cong [of "count _ _"] structure_ok_cong [of "_\<lparr>r_next_id := _\<rparr>"])

lemma structure_supersede:
  "structure_ok r \<Longrightarrow> structure_ok (snd (supersede iid inst env r))"
  by (rule supersede_preserves [where good = structure_ok])
    (auto simp: structure_register_instance structure_supersession
      structure_ok_cong [of "count _ _"] structure_ok_cong [of "uncount _ _"])

section \<open>Available instances are backed\<close>

text \<open>What must hold of an instance that is reported as available.\<close>

definition backed :: "Registry \<Rightarrow> ServiceInstance \<Rightarrow> bool" where
  "backed r i \<longleftrightarrow> si_lifecycle i = Lifecycle.AVAILABLE \<longrightarrow>
     is_boot_live (r_authority r) (si_boot i) \<and> si_freshness i = Freshness.CURRENT
     \<and> si_readiness i = Readiness.READY \<and> si_reachability i = Reachability.REACHABLE
     \<and> (si_health i = Health.HEALTHY \<or> si_health i = Health.UNKNOWN)"

definition available_ok :: "Registry \<Rightarrow> bool" where
  "available_ok r \<longleftrightarrow> (\<forall>k i. hm_find (r_instances r) k = Some i \<longrightarrow> backed r i)"

lemma backed_cong: "auth_core r' = auth_core r \<Longrightarrow> backed r' i = backed r i"
  by (simp add: backed_def auth_core_live [of r' r])

lemma available_ok_cong:
  "auth_core r' = auth_core r \<Longrightarrow> r_instances r' = r_instances r \<Longrightarrow>
    available_ok r' = available_ok r"
  by (simp add: available_ok_def backed_cong [of r' r])

lemma available_view_cong: "instance_view r' = instance_view r \<Longrightarrow> available_ok r \<Longrightarrow> available_ok r'"
  by (simp add: available_ok_cong [of r' r] instance_view_def)

lemma available_ok_simps [simp]:
  "available_ok (count f r) = available_ok r"
  "available_ok (uncount f r) = available_ok r"
  "available_ok (commit_registry_generation r) = available_ok r"
  "available_ok (rebuild_indexes r) = available_ok r"
  "available_ok (r\<lparr>r_endpoints := e\<rparr>) = available_ok r"
  "available_ok (r\<lparr>r_capabilities := c\<rparr>) = available_ok r"
  "available_ok (r\<lparr>r_leases := l\<rparr>) = available_ok r"
  "available_ok (r\<lparr>r_tombstones := t\<rparr>) = available_ok r"
  "available_ok (r\<lparr>r_invalidations := iv\<rparr>) = available_ok r"
  "available_ok (r\<lparr>r_instance_history := h\<rparr>) = available_ok r"
  "available_ok (r\<lparr>r_next_id := n\<rparr>) = available_ok r"
  "available_ok (r\<lparr>r_authority := (r_authority r)\<lparr>ra_lease_gen := g\<rparr>\<rparr>) = available_ok r"
  "available_ok (r\<lparr>r_next_id := n, r_authority := (r_authority r)\<lparr>ra_lease_gen := g\<rparr>\<rparr>) =
    available_ok r"
  by (rule available_ok_cong; simp add: auth_core_def)+

lemma available_put:
  "available_ok r \<Longrightarrow> auth_core r' = auth_core r \<Longrightarrow> backed r i \<Longrightarrow>
    available_ok (r'\<lparr>r_instances := hm_put k i (r_instances r)\<rparr>)"
  by (auto simp: available_ok_def backed_def is_boot_live_def auth_core_def)

lemma available_put_twice:
  "available_ok r \<Longrightarrow> auth_core r' = auth_core r \<Longrightarrow> backed r i \<Longrightarrow>
    available_ok (r'\<lparr>r_instances := hm_put k i (hm_put k j (r_instances r))\<rparr>)"
  by (auto simp: available_ok_def backed_def is_boot_live_def auth_core_def)

lemma backed_not_available [simp]: "si_lifecycle i \<noteq> Lifecycle.AVAILABLE \<Longrightarrow> backed r i"
  by (simp add: backed_def)

lemma backed_reclassify: "auth_core r' = auth_core r \<Longrightarrow> backed r (reclassify_lifecycle r' i)"
  by (auto simp: backed_def reclassify_lifecycle_def Let_def classify_available
      auth_core_live [of r' r])

lemma available_register [inv_intros]:
  "available_ok r \<Longrightarrow> available_ok (snd (register_service svc env r))"
  "available_ok r \<Longrightarrow> available_ok (snd (register_runtime rt env r))"
  "available_ok r \<Longrightarrow> available_ok (snd (register_protocol pd env r))"
  "available_ok r \<Longrightarrow> available_ok (snd (register_endpoint ep env r))"
  "available_ok r \<Longrightarrow> available_ok (snd (register_capability cap env r))"
  "available_ok r \<Longrightarrow> available_ok (snd (register_backend bd env r))"
  "available_ok r \<Longrightarrow> available_ok (snd (register_device dd env r))"
  "available_ok r \<Longrightarrow> available_ok (snd (register_node nd env r))"
  by (auto elim: available_view_cong [OF registration_view(1)]
      available_view_cong [OF registration_view(2)] available_view_cong [OF registration_view(3)]
      available_view_cong [OF registration_view(4)] available_view_cong [OF registration_view(5)]
      available_view_cong [OF registration_view(6)] available_view_cong [OF registration_view(7)]
      available_view_cong [OF registration_view(8)])

lemma available_update_instance:
  "available_ok r \<Longrightarrow> available_ok (snd (update_instance iid f k m env r))"
  by (simp add: update_instance_def with_authority_def throw_def Let_def available_put
      backed_reclassify split: option.split)

lemma available_updates [inv_intros]:
  "available_ok r \<Longrightarrow> available_ok (snd (update_health iid h env r))"
  "available_ok r \<Longrightarrow> available_ok (snd (update_readiness iid rd env r))"
  "available_ok r \<Longrightarrow> available_ok (snd (update_freshness iid f env r))"
  "available_ok r \<Longrightarrow> available_ok (snd (update_instance_reachability iid rc env r))"
  by (simp_all add: update_health_def update_readiness_def update_freshness_def
      update_instance_reachability_def available_update_instance)

lemma available_update_reachability [inv_intros]:
  "available_ok r \<Longrightarrow> available_ok (snd (update_reachability eid rc env r))"
  by (simp add: update_reachability_def with_authority_def throw_def Let_def available_put
      backed_reclassify split: option.split)

lemma available_deregister [inv_intros]:
  "available_ok r \<Longrightarrow> available_ok (snd (deregister iid env r))"
  by (simp add: deregister_def with_authority_def throw_def Let_def available_put
      split: option.split)

lemma available_leases [inv_intros]:
  "available_ok r \<Longrightarrow> available_ok (snd (acquire_lease l env r))"
  "available_ok r \<Longrightarrow> available_ok (snd (renew_lease lid env r))"
  "available_ok r \<Longrightarrow> available_ok (snd (expire_lease lid env r))"
  "available_ok r \<Longrightarrow> available_ok (snd (revoke_lease lid env r))"
  "available_ok r \<Longrightarrow> available_ok (mark_lease_revalidation_required lid r)"
  "available_ok r \<Longrightarrow> available_ok (snd (invalidate iv env r))"
  "available_ok r \<Longrightarrow> available_ok (snd (create_tombstone tb env r))"
  by (simp_all add: acquire_lease_def renew_lease_def expire_lease_def revoke_lease_def
      end_lease_def mark_lease_revalidation_required_def invalidate_def create_tombstone_def
      with_authority_def throw_def Let_def take_next_id_def split: option.split)

lemma available_commit_instance:
  "available_ok r \<Longrightarrow> available_ok (snd (commit_instance copy r))"
proof -
  assume ok: "available_ok r"
  obtain e r1 where b: "bind_endpoints (si_instance_id copy) (si_endpoints copy) r = (e, r1)"
    by fastforce
  have core: "auth_core r1 = auth_core r" "r_instances r1 = r_instances r"
    using bind_endpoints_frame(2,4) [of "si_instance_id copy" "si_endpoints copy" r]
    by (simp_all add: b)
  then show ?thesis
    using ok available_ok_cong [OF core]
    by (cases e) (simp_all add: commit_instance_def b Let_def available_put_twice backed_reclassify)
qed

lemma available_register_instance [inv_intros]:
  assumes "structure_ok r" "available_ok r"
  shows "available_ok (snd (register_instance inst env r))"
proof -
  have "structure_ok (snd (register_instance inst env r)) \<and>
      available_ok (snd (register_instance inst env r))"
    by (rule register_instance_preserves [where good = "\<lambda>r. structure_ok r \<and> available_ok r"])
      (use assms in \<open>auto simp: structure_ok_def [THEN iffD1] structure_commit_instance
        structure_supersession structure_ok_cong [of "count _ _"] available_commit_instance
        available_put structure_ok_cong [of "_\<lparr>r_next_id := _\<rparr>"]\<close>)
  then show ?thesis ..
qed

lemma available_supersede [inv_intros]:
  assumes "structure_ok r" "available_ok r"
  shows "available_ok (snd (supersede iid inst env r))"
proof -
  have "structure_ok (snd (supersede iid inst env r)) \<and>
      available_ok (snd (supersede iid inst env r))"
    by (rule supersede_preserves [where good = "\<lambda>r. structure_ok r \<and> available_ok r"])
      (use assms in \<open>auto simp: structure_register_instance available_register_instance
        structure_supersession structure_ok_cong [of "count _ _"]
        structure_ok_cong [of "uncount _ _"] available_put\<close>)
  then show ?thesis ..
qed

text \<open>Losing a boot or an epoch demotes every instance that depended on it.\<close>

lemma backed_dead_for:
  "backed r i \<Longrightarrow> backed (revoke_boot_internal b r) (dead_for b i)"
  by (cases "si_boot i = b") (simp_all add: backed_def dead_for_def)

lemma backed_revoke:
  "\<not> is_boot_live (r_authority r) b \<Longrightarrow> backed r i \<Longrightarrow> backed (revoke_boot_internal b r) i"
  by (auto simp: backed_def)

lemma available_revoke: "available_ok r \<Longrightarrow> available_ok (revoke_boot_internal b r)"
  unfolding available_ok_def revoke_boot_instances
  by (auto simp: backed_dead_for backed_revoke split: if_splits)

lemma revalidate_not_available: "si_lifecycle (revalidate_instance i) \<noteq> Lifecycle.AVAILABLE"
  by (simp add: revalidate_instance_def Let_def)

lemma available_authority [inv_intros]:
  "available_ok r \<Longrightarrow> available_ok (revoke_boot_internal b r)"
  "available_ok r \<Longrightarrow> available_ok (mark_worker_died b r)"
  "available_ok r \<Longrightarrow> available_ok (snd (adopt_worker w r))"
  "available_ok r \<Longrightarrow> available_ok (set_worker_health_reporting w e r)"
  "available_ok (begin_coordinator_epoch r)"
proof -
  assume ok: "available_ok r"
  show "available_ok (revoke_boot_internal b r)" using ok by (rule available_revoke)
  then show "available_ok (mark_worker_died b r)" by (simp add: mark_worker_died_def)
  show "available_ok (set_worker_health_reporting w e r)"
    using ok by (simp add: set_worker_health_reporting_def)
  have "available_ok (r\<lparr>r_next_boot := n\<rparr>)" for n
    using ok by (simp add: available_ok_def backed_def)
  then have "available_ok (adopt_base w r)"
    by (simp add: adopt_base_def Let_def available_revoke split: option.split)
  then show "available_ok (snd (adopt_worker w r))"
    by (auto simp: adopt_worker_eq Let_def available_ok_def backed_def is_boot_live_def)
next
  show "available_ok (begin_coordinator_epoch r)"
    by (auto simp: available_ok_def begin_coordinator_epoch_def revalidate_not_available)
qed

section \<open>Authority is changed by the authority operations only\<close>

lemma auth_core_next_lease [simp]:
  "auth_core (r\<lparr>r_authority := (r_authority r)\<lparr>ra_lease_gen := g\<rparr>\<rparr>) = auth_core r"
  "auth_core (r\<lparr>r_next_id := n, r_authority := (r_authority r)\<lparr>ra_lease_gen := g\<rparr>\<rparr>) = auth_core r"
  by (simp_all add: auth_core_def)

lemma auth_core_updates [frame_simps]:
  "auth_core (snd (update_health iid h env r)) = auth_core r"
  "auth_core (snd (update_readiness iid rd env r)) = auth_core r"
  "auth_core (snd (update_freshness iid f env r)) = auth_core r"
  "auth_core (snd (update_instance_reachability iid rc env r)) = auth_core r"
  "auth_core (snd (update_reachability eid rc env r)) = auth_core r"
  "auth_core (snd (deregister iid env r)) = auth_core r"
  by (simp_all add: update_health_def update_readiness_def update_freshness_def
      update_instance_reachability_def update_instance_def update_reachability_def deregister_def
      with_authority_def throw_def Let_def split: option.split)

lemma auth_core_leases [frame_simps]:
  "auth_core (snd (acquire_lease l env r)) = auth_core r"
  "auth_core (snd (renew_lease lid env r)) = auth_core r"
  "auth_core (snd (expire_lease lid env r)) = auth_core r"
  "auth_core (snd (revoke_lease lid env r)) = auth_core r"
  "auth_core (mark_lease_revalidation_required lid r) = auth_core r"
  "auth_core (snd (invalidate iv env r)) = auth_core r"
  "auth_core (snd (create_tombstone tb env r)) = auth_core r"
  by (simp_all add: acquire_lease_def renew_lease_def expire_lease_def revoke_lease_def
      end_lease_def mark_lease_revalidation_required_def invalidate_def create_tombstone_def
      with_authority_def throw_def Let_def take_next_id_def split: option.split)

lemma auth_core_commit_instance [frame_simps]: "auth_core (snd (commit_instance copy r)) = auth_core r"
proof -
  obtain e r1 where b: "bind_endpoints (si_instance_id copy) (si_endpoints copy) r = (e, r1)"
    by fastforce
  then have "auth_core r1 = auth_core r"
    using bind_endpoints_frame(2) by (metis snd_conv)
  then show ?thesis by (cases e) (simp_all add: commit_instance_def b Let_def)
qed

lemma auth_core_register_instance [frame_simps]:
  "auth_core (snd (register_instance inst env r)) = auth_core r"
  by (simp add: register_instance_def place_instance_def assign_instance_id_def with_authority_def
      throw_def Let_def take_next_id_def frame_simps split: option.split)

lemma auth_core_supersede [frame_simps]:
  "auth_core (snd (supersede iid inst env r)) = auth_core r"
proof (cases "hm_find (r_instances r) iid")
  case None
  then show ?thesis by (simp add: supersede_def with_authority_def throw_def Let_def)
next
  case (Some old)
  let ?r1 = "uncount ac_available_instances_update
      (r\<lparr>r_instance_history := r_instance_history r @ [old],
         r_instances := hm_put iid (old\<lparr>si_lifecycle := Lifecycle.SUPERSEDED\<rparr>) (r_instances r)\<rparr>)"
  obtain res r2 where 2: "register_instance inst env ?r1 = (res, r2)" by fastforce
  then have "auth_core r2 = auth_core ?r1"
    using auth_core_register_instance by (metis snd_conv)
  then show ?thesis
    by (cases res) (simp_all add: supersede_def with_authority_def throw_def Let_def Some 2)
qed

section \<open>Accounting\<close>

definition counters :: "Accounting \<Rightarrow> int list" where
  "counters a =
    [ac_services a, ac_service_instances a, ac_runtimes a, ac_runtime_instances a, ac_nodes a,
     ac_endpoints a, ac_protocols a, ac_backends a, ac_devices a, ac_capabilities a, ac_leases a,
     ac_available_instances a, ac_degraded_instances a, ac_stale_instances a,
     ac_unreachable_instances a, ac_active_leases a, ac_expired_leases a, ac_registrations a,
     ac_deregistrations a, ac_supersessions a, ac_invalidations a, ac_tombstones a, ac_queries a,
     ac_exact_hits a, ac_compatible_hits a, ac_misses a, ac_stale_only a, ac_unready_only a,
     ac_incompatible a, ac_stale_mutation_rejections a, ac_duplicate_conflict_rejections a,
     ac_worker_restarts a]"

definition acc_ok :: "Registry \<Rightarrow> bool" where
  "acc_ok r \<longleftrightarrow> list_all (\<lambda>n. 0 \<le> n) (counters (r_accounting r))"

lemma acc_ok_cong: "r_accounting r' = r_accounting r \<Longrightarrow> acc_ok r' = acc_ok r"
  by (simp add: acc_ok_def)

lemma acc_ok_count [intro!]:
  assumes "acc_ok r"
  shows "acc_ok (count ac_services_update r)" "acc_ok (count ac_service_instances_update r)"
    "acc_ok (count ac_runtimes_update r)" "acc_ok (count ac_runtime_instances_update r)"
    "acc_ok (count ac_nodes_update r)" "acc_ok (count ac_endpoints_update r)"
    "acc_ok (count ac_protocols_update r)" "acc_ok (count ac_backends_update r)"
    "acc_ok (count ac_devices_update r)" "acc_ok (count ac_capabilities_update r)"
    "acc_ok (count ac_leases_update r)" "acc_ok (count ac_active_leases_update r)"
    "acc_ok (count ac_expired_leases_update r)" "acc_ok (count ac_registrations_update r)"
    "acc_ok (count ac_deregistrations_update r)" "acc_ok (count ac_supersessions_update r)"
    "acc_ok (count ac_invalidations_update r)" "acc_ok (count ac_tombstones_update r)"
    "acc_ok (count ac_stale_mutation_rejections_update r)"
    "acc_ok (count ac_duplicate_conflict_rejections_update r)"
    "acc_ok (count ac_worker_restarts_update r)" "acc_ok (count ac_queries_update r)"
    "acc_ok (count ac_exact_hits_update r)" "acc_ok (count ac_compatible_hits_update r)"
    "acc_ok (count ac_misses_update r)" "acc_ok (count ac_stale_only_update r)"
    "acc_ok (count ac_unready_only_update r)" "acc_ok (count ac_incompatible_update r)"
    "acc_ok (uncount ac_available_instances_update r)"
    "acc_ok (uncount ac_active_leases_update r)"
  using assms by (simp_all add: acc_ok_def counters_def dec_pos_nonneg)

lemma acc_ok_simps [simp]:
  "acc_ok (commit_registry_generation r) = acc_ok r" "acc_ok (rebuild_indexes r) = acc_ok r"
  "acc_ok (r\<lparr>r_authority := a\<rparr>) = acc_ok r" "acc_ok (r\<lparr>r_services := a1\<rparr>) = acc_ok r"
  "acc_ok (r\<lparr>r_instances := a2\<rparr>) = acc_ok r" "acc_ok (r\<lparr>r_runtimes := a3\<rparr>) = acc_ok r"
  "acc_ok (r\<lparr>r_runtime_instances := a4\<rparr>) = acc_ok r" "acc_ok (r\<lparr>r_endpoints := a5\<rparr>) = acc_ok r"
  "acc_ok (r\<lparr>r_protocols := a6\<rparr>) = acc_ok r" "acc_ok (r\<lparr>r_backends := a7\<rparr>) = acc_ok r"
  "acc_ok (r\<lparr>r_devices := a8\<rparr>) = acc_ok r" "acc_ok (r\<lparr>r_capabilities := a9\<rparr>) = acc_ok r"
  "acc_ok (r\<lparr>r_nodes := a10\<rparr>) = acc_ok r" "acc_ok (r\<lparr>r_leases := a11\<rparr>) = acc_ok r"
  "acc_ok (r\<lparr>r_tombstones := a12\<rparr>) = acc_ok r" "acc_ok (r\<lparr>r_invalidations := a13\<rparr>) = acc_ok r"
  "acc_ok (r\<lparr>r_instance_history := a14\<rparr>) = acc_ok r"
  "acc_ok (r\<lparr>r_runtime_history := a15\<rparr>) = acc_ok r"
  "acc_ok (r\<lparr>r_endpoint_history := a16\<rparr>) = acc_ok r"
  "acc_ok (r\<lparr>r_capability_history := a17\<rparr>) = acc_ok r"
  "acc_ok (r\<lparr>r_next_id := a18\<rparr>) = acc_ok r" "acc_ok (r\<lparr>r_next_boot := a19\<rparr>) = acc_ok r"
  by (simp_all add: acc_ok_def)

lemma acc_register [inv_intros]:
  assumes "acc_ok r"
  shows "acc_ok (snd (register_service svc env r))" "acc_ok (snd (register_runtime rt env r))"
    "acc_ok (snd (register_protocol pd env r))" "acc_ok (snd (register_endpoint ep env r))"
    "acc_ok (snd (register_capability cap env r))" "acc_ok (snd (register_backend bd env r))"
    "acc_ok (snd (register_device dd env r))" "acc_ok (snd (register_node nd env r))"
  using assms by (simp_all add: acc_ok_count register_service_def register_runtime_def
      register_protocol_def register_endpoint_def register_capability_def register_backend_def
      register_device_def register_node_def registration_simps split: option.split)

lemma acc_updates [inv_intros]:
  assumes "acc_ok r"
  shows "acc_ok (snd (update_health iid h env r))" "acc_ok (snd (update_readiness iid rd env r))"
    "acc_ok (snd (update_freshness iid f env r))"
    "acc_ok (snd (update_instance_reachability iid rc env r))"
    "acc_ok (snd (update_reachability eid rc env r))" "acc_ok (snd (deregister iid env r))"
  using assms by (simp_all add: acc_ok_count update_health_def update_readiness_def
      update_freshness_def update_instance_reachability_def update_instance_def
      update_reachability_def deregister_def with_authority_def throw_def Let_def split: option.split)

lemma acc_leases [inv_intros]:
  assumes "acc_ok r"
  shows "acc_ok (snd (acquire_lease l env r))" "acc_ok (snd (renew_lease lid env r))"
    "acc_ok (snd (expire_lease lid env r))" "acc_ok (snd (revoke_lease lid env r))"
    "acc_ok (mark_lease_revalidation_required lid r)" "acc_ok (snd (invalidate iv env r))"
    "acc_ok (snd (create_tombstone tb env r))"
  using assms by (simp_all add: acc_ok_count acquire_lease_def renew_lease_def expire_lease_def
      revoke_lease_def end_lease_def mark_lease_revalidation_required_def invalidate_def
      create_tombstone_def with_authority_def throw_def Let_def take_next_id_def split: option.split)

lemma acc_bind_endpoints: "acc_ok r \<Longrightarrow> acc_ok (snd (bind_endpoints iid eids r))"
  by (induction eids arbitrary: r) (simp_all add: acc_ok_count Let_def split: option.split)

lemma acc_commit_instance: "acc_ok r \<Longrightarrow> acc_ok (snd (commit_instance copy r))"
  using acc_bind_endpoints [of r "si_instance_id copy" "si_endpoints copy"]
  by (auto simp: commit_instance_def Let_def acc_ok_count split: prod.split option.split)

lemma acc_register_instance [inv_intros]:
  "acc_ok r \<Longrightarrow> acc_ok (snd (register_instance inst env r))"
  by (simp add: register_instance_def place_instance_def assign_instance_id_def with_authority_def
      throw_def Let_def take_next_id_def acc_commit_instance acc_ok_count split: option.split)

lemma acc_supersede [inv_intros]:
  "acc_ok r \<Longrightarrow> acc_ok (snd (supersede iid inst env r))"
  by (rule supersede_preserves [where good = acc_ok]) (auto simp: acc_register_instance acc_ok_count)

lemma acc_revoke_instance: "acc_ok r \<Longrightarrow> acc_ok (revoke_instance b r k)"
  by (simp add: revoke_instance_def expire_owned_lease_def Let_def acc_ok_count split: option.split)

lemma acc_authority [inv_intros]:
  assumes "acc_ok r"
  shows "acc_ok (revoke_boot_internal b r)" "acc_ok (mark_worker_died b r)"
    "acc_ok (snd (adopt_worker w r))" "acc_ok (set_worker_health_reporting w e r)"
    "acc_ok (begin_coordinator_epoch r)"
proof -
  have loop: "acc_ok (foldl (revoke_instance b) r ks)" if "acc_ok r" for r b ks
    using that by (induction ks arbitrary: r) (simp_all add: acc_revoke_instance)
  have rev: "acc_ok (revoke_boot_internal b r)" if "acc_ok r" for r b
    using that by (simp add: revoke_boot_internal_def Let_def loop)
  from assms show "acc_ok (revoke_boot_internal b r)" "acc_ok (mark_worker_died b r)"
    by (simp_all add: mark_worker_died_def rev)
  from assms show "acc_ok (snd (adopt_worker w r))"
    by (simp add: adopt_worker_def Let_def rev acc_ok_count split: option.split)
  from assms show "acc_ok (set_worker_health_reporting w e r)"
    by (simp add: set_worker_health_reporting_def)
  from assms show "acc_ok (begin_coordinator_epoch r)"
    by (simp add: begin_coordinator_epoch_def acc_ok_def)
qed

section \<open>Lease generations\<close>

text \<open>The generations of the stored leases, and the counter they are drawn from.\<close>

definition lease_view where
  "lease_view r = (\<lambda>l. map_option ls_generation (hm_find (r_leases r) l), ra_lease_gen (r_authority r))"

definition leases_fenced :: "Registry \<Rightarrow> bool" where
  "leases_fenced r \<longleftrightarrow> (\<forall>l d. hm_find (r_leases r) l = Some d \<longrightarrow>
     ls_generation d \<le> ra_lease_gen (r_authority r))"

lemma leases_fenced_alt:
  "leases_fenced r \<longleftrightarrow> (\<forall>l g. fst (lease_view r) l = Some g \<longrightarrow> g \<le> snd (lease_view r))"
  by (auto simp: leases_fenced_def lease_view_def)

lemma leases_fenced_keep: "leases_fenced r \<Longrightarrow> lease_view r' = lease_view r \<Longrightarrow> leases_fenced r'"
  by (simp add: leases_fenced_alt)

lemma lease_view_simps [simp]:
  "lease_view (count f r) = lease_view r" "lease_view (uncount f r) = lease_view r"
  "lease_view (commit_registry_generation r) = lease_view r"
  "lease_view (rebuild_indexes r) = lease_view r"
  "lease_view (r\<lparr>r_instances := i\<rparr>) = lease_view r"
  "lease_view (r\<lparr>r_endpoints := e\<rparr>) = lease_view r"
  "lease_view (r\<lparr>r_tombstones := t\<rparr>) = lease_view r"
  "lease_view (r\<lparr>r_invalidations := iv\<rparr>) = lease_view r"
  "lease_view (r\<lparr>r_instance_history := h\<rparr>) = lease_view r"
  "lease_view (r\<lparr>r_next_id := n\<rparr>) = lease_view r"
  "lease_view (r\<lparr>r_next_boot := b\<rparr>) = lease_view r"
  by (simp_all add: lease_view_def commit_registry_generation_def)

lemma lease_view_put:
  "hm_find (r_leases r) l = Some d \<Longrightarrow> ls_generation d' = ls_generation d \<Longrightarrow>
    lease_view (r\<lparr>r_leases := hm_put l d' (r_leases r)\<rparr>) = lease_view r"
  by (auto simp: lease_view_def fun_eq_iff)

lemma instance_view_lease: "instance_view r' = instance_view r \<Longrightarrow> lease_view r' = lease_view r"
  by (simp add: lease_view_def instance_view_def)

lemmas lease_view_register [frame_simps] = registration_view [THEN instance_view_lease]

lemma lease_view_updates [frame_simps]:
  "lease_view (snd (update_health iid h env r)) = lease_view r"
  "lease_view (snd (update_readiness iid rd env r)) = lease_view r"
  "lease_view (snd (update_freshness iid f env r)) = lease_view r"
  "lease_view (snd (update_instance_reachability iid rc env r)) = lease_view r"
  "lease_view (snd (update_reachability eid rc env r)) = lease_view r"
  "lease_view (snd (deregister iid env r)) = lease_view r"
  by (simp_all add: update_health_def update_readiness_def update_freshness_def
      update_instance_reachability_def update_instance_def update_reachability_def deregister_def
      with_authority_def throw_def Let_def split: option.split)

lemma lease_view_leases [frame_simps]:
  "lease_view (snd (renew_lease lid env r)) = lease_view r"
  "lease_view (snd (expire_lease lid env r)) = lease_view r"
  "lease_view (snd (revoke_lease lid env r)) = lease_view r"
  "lease_view (mark_lease_revalidation_required lid r) = lease_view r"
  "lease_view (snd (invalidate iv env r)) = lease_view r"
  "lease_view (snd (create_tombstone tb env r)) = lease_view r"
  by (simp_all add: renew_lease_def expire_lease_def revoke_lease_def
      end_lease_def mark_lease_revalidation_required_def invalidate_def create_tombstone_def
      with_authority_def throw_def Let_def take_next_id_def lease_view_put split: option.split)

lemma lease_view_bind_endpoints [simp]:
  "lease_view (snd (bind_endpoints iid eids r)) = lease_view r"
  by (simp add: lease_view_def)

lemma lease_view_commit_instance [frame_simps]:
  "lease_view (snd (commit_instance copy r)) = lease_view r"
proof -
  obtain e r1 where b: "bind_endpoints (si_instance_id copy) (si_endpoints copy) r = (e, r1)"
    by fastforce
  then have "lease_view r1 = lease_view r"
    using lease_view_bind_endpoints by (metis snd_conv)
  then show ?thesis by (cases e) (simp_all add: commit_instance_def b Let_def)
qed

lemma lease_view_register_instance [frame_simps]:
  "lease_view (snd (register_instance inst env r)) = lease_view r"
  by (simp add: register_instance_def place_instance_def assign_instance_id_def with_authority_def
      throw_def Let_def take_next_id_def frame_simps split: option.split)

lemma fenced_supersede:
  "leases_fenced r \<Longrightarrow> leases_fenced (snd (supersede iid inst env r))"
  by (rule supersede_preserves [where good = leases_fenced])
    (auto intro: leases_fenced_keep simp: frame_simps)

lemma lease_view_revoke_instance [simp]: "lease_view (revoke_instance b r k) = lease_view r"
  by (simp add: revoke_instance_def expire_owned_lease_def Let_def lease_view_put split: option.split)

lemma lease_view_authority [frame_simps]:
  "lease_view (revoke_boot_internal b r) = lease_view r"
  "lease_view (mark_worker_died b r) = lease_view r"
  "lease_view (snd (adopt_worker w r)) = lease_view r"
  "lease_view (set_worker_health_reporting w e r) = lease_view r"
  "lease_view (begin_coordinator_epoch r) = lease_view r"
proof -
  have loop: "lease_view (foldl (revoke_instance b) r ks) = lease_view r" for b r ks
    by (induction ks arbitrary: r) simp_all
  show rev: "lease_view (revoke_boot_internal b r) = lease_view r" for b r
    by (simp add: revoke_boot_internal_def Let_def loop) (simp add: lease_view_def split: option.split)
  then show "lease_view (mark_worker_died b r) = lease_view r" by (simp add: mark_worker_died_def)
  have "lease_view (adopt_base w r) = lease_view r"
    by (simp add: adopt_base_def Let_def rev split: option.split)
  then show "lease_view (snd (adopt_worker w r)) = lease_view r"
    by (simp add: adopt_worker_eq Let_def) (simp add: lease_view_def)
  show "lease_view (set_worker_health_reporting w e r) = lease_view r"
    by (simp add: set_worker_health_reporting_def)
  have "map_option ls_generation (map_option revalidate_lease x) = map_option ls_generation x" for x
    by (cases x) (simp_all add: revalidate_lease_def)
  then show "lease_view (begin_coordinator_epoch r) = lease_view r"
    by (simp add: lease_view_def begin_coordinator_epoch_def)
qed

text \<open>Acquisition draws the next generation, which no stored lease has.\<close>

lemma acquire_lease_generation:
  "av_accept (validate_envelope r env) \<Longrightarrow>
    ra_lease_gen (r_authority (snd (acquire_lease l env r))) =
      MkGen (gen_value (ra_lease_gen (r_authority r)) + 1)"
  by (simp add: acquire_lease_def with_authority_accept Let_def take_next_id_def
      commit_registry_generation_def)

lemma fenced_acquire:
  assumes "leases_fenced r"
    and "gen_value (ra_lease_gen (r_authority r)) < gen_value (ra_lease_gen (r_authority r)) + 1"
  shows "leases_fenced (snd (acquire_lease l env r))"
proof (cases "av_accept (validate_envelope r env)")
  case True
  have "ls_generation d \<le> MkGen (gen_value (ra_lease_gen (r_authority r)) + 1)"
    if "hm_find (r_leases r) k = Some d" for k d
    using assms that unfolding leases_fenced_def less_eq_Gen_def
    by (force intro: order.trans less_imp_le)
  then show ?thesis
    using True by (auto simp: leases_fenced_def acquire_lease_def with_authority_accept Let_def
      take_next_id_def commit_registry_generation_def split: if_splits)
next
  case False
  then show ?thesis using assms(1) by (simp add: acquire_lease_def with_authority_reject)
qed

end
