(* ===== verification/RR_Selection.thy ===== *)
theory RR_Selection
  imports "HOL-Library.Multiset" "HOL-Library.Product_Lexorder" RR_Scores RR_Invariants
begin

text \<open>
  Discovery (\<^verbatim>\<open>query.hpp\<close>, \<^verbatim>\<open>selection.hpp\<close>,
  \<^verbatim>\<open>selection.cpp\<close>): the hard filters in the order of the code, the named
  scoring factors, the ranking and the outcome of a query.

  The loop body of \<^verbatim>\<open>Registry::query\<close> is split where the code changes subject:
  \<open>authority_filter\<close> up to the reachability test, \<open>protocol_filter\<close>, \<open>capability_filter\<close> and
  \<open>contract_filter\<close>, then \<open>candidate_score\<close>. \<open>inspect\<close> composes them with the
  \<^verbatim>\<open>continue\<close>s of the code.

  The lemmas characterise the ranked candidates without the loop, show that the ranking does not
  depend on the iteration order of the hash map, and bound what a query may return.
\<close>

section \<open>Query model\<close>

datatype SelectionFactor =
  EXACT_SERVICE_ID | EXACT_PROTOCOL | EXACT_API_VERSION | EXACT_ABI | CAPABILITY_COMPLETENESS
  | READINESS | HEALTH | LOCALITY | RUNTIME_PREFERENCE | VERSION_RECENCY
  | ENDPOINT_REACHABILITY | FRESHNESS | POLICY_PREFERENCE

fun to_string_SelectionFactor :: "SelectionFactor \<Rightarrow> string" where
  "to_string_SelectionFactor EXACT_SERVICE_ID = ''exact_service_id''"
| "to_string_SelectionFactor EXACT_PROTOCOL = ''exact_protocol''"
| "to_string_SelectionFactor EXACT_API_VERSION = ''exact_api_version''"
| "to_string_SelectionFactor EXACT_ABI = ''exact_abi''"
| "to_string_SelectionFactor CAPABILITY_COMPLETENESS = ''capability_completeness''"
| "to_string_SelectionFactor READINESS = ''readiness''"
| "to_string_SelectionFactor HEALTH = ''health''"
| "to_string_SelectionFactor LOCALITY = ''locality''"
| "to_string_SelectionFactor RUNTIME_PREFERENCE = ''runtime_preference''"
| "to_string_SelectionFactor VERSION_RECENCY = ''version_recency''"
| "to_string_SelectionFactor ENDPOINT_REACHABILITY = ''endpoint_reachability''"
| "to_string_SelectionFactor FRESHNESS = ''freshness''"
| "to_string_SelectionFactor POLICY_PREFERENCE = ''policy_preference''"

datatype RejectionCategory =
  WRONG_KIND | WRONG_RUNTIME | STALE | INVALIDATED | TOMBSTONED | STALE_AUTHORITY
  | LEASE_INVALID | UNREADY | UNHEALTHY | UNREACHABLE | MISSING_CAPABILITY
  | INCOMPATIBLE_PROTOCOL | INCOMPATIBLE_API | INCOMPATIBLE_ABI | ARCHITECTURE_MISMATCH
  | BELOW_MIN_VERSION | INSUFFICIENT_EVIDENCE

fun to_string_RejectionCategory :: "RejectionCategory \<Rightarrow> string" where
  "to_string_RejectionCategory RejectionCategory.WRONG_KIND = ''wrong_service_kind''"
| "to_string_RejectionCategory RejectionCategory.WRONG_RUNTIME = ''wrong_runtime''"
| "to_string_RejectionCategory RejectionCategory.STALE = ''stale''"
| "to_string_RejectionCategory RejectionCategory.INVALIDATED = ''invalidated''"
| "to_string_RejectionCategory RejectionCategory.TOMBSTONED = ''tombstoned''"
| "to_string_RejectionCategory RejectionCategory.STALE_AUTHORITY = ''stale_authority''"
| "to_string_RejectionCategory RejectionCategory.LEASE_INVALID = ''lease_invalid''"
| "to_string_RejectionCategory RejectionCategory.UNREADY = ''unready''"
| "to_string_RejectionCategory RejectionCategory.UNHEALTHY = ''unhealthy''"
| "to_string_RejectionCategory RejectionCategory.UNREACHABLE = ''unreachable''"
| "to_string_RejectionCategory RejectionCategory.MISSING_CAPABILITY = ''missing_capability''"
| "to_string_RejectionCategory RejectionCategory.INCOMPATIBLE_PROTOCOL = ''incompatible_protocol''"
| "to_string_RejectionCategory RejectionCategory.INCOMPATIBLE_API = ''incompatible_api''"
| "to_string_RejectionCategory RejectionCategory.INCOMPATIBLE_ABI = ''incompatible_abi''"
| "to_string_RejectionCategory RejectionCategory.ARCHITECTURE_MISMATCH = ''architecture_mismatch''"
| "to_string_RejectionCategory RejectionCategory.BELOW_MIN_VERSION = ''below_min_version''"
| "to_string_RejectionCategory RejectionCategory.INSUFFICIENT_EVIDENCE = ''insufficient_evidence''"

fun reject_detail :: "RejectionCategory \<Rightarrow> string" where
  "reject_detail RejectionCategory.WRONG_KIND = ''wrong service kind''"
| "reject_detail RejectionCategory.WRONG_RUNTIME = ''wrong runtime''"
| "reject_detail RejectionCategory.STALE = ''stale instance''"
| "reject_detail RejectionCategory.INVALIDATED = ''invalidated''"
| "reject_detail RejectionCategory.TOMBSTONED = ''tombstoned''"
| "reject_detail RejectionCategory.STALE_AUTHORITY = ''stale authority''"
| "reject_detail RejectionCategory.LEASE_INVALID = ''invalid lease''"
| "reject_detail RejectionCategory.UNREADY = ''not ready''"
| "reject_detail RejectionCategory.UNHEALTHY = ''not healthy''"
| "reject_detail RejectionCategory.UNREACHABLE = ''not reachable''"
| "reject_detail RejectionCategory.MISSING_CAPABILITY = ''missing required capability''"
| "reject_detail RejectionCategory.INCOMPATIBLE_PROTOCOL = ''incompatible protocol''"
| "reject_detail RejectionCategory.INCOMPATIBLE_API = ''incompatible API''"
| "reject_detail RejectionCategory.INCOMPATIBLE_ABI = ''incompatible ABI''"
| "reject_detail RejectionCategory.ARCHITECTURE_MISMATCH = ''architecture mismatch''"
| "reject_detail RejectionCategory.BELOW_MIN_VERSION = ''below minimum version''"
| "reject_detail RejectionCategory.INSUFFICIENT_EVIDENCE = ''insufficient evidence''"

record RegistryQuery =
  q_service_kind :: ServiceKind
  q_exact_service_id :: ServiceId
  q_runtime_kind :: RuntimeKind
  q_runtime_family :: string
  q_minimum_api :: ApiVersion
  q_has_minimum_api :: bool
  q_abi_requirement :: AbiVersion
  q_has_abi_requirement :: bool
  q_protocol_requirement :: ProtocolId
  q_protocol_version :: ProtocolVersion
  q_has_protocol_version :: bool
  q_required_capabilities :: "CapabilityKind list"
  q_backend_requirement :: BackendKind
  q_architecture :: string
  q_required_health :: Health
  q_required_readiness :: Readiness
  q_required_freshness :: Freshness
  q_required_reachability :: Reachability
  q_preferred_node :: NodeId
  q_preferred_runtime :: RuntimeId
  q_version_policy :: VersionPolicy
  q_current_only :: bool
  q_max_results :: u64

definition default_RegistryQuery :: RegistryQuery where
  "default_RegistryQuery =
    \<lparr>q_service_kind = ServiceKind.UNKNOWN, q_exact_service_id = no_id,
     q_runtime_kind = RuntimeKind.UNKNOWN, q_runtime_family = [],
     q_minimum_api = default_version, q_has_minimum_api = False,
     q_abi_requirement = default_version, q_has_abi_requirement = False,
     q_protocol_requirement = no_id, q_protocol_version = default_version,
     q_has_protocol_version = False, q_required_capabilities = [],
     q_backend_requirement = BackendKind.UNKNOWN, q_architecture = [],
     q_required_health = Health.UNKNOWN, q_required_readiness = Readiness.UNKNOWN,
     q_required_freshness = Freshness.CURRENT,
     q_required_reachability = Reachability.REACHABLE,
     q_preferred_node = no_id, q_preferred_runtime = no_id,
     q_version_policy = VersionPolicy.PREFER_RECENT, q_current_only = True,
     q_max_results = 32\<rparr>"

record CandidateScore =
  cs_instance_id :: ServiceInstanceId
  cs_factors :: "(SelectionFactor \<times> score) list"
  cs_total :: score
  cs_rank :: int

record CandidateRejection =
  cj_instance_id :: ServiceInstanceId
  cj_reason :: string
  cj_detail :: string
  cj_category :: RejectionCategory

record RegistryResult =
  rr_outcome :: QueryOutcome
  rr_ranked :: "CandidateScore list"
  rr_rejected :: "CandidateRejection list"
  rr_selected :: "ServiceInstanceId list"
  rr_factor_summary :: "(SelectionFactor \<times> bool) list"
  rr_total_considered :: int
  rr_explanation :: string

section \<open>Compatibility helpers\<close>

definition negotiate_protocol ::
  "ProtocolVersion \<Rightarrow> ProtocolVersion \<Rightarrow> bool \<Rightarrow> NegotiationOutcome" where
  "negotiate_protocol required offered exact_required =
    (if ver_eq required offered then NegotiationOutcome.EXACT
     else if exact_required then NegotiationOutcome.INCOMPATIBLE
     else if ver_major required \<noteq> ver_major offered then NegotiationOutcome.INCOMPATIBLE
     else if ver_minor required = ver_minor offered then NegotiationOutcome.EXACT
     else if sint (ver_minor offered) > sint (ver_minor required) then
       NegotiationOutcome.UPGRADE_REQUIRED
     else NegotiationOutcome.DOWNGRADE_ALLOWED)"

record VersionVerdict =
  vv_outcome :: NegotiationOutcome
  vv_detail :: string

definition version_verdict ::
  "SemanticVersion \<Rightarrow> VersionPolicy \<Rightarrow> ApiVersion \<Rightarrow> ApiVersion \<Rightarrow> bool \<Rightarrow> VersionVerdict" where
  "version_verdict candidate policy min_api candidate_api has_min_api =
    (if has_min_api \<and> ver_less candidate_api min_api
     then \<lparr>vv_outcome = NegotiationOutcome.INCOMPATIBLE, vv_detail = ''API version below minimum''\<rparr>
     else \<lparr>vv_outcome = NegotiationOutcome.COMPATIBLE, vv_detail = []\<rparr>)"

definition capability_satisfaction :: "CapabilityDescriptor \<Rightarrow> CapabilityKind \<Rightarrow> int" where
  "capability_satisfaction cap required =
    (if cap_kind cap \<noteq> required then 1
     else if cap_freshness cap \<noteq> Freshness.CURRENT then 0
     else -1)"

definition readiness_meets :: "Readiness \<Rightarrow> Readiness \<Rightarrow> bool" where
  "readiness_meets actual required \<longleftrightarrow>
    (if required = Readiness.UNKNOWN then True
     else if required = Readiness.READY then
       actual = Readiness.READY \<or> actual = Readiness.PARTIALLY_READY
     else if required = Readiness.DRAINING then actual = Readiness.DRAINING
     else if required = Readiness.PARTIALLY_READY then
       actual = Readiness.PARTIALLY_READY \<or> actual = Readiness.READY
     else actual = required)"

definition health_meets :: "Health \<Rightarrow> Health \<Rightarrow> bool" where
  "health_meets actual required \<longleftrightarrow>
    (if required = Health.UNKNOWN then True
     else if required = Health.HEALTHY then actual = Health.HEALTHY
     else if required = Health.DEGRADED then actual = Health.DEGRADED \<or> actual = Health.HEALTHY
     else actual = required)"

definition reachability_meets :: "Reachability \<Rightarrow> Reachability \<Rightarrow> bool" where
  "reachability_meets actual required \<longleftrightarrow>
    (if required = Reachability.UNKNOWN then True
     else if required = Reachability.REACHABLE then
       actual = Reachability.REACHABLE \<or> actual = Reachability.DEGRADED
     else if required = Reachability.DEGRADED then
       actual = Reachability.DEGRADED \<or> actual = Reachability.REACHABLE
     else actual = required)"

definition freshness_meets :: "Freshness \<Rightarrow> Freshness \<Rightarrow> bool" where
  "freshness_meets actual required \<longleftrightarrow>
    (if required = Freshness.UNKNOWN then True
     else if required = Freshness.CURRENT then actual = Freshness.CURRENT
     else actual = required)"

section \<open>Filters\<close>

type_synonym rejection = "RejectionCategory \<times> string"

text \<open>The checks that need only the instance, its boot and its lease; \<open>Some\<close> rejects.\<close>

definition authority_filter :: "Registry \<Rightarrow> RegistryQuery \<Rightarrow> ServiceInstance \<Rightarrow> rejection option" where
  "authority_filter r q inst =
    (if q_current_only q \<and> historical (si_lifecycle inst) then
       Some (RejectionCategory.STALE, ''historical instance excluded from current lookup'')
     else if si_lifecycle inst = Lifecycle.STALE then
       Some (RejectionCategory.STALE, ''instance is stale'')
     else if si_lifecycle inst = Lifecycle.INVALIDATED then
       Some (RejectionCategory.INVALIDATED, ''instance invalidated'')
     else if si_lifecycle inst = Lifecycle.TOMBSTONED then
       Some (RejectionCategory.TOMBSTONED, ''instance tombstoned'')
     else if \<not> is_boot_live (r_authority r) (si_boot inst) then
       Some (RejectionCategory.STALE_AUTHORITY, ''instance owned by a non-live incarnation'')
     else if \<not> freshness_meets (si_freshness inst) (q_required_freshness q) then
       Some (RejectionCategory.STALE, ''freshness not accepted'')
     else if id_set (si_lease inst) \<and>
         (case hm_find (r_leases r) (si_lease inst) of
            None \<Rightarrow> True | Some l \<Rightarrow> ls_state l \<noteq> LeaseState.ACTIVE) then
       Some (RejectionCategory.LEASE_INVALID, ''lease not active'')
     else if \<not> readiness_meets (si_readiness inst) (q_required_readiness q) then
       Some (RejectionCategory.UNREADY, ''readiness not accepted'')
     else if \<not> health_meets (si_health inst) (q_required_health q) then
       Some (RejectionCategory.UNHEALTHY, ''health not accepted'')
     else if \<not> reachability_meets (si_reachability inst) (q_required_reachability q) then
       Some (RejectionCategory.UNREACHABLE, ''reachability not accepted'')
     else None)"

text \<open>
  The protocol loop: whether it met a registered protocol, and whether it stopped at an
  incompatible one (the \<^verbatim>\<open>goto\<close>).
\<close>

fun protocol_loop ::
  "Registry \<Rightarrow> RegistryQuery \<Rightarrow> ProtocolId list \<Rightarrow> bool \<Rightarrow> bool \<times> bool" where
  "protocol_loop r q [] any_proto = (any_proto, False)"
| "protocol_loop r q (pid # pids) any_proto =
    (case hm_find (r_protocols r) pid of
       None \<Rightarrow> protocol_loop r q pids any_proto
     | Some pd \<Rightarrow>
         if negotiate_protocol (q_protocol_version q) (pd_version pd) False
              = NegotiationOutcome.INCOMPATIBLE
         then (True, True)
         else protocol_loop r q pids True)"

text \<open>
  The rejections that the protocol check records, and whether the candidate is dropped: an
  incompatible protocol is recorded but control continues behind the check.
\<close>

definition protocol_filter ::
  "Registry \<Rightarrow> RegistryQuery \<Rightarrow> ServiceInstance \<Rightarrow> rejection list \<times> bool" where
  "protocol_filter r q inst =
    (if id_set (q_protocol_requirement q) \<and> q_has_protocol_version q then
       (case protocol_loop r q (si_protocols inst) False of
          (_, True) \<Rightarrow>
            ([(RejectionCategory.INCOMPATIBLE_PROTOCOL, ''no compatible protocol'')], False)
        | (any_proto, False) \<Rightarrow>
            if \<not> any_proto then
              ([(RejectionCategory.INSUFFICIENT_EVIDENCE, ''protocol evidence insufficient'')], True)
            else ([], False))
     else ([], False))"

text \<open>How well an instance satisfies one required capability: -1 satisfied, 0 stale, 1 missing.\<close>

fun satisfaction_loop :: "Registry \<Rightarrow> CapabilityKind \<Rightarrow> CapabilityId list \<Rightarrow> int \<Rightarrow> int" where
  "satisfaction_loop r req [] sat = sat"
| "satisfaction_loop r req (cid # cids) sat =
    (case hm_find (r_capabilities r) cid of
       None \<Rightarrow> satisfaction_loop r req cids sat
     | Some cap \<Rightarrow>
         if capability_satisfaction cap req = -1 then -1
         else satisfaction_loop r req cids
           (if capability_satisfaction cap req = 0 then 0 else sat))"

fun capability_filter ::
  "Registry \<Rightarrow> ServiceInstance \<Rightarrow> CapabilityKind list \<Rightarrow> rejection option" where
  "capability_filter r inst [] = None"
| "capability_filter r inst (req # reqs) =
    (let sat = satisfaction_loop r req (si_capabilities inst) 1
     in if sat = -1 then capability_filter r inst reqs
        else if sat = 0 then
          Some (RejectionCategory.INSUFFICIENT_EVIDENCE,
            ''required capability '' @ to_string_CapabilityKind req @ '' is UNKNOWN'')
        else
          Some (RejectionCategory.MISSING_CAPABILITY,
            ''required capability '' @ to_string_CapabilityKind req @ '' missing''))"

definition contract_filter ::
  "Registry \<Rightarrow> RegistryQuery \<Rightarrow> ServiceDescriptor \<Rightarrow> ServiceInstance \<Rightarrow> rejection option" where
  "contract_filter r q svc inst =
    (let rest =
       (if q_has_minimum_api q \<and> ver_less (svc_api_version svc) (q_minimum_api q) then
          Some (RejectionCategory.BELOW_MIN_VERSION, ''API below minimum'')
        else if q_has_abi_requirement q
            \<and> ver_major (svc_abi_version svc) \<noteq> ver_major (q_abi_requirement q) then
          Some (RejectionCategory.INCOMPATIBLE_ABI, ''ABI major mismatch'')
        else None)
     in case hm_find (r_runtime_instances r) (si_runtime_instance inst) of
          None \<Rightarrow> rest
        | Some rt \<Rightarrow>
            if q_runtime_kind q \<noteq> RuntimeKind.UNKNOWN \<and> rt_kind rt \<noteq> q_runtime_kind q then
              Some (RejectionCategory.WRONG_RUNTIME, ''wrong runtime kind'')
            else if q_runtime_family q \<noteq> [] \<and> rt_family rt \<noteq> q_runtime_family q then
              Some (RejectionCategory.WRONG_RUNTIME, ''wrong runtime family'')
            else if q_architecture q \<noteq> [] \<and> rt_architecture rt \<noteq> []
                \<and> rt_architecture rt \<noteq> q_architecture q then
              Some (RejectionCategory.ARCHITECTURE_MISMATCH, ''architecture mismatch'')
            else rest)"

section \<open>Scores\<close>

text \<open>
  The count of satisfied capabilities, in \<^verbatim>\<open>double\<close>. The loop of the code leaves
  \<^verbatim>\<open>sat2\<close> at -1 exactly when the filter's loop does.
\<close>

definition satisfied_count ::
  "Registry \<Rightarrow> ServiceInstance \<Rightarrow> CapabilityKind list \<Rightarrow> score" where
  "satisfied_count r inst reqs =
    foldl (\<lambda>n req. if list_ex (\<lambda>cid. case hm_find (r_capabilities r) cid of
        None \<Rightarrow> False | Some cap \<Rightarrow> capability_satisfaction cap req = -1) (si_capabilities inst)
      then f64_add n 1 else n) 0 reqs"

definition score_factors ::
  "Registry \<Rightarrow> RegistryQuery \<Rightarrow> ServiceDescriptor \<Rightarrow> ServiceInstance \<Rightarrow> (SelectionFactor \<times> score) list"
where
  "score_factors r q svc inst =
    [(EXACT_SERVICE_ID,
      if id_set (q_exact_service_id q) \<and> si_service_id inst = q_exact_service_id q then 1000 else 0),
     (EXACT_API_VERSION,
      if q_has_minimum_api q \<and> ver_eq (svc_api_version svc) (q_minimum_api q) then 200 else 0),
     (EXACT_ABI,
      if q_has_abi_requirement q \<and> ver_eq (svc_abi_version svc) (q_abi_requirement q) then 150
      else if q_has_abi_requirement q
          \<and> ver_major (svc_abi_version svc) = ver_major (q_abi_requirement q) then 80 else 0),
     (CAPABILITY_COMPLETENESS,
      if q_required_capabilities q = [] then 100
      else f64_mul (f64_div (satisfied_count r inst (q_required_capabilities q))
        (f64_of_int (int (length (q_required_capabilities q))))) 100),
     (READINESS,
      if si_readiness inst = Readiness.READY then 80
      else if si_readiness inst = Readiness.PARTIALLY_READY then 40 else 0),
     (HEALTH,
      if si_health inst = Health.HEALTHY then 80
      else if si_health inst = Health.DEGRADED then 40 else 0),
     (LOCALITY, if id_set (q_preferred_node q) \<and> si_node inst = q_preferred_node q then 100 else 0),
     (RUNTIME_PREFERENCE,
      if id_set (q_preferred_runtime q) \<and> si_runtime_id inst = q_preferred_runtime q then 100 else 0),
     (VERSION_RECENCY,
      f64_of_int (sint (sv_major (svc_version svc) * 100 + sv_minor (svc_version svc) * 10
        + sv_patch (svc_version svc)))),
     (ENDPOINT_REACHABILITY,
      if si_reachability inst = Reachability.REACHABLE then 60
      else if si_reachability inst = Reachability.DEGRADED then 30 else 0),
     (FRESHNESS, if si_freshness inst = Freshness.CURRENT then 100 else 0),
     (POLICY_PREFERENCE, if q_version_policy q = VersionPolicy.PREFER_RECENT then 10 else 0)]"

definition candidate_score ::
  "Registry \<Rightarrow> RegistryQuery \<Rightarrow> ServiceDescriptor \<Rightarrow> ServiceInstance \<Rightarrow> CandidateScore" where
  "candidate_score r q svc inst =
    (let fs = score_factors r q svc inst
     in \<lparr>cs_instance_id = si_instance_id inst, cs_factors = fs,
         cs_total = foldl (\<lambda>t (_, v). f64_add t v) 0 fs, cs_rank = 0\<rparr>)"

section \<open>The query loop\<close>

text \<open>The rejections recorded for one candidate, and its score when it reaches the end.\<close>

definition inspect ::
  "Registry \<Rightarrow> RegistryQuery \<Rightarrow> ServiceDescriptor \<Rightarrow> ServiceInstance \<Rightarrow>
    rejection list \<times> CandidateScore option" where
  "inspect r q svc inst =
    (case authority_filter r q inst of
       Some j \<Rightarrow> ([j], None)
     | None \<Rightarrow>
         (case protocol_filter r q inst of
            (js, True) \<Rightarrow> (js, None)
          | (js, False) \<Rightarrow>
              (case capability_filter r inst (q_required_capabilities q) of
                 Some j \<Rightarrow> (js @ [j], None)
               | None \<Rightarrow>
                   (case contract_filter r q svc inst of
                      Some j \<Rightarrow> (js @ [j], None)
                    | None \<Rightarrow> (js, Some (candidate_score r q svc inst))))))"

record Sightings =
  saw_stale :: bool
  saw_unready :: bool
  saw_unhealthy :: bool
  saw_unreachable :: bool
  saw_incompatible :: bool
  saw_insufficient :: bool
  saw_any :: bool

definition no_sightings :: Sightings where
  "no_sightings = \<lparr>saw_stale = False, saw_unready = False, saw_unhealthy = False,
     saw_unreachable = False, saw_incompatible = False, saw_insufficient = False, saw_any = False\<rparr>"

text \<open>What the lambda \<^verbatim>\<open>reject\<close> notes about a category.\<close>

definition note_rejection :: "RejectionCategory \<Rightarrow> Sightings \<Rightarrow> Sightings" where
  "note_rejection cat s =
    (if cat = RejectionCategory.STALE \<or> cat = RejectionCategory.STALE_AUTHORITY
        \<or> cat = RejectionCategory.LEASE_INVALID \<or> cat = RejectionCategory.INVALIDATED
        \<or> cat = RejectionCategory.TOMBSTONED then s\<lparr>saw_stale := True\<rparr>
     else if cat = RejectionCategory.UNREADY then s\<lparr>saw_unready := True\<rparr>
     else if cat = RejectionCategory.UNHEALTHY then s\<lparr>saw_unhealthy := True\<rparr>
     else if cat = RejectionCategory.UNREACHABLE then s\<lparr>saw_unreachable := True\<rparr>
     else if cat = RejectionCategory.INCOMPATIBLE_PROTOCOL
        \<or> cat = RejectionCategory.INCOMPATIBLE_API \<or> cat = RejectionCategory.INCOMPATIBLE_ABI
        \<or> cat = RejectionCategory.BELOW_MIN_VERSION
        \<or> cat = RejectionCategory.ARCHITECTURE_MISMATCH
        \<or> cat = RejectionCategory.WRONG_RUNTIME then s\<lparr>saw_incompatible := True\<rparr>
     else if cat = RejectionCategory.INSUFFICIENT_EVIDENCE then s\<lparr>saw_insufficient := True\<rparr>
     else s)\<lparr>saw_any := True\<rparr>"

definition rejection_of :: "ServiceInstance \<Rightarrow> rejection \<Rightarrow> CandidateRejection" where
  "rejection_of inst j =
    \<lparr>cj_instance_id = si_instance_id inst, cj_reason = reject_detail (fst j),
     cj_detail = snd j, cj_category = fst j\<rparr>"

record Scan =
  sc_ranked :: "CandidateScore list"
  sc_rejected :: "CandidateRejection list"
  sc_considered :: int
  sc_saw :: Sightings

definition scan_step :: "Registry \<Rightarrow> RegistryQuery \<Rightarrow> Scan \<Rightarrow> ServiceInstance \<Rightarrow> Scan" where
  "scan_step r q sc inst =
    (case hm_find (r_services r) (si_service_id inst) of
       None \<Rightarrow> sc
     | Some svc \<Rightarrow>
         if id_set (q_exact_service_id q) \<and> si_service_id inst \<noteq> q_exact_service_id q then sc
         else if q_service_kind q \<noteq> ServiceKind.UNKNOWN \<and> svc_kind svc \<noteq> q_service_kind q then
           sc\<lparr>sc_saw := (sc_saw sc)\<lparr>saw_any := True, saw_incompatible := True\<rparr>\<rparr>
         else
           (case inspect r q svc inst of (js, score) \<Rightarrow>
              let saw = foldl (\<lambda>s j. note_rejection (fst j) s) (sc_saw sc) js
              in sc\<lparr>sc_considered := sc_considered sc + 1,
                    sc_rejected := sc_rejected sc @ map (rejection_of inst) js,
                    sc_ranked := sc_ranked sc @ (case score of None \<Rightarrow> [] | Some cs \<Rightarrow> [cs]),
                    sc_saw := (case score of None \<Rightarrow> saw | Some _ \<Rightarrow> saw\<lparr>saw_any := True\<rparr>)\<rparr>))"

definition scan :: "Registry \<Rightarrow> RegistryQuery \<Rightarrow> Scan" where
  "scan r q = foldl (\<lambda>sc (_, inst). scan_step r q sc inst)
    \<lparr>sc_ranked = [], sc_rejected = [], sc_considered = 0, sc_saw = no_sightings\<rparr> (r_instances r)"

text \<open>
  The ranking: higher totals first, then smaller identities. \<^verbatim>\<open>std::sort\<close> leaves the
  order of elements that agree in both open; the stable order stands for it.
\<close>

definition score_key :: "CandidateScore \<Rightarrow> score \<times> ServiceInstanceId" where
  "score_key cs = (- cs_total cs, cs_instance_id cs)"

definition assign_ranks :: "CandidateScore list \<Rightarrow> CandidateScore list" where
  "assign_ranks css = map (\<lambda>(i, cs). cs\<lparr>cs_rank := int i\<rparr>) (enumerate 0 css)"

definition query_outcome :: "nat \<Rightarrow> Sightings \<Rightarrow> QueryOutcome" where
  "query_outcome found s =
    (if found > 0 then
       (if found = 1 then QueryOutcome.FOUND_EXACT else QueryOutcome.FOUND_MULTIPLE)
     else if \<not> saw_any s then QueryOutcome.NOT_FOUND
     else if saw_insufficient s \<and> \<not> saw_stale s \<and> \<not> saw_unready s \<and> \<not> saw_unhealthy s
         \<and> \<not> saw_unreachable s \<and> \<not> saw_incompatible s then QueryOutcome.INSUFFICIENT_EVIDENCE
     else if saw_stale s then QueryOutcome.STALE_ONLY
     else if saw_unready s then QueryOutcome.UNREADY_ONLY
     else if saw_unhealthy s then QueryOutcome.UNHEALTHY_ONLY
     else if saw_unreachable s then QueryOutcome.UNREACHABLE_ONLY
     else if saw_incompatible s then QueryOutcome.INCOMPATIBLE_ONLY
     else QueryOutcome.INSUFFICIENT_EVIDENCE)"

definition query :: "Registry \<Rightarrow> RegistryQuery \<Rightarrow> RegistryResult" where
  "query r q =
    (let sc = scan r q;
         ranked = assign_ranks (sort_key score_key (sc_ranked sc));
         selected = map cs_instance_id ranked
     in \<lparr>rr_outcome = query_outcome (length ranked) (sc_saw sc),
         rr_ranked = ranked, rr_rejected = sc_rejected sc,
         rr_selected =
           (if length selected > unat (q_max_results q)
            then take (unat (q_max_results q)) selected else selected),
         rr_factor_summary = [], rr_total_considered = sc_considered sc, rr_explanation = []\<rparr>)"

definition query_and_account :: "RegistryQuery \<Rightarrow> Registry \<Rightarrow> RegistryResult \<times> Registry" where
  "query_and_account q r =
    (let res = query r q; r1 = count ac_queries_update r; out = rr_outcome res
     in (res,
         if out = QueryOutcome.FOUND_EXACT then count ac_exact_hits_update r1
         else if out = QueryOutcome.FOUND_MULTIPLE \<or> out = QueryOutcome.FOUND_COMPATIBLE then
           count ac_compatible_hits_update r1
         else if out = QueryOutcome.NOT_FOUND then count ac_misses_update r1
         else if out = QueryOutcome.STALE_ONLY then count ac_stale_only_update r1
         else if out = QueryOutcome.UNREADY_ONLY then count ac_unready_only_update r1
         else if out = QueryOutcome.INCOMPATIBLE_ONLY then count ac_incompatible_update r1
         else r1))"

section \<open>Eligibility\<close>

text \<open>The service under which the query considers an instance at all.\<close>

definition considered :: "Registry \<Rightarrow> RegistryQuery \<Rightarrow> ServiceInstance \<Rightarrow> ServiceDescriptor option" where
  "considered r q inst =
    (case hm_find (r_services r) (si_service_id inst) of
       None \<Rightarrow> None
     | Some svc \<Rightarrow>
         if (id_set (q_exact_service_id q) \<longrightarrow> si_service_id inst = q_exact_service_id q)
            \<and> (q_service_kind q = ServiceKind.UNKNOWN \<or> svc_kind svc = q_service_kind q)
         then Some svc else None)"

text \<open>
  What the filters together demand, without their order: the specification of a valid candidate.
  A requested protocol only has to be backed by some registered protocol of the instance.
\<close>

definition eligible :: "Registry \<Rightarrow> RegistryQuery \<Rightarrow> ServiceDescriptor \<Rightarrow> ServiceInstance \<Rightarrow> bool" where
  "eligible r q svc inst \<longleftrightarrow>
    (q_current_only q \<longrightarrow> \<not> historical (si_lifecycle inst))
    \<and> si_lifecycle inst \<noteq> Lifecycle.STALE \<and> si_lifecycle inst \<noteq> Lifecycle.INVALIDATED
    \<and> si_lifecycle inst \<noteq> Lifecycle.TOMBSTONED
    \<and> is_boot_live (r_authority r) (si_boot inst)
    \<and> freshness_meets (si_freshness inst) (q_required_freshness q)
    \<and> (id_set (si_lease inst) \<longrightarrow> (\<exists>l. hm_find (r_leases r) (si_lease inst) = Some l
          \<and> ls_state l = LeaseState.ACTIVE))
    \<and> readiness_meets (si_readiness inst) (q_required_readiness q)
    \<and> health_meets (si_health inst) (q_required_health q)
    \<and> reachability_meets (si_reachability inst) (q_required_reachability q)
    \<and> (id_set (q_protocol_requirement q) \<and> q_has_protocol_version q \<longrightarrow>
          (\<exists>p \<in> set (si_protocols inst). hm_find (r_protocols r) p \<noteq> None))
    \<and> (\<forall>req \<in> set (q_required_capabilities q).
          has_current_capability (r_capabilities r) (si_capabilities inst) req)
    \<and> (\<forall>rt. hm_find (r_runtime_instances r) (si_runtime_instance inst) = Some rt \<longrightarrow>
          (q_runtime_kind q = RuntimeKind.UNKNOWN \<or> rt_kind rt = q_runtime_kind q)
          \<and> (q_runtime_family q = [] \<or> rt_family rt = q_runtime_family q)
          \<and> (q_architecture q = [] \<or> rt_architecture rt = []
              \<or> rt_architecture rt = q_architecture q))
    \<and> (q_has_minimum_api q \<longrightarrow> \<not> ver_less (svc_api_version svc) (q_minimum_api q))
    \<and> (q_has_abi_requirement q \<longrightarrow>
          ver_major (svc_abi_version svc) = ver_major (q_abi_requirement q))"

lemma satisfaction_range:
  "sat \<in> {0, 1} \<Longrightarrow> satisfaction_loop r req cids sat \<in> {-1, 0, 1}"
  by (induction r req cids sat rule: satisfaction_loop.induct) (auto split: option.splits)

lemma satisfaction_satisfied:
  "sat \<noteq> -1 \<Longrightarrow> satisfaction_loop r req cids sat = -1 \<longleftrightarrow>
    has_current_capability (r_capabilities r) cids req"
proof (induction r req cids sat rule: satisfaction_loop.induct)
  case (2 r req cid cids sat)
  then show ?case
    by (auto simp: has_current_capability_def capability_satisfaction_def capability_current_def
        split: option.splits)
qed (simp add: has_current_capability_def)

lemma capability_filter_None:
  "capability_filter r inst reqs = None \<longleftrightarrow>
    (\<forall>req \<in> set reqs. has_current_capability (r_capabilities r) (si_capabilities inst) req)"
  by (induction reqs) (auto simp: Let_def satisfaction_satisfied)

lemma protocol_loop_any:
  "fst (protocol_loop r q pids any) \<longleftrightarrow> any \<or> (\<exists>p \<in> set pids. hm_find (r_protocols r) p \<noteq> None)"
  by (induction r q pids any rule: protocol_loop.induct) (auto split: option.splits)

lemma protocol_loop_stopped: "snd (protocol_loop r q pids any) \<Longrightarrow> fst (protocol_loop r q pids any)"
  by (induction r q pids any rule: protocol_loop.induct) (auto split: option.splits if_splits)

lemma protocol_filter_passes:
  "\<not> snd (protocol_filter r q inst) \<longleftrightarrow>
    (id_set (q_protocol_requirement q) \<and> q_has_protocol_version q \<longrightarrow>
      (\<exists>p \<in> set (si_protocols inst). hm_find (r_protocols r) p \<noteq> None))"
proof (cases "protocol_loop r q (si_protocols inst) False")
  case (Pair any stopped)
  have "any \<longleftrightarrow> (\<exists>p \<in> set (si_protocols inst). hm_find (r_protocols r) p \<noteq> None)"
    using protocol_loop_any [of r q "si_protocols inst" False] by (simp add: Pair)
  moreover have "stopped \<Longrightarrow> any"
    using protocol_loop_stopped [of r q "si_protocols inst" False] by (simp add: Pair)
  ultimately show ?thesis
    by (cases stopped) (simp_all add: protocol_filter_def Pair)
qed

lemma authority_filter_None:
  "authority_filter r q inst = None \<longleftrightarrow>
    (q_current_only q \<longrightarrow> \<not> historical (si_lifecycle inst))
    \<and> si_lifecycle inst \<noteq> Lifecycle.STALE \<and> si_lifecycle inst \<noteq> Lifecycle.INVALIDATED
    \<and> si_lifecycle inst \<noteq> Lifecycle.TOMBSTONED
    \<and> is_boot_live (r_authority r) (si_boot inst)
    \<and> freshness_meets (si_freshness inst) (q_required_freshness q)
    \<and> (id_set (si_lease inst) \<longrightarrow> (\<exists>l. hm_find (r_leases r) (si_lease inst) = Some l
          \<and> ls_state l = LeaseState.ACTIVE))
    \<and> readiness_meets (si_readiness inst) (q_required_readiness q)
    \<and> health_meets (si_health inst) (q_required_health q)
    \<and> reachability_meets (si_reachability inst) (q_required_reachability q)"
  by (auto simp: authority_filter_def split: option.splits if_splits)

lemma contract_filter_None:
  "contract_filter r q svc inst = None \<longleftrightarrow>
    (\<forall>rt. hm_find (r_runtime_instances r) (si_runtime_instance inst) = Some rt \<longrightarrow>
          (q_runtime_kind q = RuntimeKind.UNKNOWN \<or> rt_kind rt = q_runtime_kind q)
          \<and> (q_runtime_family q = [] \<or> rt_family rt = q_runtime_family q)
          \<and> (q_architecture q = [] \<or> rt_architecture rt = []
              \<or> rt_architecture rt = q_architecture q))
    \<and> (q_has_minimum_api q \<longrightarrow> \<not> ver_less (svc_api_version svc) (q_minimum_api q))
    \<and> (q_has_abi_requirement q \<longrightarrow>
          ver_major (svc_abi_version svc) = ver_major (q_abi_requirement q))"
  by (auto simp: contract_filter_def Let_def split: option.splits if_splits)

text \<open>The filters, run in the order of the code, accept exactly the eligible instances.\<close>

lemma inspect_score:
  "snd (inspect r q svc inst) =
    (if eligible r q svc inst then Some (candidate_score r q svc inst) else None)"
proof -
  have "eligible r q svc inst \<longleftrightarrow> authority_filter r q inst = None
      \<and> \<not> snd (protocol_filter r q inst)
      \<and> capability_filter r inst (q_required_capabilities q) = None
      \<and> contract_filter r q svc inst = None"
    unfolding eligible_def authority_filter_None protocol_filter_passes capability_filter_None
      contract_filter_None by blast
  then show ?thesis
    by (cases "protocol_filter r q inst"; cases "snd (protocol_filter r q inst)")
      (simp_all add: inspect_def split: option.split)
qed

section \<open>The loop, candidate by candidate\<close>

definition ranked_of :: "Registry \<Rightarrow> RegistryQuery \<Rightarrow> ServiceInstance \<Rightarrow> CandidateScore list" where
  "ranked_of r q inst =
    (case considered r q inst of
       None \<Rightarrow> []
     | Some svc \<Rightarrow> if eligible r q svc inst then [candidate_score r q svc inst] else [])"

definition rejected_of :: "Registry \<Rightarrow> RegistryQuery \<Rightarrow> ServiceInstance \<Rightarrow> CandidateRejection list" where
  "rejected_of r q inst =
    (case considered r q inst of
       None \<Rightarrow> [] | Some svc \<Rightarrow> map (rejection_of inst) (fst (inspect r q svc inst)))"

definition sightings_of :: "Registry \<Rightarrow> RegistryQuery \<Rightarrow> ServiceInstance \<Rightarrow> Sightings" where
  "sightings_of r q inst = sc_saw (scan_step r q
    \<lparr>sc_ranked = [], sc_rejected = [], sc_considered = 0, sc_saw = no_sightings\<rparr> inst)"

definition join_sightings :: "Sightings \<Rightarrow> Sightings \<Rightarrow> Sightings" where
  "join_sightings s t =
    \<lparr>saw_stale = (saw_stale s \<or> saw_stale t), saw_unready = (saw_unready s \<or> saw_unready t),
     saw_unhealthy = (saw_unhealthy s \<or> saw_unhealthy t),
     saw_unreachable = (saw_unreachable s \<or> saw_unreachable t),
     saw_incompatible = (saw_incompatible s \<or> saw_incompatible t),
     saw_insufficient = (saw_insufficient s \<or> saw_insufficient t),
     saw_any = (saw_any s \<or> saw_any t)\<rparr>"

lemma join_no_sightings [simp]:
  "join_sightings s no_sightings = s" "join_sightings no_sightings s = s"
  by (simp_all add: join_sightings_def no_sightings_def)

lemma join_assoc: "join_sightings (join_sightings s t) u = join_sightings s (join_sightings t u)"
  by (simp add: join_sightings_def)

lemma note_rejection_join:
  "note_rejection cat (join_sightings s t) = join_sightings s (note_rejection cat t)"
  by (simp add: note_rejection_def join_sightings_def)

lemma note_rejections_join:
  "foldl (\<lambda>s j. note_rejection (fst j) s) (join_sightings s t) js =
    join_sightings s (foldl (\<lambda>s j. note_rejection (fst j) s) t js)"
  by (induction js arbitrary: t) (simp_all add: note_rejection_join)

lemma scan_step_Some:
  assumes "considered r q inst = Some svc"
  shows "scan_step r q sc inst =
    sc\<lparr>sc_considered := sc_considered sc + 1,
       sc_rejected := sc_rejected sc @ rejected_of r q inst,
       sc_ranked := sc_ranked sc @ ranked_of r q inst,
       sc_saw := (let saw = foldl (\<lambda>s j. note_rejection (fst j) s) (sc_saw sc)
             (fst (inspect r q svc inst))
         in if eligible r q svc inst then saw\<lparr>saw_any := True\<rparr> else saw)\<rparr>"
proof -
  obtain js where i: "inspect r q svc inst =
      (js, if eligible r q svc inst then Some (candidate_score r q svc inst) else None)"
    using inspect_score by (metis prod.collapse)
  have svc: "hm_find (r_services r) (si_service_id inst) = Some svc"
    and pre: "\<not> (id_set (q_exact_service_id q) \<and> si_service_id inst \<noteq> q_exact_service_id q)"
      "\<not> (q_service_kind q \<noteq> ServiceKind.UNKNOWN \<and> svc_kind svc \<noteq> q_service_kind q)"
    using assms by (auto simp: considered_def split: option.splits if_splits)
  show ?thesis
    unfolding scan_step_def svc option.case if_not_P [OF pre(1)] if_not_P [OF pre(2)]
    by (simp add: i Let_def ranked_of_def rejected_of_def assms)
qed

lemma scan_step_None:
  assumes "considered r q inst = None"
  shows "scan_step r q sc inst = sc
    \<or> scan_step r q sc inst = sc\<lparr>sc_saw := (sc_saw sc)\<lparr>saw_any := True, saw_incompatible := True\<rparr>\<rparr>"
  using assms by (auto simp: scan_step_def considered_def split: option.splits if_splits)

lemma scan_step_parts:
  "sc_ranked (scan_step r q sc inst) = sc_ranked sc @ ranked_of r q inst"
  "sc_rejected (scan_step r q sc inst) = sc_rejected sc @ rejected_of r q inst"
  "sc_considered (scan_step r q sc inst) =
    sc_considered sc + (if considered r q inst = None then 0 else 1)"
proof (atomize (full), cases "considered r q inst")
  case None
  then show "sc_ranked (scan_step r q sc inst) = sc_ranked sc @ ranked_of r q inst \<and>
      sc_rejected (scan_step r q sc inst) = sc_rejected sc @ rejected_of r q inst \<and>
      sc_considered (scan_step r q sc inst) =
        sc_considered sc + (if considered r q inst = None then 0 else 1)"
    using scan_step_None [OF None, of sc] by (auto simp: ranked_of_def rejected_of_def)
next
  case (Some svc)
  then show "sc_ranked (scan_step r q sc inst) = sc_ranked sc @ ranked_of r q inst \<and>
      sc_rejected (scan_step r q sc inst) = sc_rejected sc @ rejected_of r q inst \<and>
      sc_considered (scan_step r q sc inst) =
        sc_considered sc + (if considered r q inst = None then 0 else 1)"
    by (simp add: scan_step_Some [OF Some])
qed

lemma scan_step_saw:
  "sc_saw (scan_step r q sc inst) = join_sightings (sc_saw sc) (sightings_of r q inst)"
proof (cases "considered r q inst")
  case None
  show ?thesis
  proof (cases "hm_find (r_services r) (si_service_id inst)")
    case None
    then show ?thesis by (simp add: scan_step_def sightings_of_def)
  next
    case (Some svc)
    then show ?thesis
      by (simp add: scan_step_def sightings_of_def None [unfolded considered_def])
        (use None in \<open>auto simp: considered_def Some join_sightings_def no_sightings_def
          split: if_splits\<close>)
  qed
next
  case (Some svc)
  have "foldl (\<lambda>s j. note_rejection (fst j) s) (sc_saw sc) js =
      join_sightings (sc_saw sc) (foldl (\<lambda>s j. note_rejection (fst j) s) no_sightings js)"
    for js :: "rejection list"
    using note_rejections_join [of "sc_saw sc" no_sightings js] by simp
  moreover have "join_sightings s t\<lparr>saw_any := True\<rparr> = join_sightings s (t\<lparr>saw_any := True\<rparr>)" for s t
    by (simp add: join_sightings_def)
  ultimately have "(let saw = foldl (\<lambda>s j. note_rejection (fst j) s) (sc_saw sc) js
        in if e then saw\<lparr>saw_any := True\<rparr> else saw) =
      join_sightings (sc_saw sc) (let saw = foldl (\<lambda>s j. note_rejection (fst j) s) no_sightings js
        in if e then saw\<lparr>saw_any := True\<rparr> else saw)" for js :: "rejection list" and e
    by (simp add: Let_def)
  then show ?thesis
    unfolding sightings_of_def scan_step_Some [OF Some] by simp
qed

lemma scan_parts:
  "sc_ranked (scan r q) = concat (map (\<lambda>(_, i). ranked_of r q i) (r_instances r))"
  "sc_rejected (scan r q) = concat (map (\<lambda>(_, i). rejected_of r q i) (r_instances r))"
  "sc_considered (scan r q) =
    int (length (filter (\<lambda>(_, i). considered r q i \<noteq> None) (r_instances r)))"
  "sc_saw (scan r q) =
    foldl join_sightings no_sightings (map (\<lambda>(_, i). sightings_of r q i) (r_instances r))"
proof -
  have "sc_ranked (foldl (\<lambda>sc (_, inst). scan_step r q sc inst) sc m) =
      sc_ranked sc @ concat (map (\<lambda>(_, i). ranked_of r q i) m)
    \<and> sc_rejected (foldl (\<lambda>sc (_, inst). scan_step r q sc inst) sc m) =
      sc_rejected sc @ concat (map (\<lambda>(_, i). rejected_of r q i) m)
    \<and> sc_considered (foldl (\<lambda>sc (_, inst). scan_step r q sc inst) sc m) =
      sc_considered sc + int (length (filter (\<lambda>(_, i). considered r q i \<noteq> None) m))
    \<and> sc_saw (foldl (\<lambda>sc (_, inst). scan_step r q sc inst) sc m) =
      foldl join_sightings (sc_saw sc) (map (\<lambda>(_, i). sightings_of r q i) m)"
    for sc and m :: "(ServiceInstanceId, ServiceInstance) hmap"
    by (induction m arbitrary: sc) (auto simp: scan_step_parts scan_step_saw)
  note loop = this [of "\<lparr>sc_ranked = [], sc_rejected = [], sc_considered = 0, sc_saw = no_sightings\<rparr>"
      "r_instances r"]
  show "sc_ranked (scan r q) = concat (map (\<lambda>(_, i). ranked_of r q i) (r_instances r))"
    "sc_rejected (scan r q) = concat (map (\<lambda>(_, i). rejected_of r q i) (r_instances r))"
    "sc_considered (scan r q) =
      int (length (filter (\<lambda>(_, i). considered r q i \<noteq> None) (r_instances r)))"
    "sc_saw (scan r q) =
      foldl join_sightings no_sightings (map (\<lambda>(_, i). sightings_of r q i) (r_instances r))"
    using loop by (simp_all add: scan_def)
qed

section \<open>Ranking\<close>

lemma candidate_score_id [simp]: "cs_instance_id (candidate_score r q svc inst) = si_instance_id inst"
  by (simp add: candidate_score_def Let_def)

lemma ranked_of_ids: "cs \<in> set (ranked_of r q inst) \<Longrightarrow> cs_instance_id cs = si_instance_id inst"
  by (auto simp: ranked_of_def split: option.splits if_splits)

lemma ranked_of_length: "length (ranked_of r q inst) \<le> 1"
  by (simp add: ranked_of_def split: option.split)

text \<open>The ranked candidates of a query, before sorting, come from distinct instances.\<close>

lemma keyed_id: "keyed m \<Longrightarrow> (k, i) \<in> set m \<Longrightarrow> si_instance_id i = k"
  by (auto simp: keyed_def dest: in_set_hm_find)

lemma keyed_Cons:
  assumes "keyed ((k, i) # m)"
  shows "keyed m \<and> si_instance_id i = k \<and> k \<notin> fst ` set m"
proof (intro conjI)
  have wf: "hm_wf m" "k \<notin> fst ` set m" using assms by (simp_all add: keyed_def hm_wf_def)
  show "k \<notin> fst ` set m" by (rule wf(2))
  have ids: "(k', i') \<in> set ((k, i) # m) \<Longrightarrow> si_instance_id i' = k'" for k' i'
    using assms by (rule keyed_id)
  then show "si_instance_id i = k" by simp
  show "keyed m"
    unfolding keyed_def
  proof (intro conjI allI impI)
    show "si_instance_id i' = k'" if "hm_find m k' = Some i'" for k' i'
      using ids [of k' i'] hm_find_in_set [OF that] by simp
  qed (rule wf(1))
qed

lemma distinct_ranked:
  assumes "keyed m"
  shows "distinct (map cs_instance_id (concat (map (\<lambda>(_, i). ranked_of r q i) m)))"
  using assms
proof (induction m)
  case (Cons p m)
  obtain k i where p: "p = (k, i)" by (cases p)
  have keyed: "keyed m" "si_instance_id i = k" "k \<notin> fst ` set m"
    and ids: "\<And>k' i'. (k', i') \<in> set m \<Longrightarrow> si_instance_id i' = k'"
    using keyed_Cons [OF Cons.prems [unfolded p]] keyed_id by blast+
  have "cs_instance_id ` set (ranked_of r q i) \<subseteq> {k}"
    using ranked_of_ids keyed(2) by auto
  moreover have "k \<notin> cs_instance_id ` set (concat (map (\<lambda>(_, i). ranked_of r q i) m))"
    using ranked_of_ids ids keyed(3) by force
  moreover have "distinct (map cs_instance_id (ranked_of r q i))"
    using ranked_of_length [of r q i] by (cases "ranked_of r q i") auto
  ultimately show ?case
    using Cons.IH [OF keyed(1)] unfolding p list.map concat.simps map_append distinct_append set_map
      prod.case by blast
qed simp

lemma assign_ranks_simps [simp]:
  "length (assign_ranks css) = length css"
  "map cs_instance_id (assign_ranks css) = map cs_instance_id css"
  "map cs_total (assign_ranks css) = map cs_total css"
proof -
  have "map f (map (\<lambda>(i, cs). cs\<lparr>cs_rank := int i\<rparr>) (enumerate n css)) = map f css"
    if "\<And>i cs. f (cs\<lparr>cs_rank := i\<rparr>) = f cs" for n and f :: "CandidateScore \<Rightarrow> 'b"
    using that by (induction css arbitrary: n) simp_all
  from this [of cs_instance_id 0] this [of cs_total 0]
  show "map cs_instance_id (assign_ranks css) = map cs_instance_id css"
    "map cs_total (assign_ranks css) = map cs_total css"
    by (simp_all add: assign_ranks_def)
qed (simp add: assign_ranks_def)

lemma assign_ranks_nth:
  "i < length css \<Longrightarrow> assign_ranks css ! i = (css ! i)\<lparr>cs_rank := int i\<rparr>"
  by (simp add: assign_ranks_def nth_enumerate_eq)

text \<open>
  Any arrangement of the candidates that is sorted the way the comparator demands is the one the
  model computes, so the result does not depend on the sorting algorithm.
\<close>

lemma ranking_unique:
  assumes "distinct (map cs_instance_id css)" "mset css' = mset css" "sorted (map score_key css')"
  shows "sort_key score_key css = css'"
proof (rule sort_key_inj_key_eq [OF _ _ assms(3)])
  show "mset css = mset css'" using assms(2) by simp
  show "inj_on score_key (set css)"
    using assms(1) by (auto simp: score_key_def distinct_map inj_on_def)
qed

section \<open>Independence from the order of the hash map\<close>

lemma join_sightings_fields:
  "saw_stale (join_sightings s t) \<longleftrightarrow> saw_stale s \<or> saw_stale t"
  "saw_unready (join_sightings s t) \<longleftrightarrow> saw_unready s \<or> saw_unready t"
  "saw_unhealthy (join_sightings s t) \<longleftrightarrow> saw_unhealthy s \<or> saw_unhealthy t"
  "saw_unreachable (join_sightings s t) \<longleftrightarrow> saw_unreachable s \<or> saw_unreachable t"
  "saw_incompatible (join_sightings s t) \<longleftrightarrow> saw_incompatible s \<or> saw_incompatible t"
  "saw_insufficient (join_sightings s t) \<longleftrightarrow> saw_insufficient s \<or> saw_insufficient t"
  "saw_any (join_sightings s t) \<longleftrightarrow> saw_any s \<or> saw_any t"
  by (simp_all add: join_sightings_def)

lemma joined_field:
  assumes "\<And>s t. f (join_sightings s t) \<longleftrightarrow> f s \<or> f t"
  shows "f (foldl join_sightings s ts) \<longleftrightarrow> f s \<or> (\<exists>t \<in> set ts. f t)"
  by (induction ts arbitrary: s) (auto simp: assms)

lemma join_set_cong:
  assumes "set ts = set ts'"
  shows "foldl join_sightings s ts = foldl join_sightings s ts'"
  by (rule Sightings.equality)
    (simp_all add: assms joined_field [of saw_stale] joined_field [of saw_unready]
      joined_field [of saw_unhealthy] joined_field [of saw_unreachable]
      joined_field [of saw_incompatible] joined_field [of saw_insufficient]
      joined_field [of saw_any] join_sightings_fields)

text \<open>What one candidate contributes depends on the registry's other members only.\<close>

lemma per_candidate_cong:
  "considered (r\<lparr>r_instances := m\<rparr>) q i = considered r q i"
  "eligible (r\<lparr>r_instances := m\<rparr>) q svc i = eligible r q svc i"
  "score_factors (r\<lparr>r_instances := m\<rparr>) q svc i = score_factors r q svc i"
  by (simp_all add: considered_def eligible_def score_factors_def satisfied_count_def)

lemma loops_cong:
  "protocol_loop (r\<lparr>r_instances := m\<rparr>) q pids any = protocol_loop r q pids any"
  "satisfaction_loop (r\<lparr>r_instances := m\<rparr>) req cids sat = satisfaction_loop r req cids sat"
  "capability_filter (r\<lparr>r_instances := m\<rparr>) i reqs = capability_filter r i reqs"
proof -
  show "protocol_loop (r\<lparr>r_instances := m\<rparr>) q pids any = protocol_loop r q pids any"
    by (induction pids arbitrary: any) (simp_all split: option.split)
  show sat: "satisfaction_loop (r\<lparr>r_instances := m\<rparr>) req cids sat = satisfaction_loop r req cids sat"
    for req cids sat
    by (induction cids arbitrary: sat) (simp_all split: option.split)
  show "capability_filter (r\<lparr>r_instances := m\<rparr>) i reqs = capability_filter r i reqs"
    by (induction reqs) (simp_all add: sat Let_def)
qed

lemma inspect_cong: "inspect (r\<lparr>r_instances := m\<rparr>) q svc i = inspect r q svc i"
proof -
  have "authority_filter (r\<lparr>r_instances := m\<rparr>) q i = authority_filter r q i"
  proof -
    have "r_authority (r\<lparr>r_instances := m\<rparr>) = r_authority r" "r_leases (r\<lparr>r_instances := m\<rparr>) = r_leases r"
      by simp_all
    then show ?thesis by (simp only: authority_filter_def)
  qed
  moreover have "protocol_filter (r\<lparr>r_instances := m\<rparr>) q i = protocol_filter r q i"
    by (simp only: protocol_filter_def loops_cong)
  moreover have "contract_filter (r\<lparr>r_instances := m\<rparr>) q svc i = contract_filter r q svc i"
    by (simp add: contract_filter_def)
  moreover have "candidate_score (r\<lparr>r_instances := m\<rparr>) q svc i = candidate_score r q svc i"
    by (simp add: candidate_score_def per_candidate_cong)
  ultimately have "authority_filter (r\<lparr>r_instances := m\<rparr>) q i = authority_filter r q i"
    "protocol_filter (r\<lparr>r_instances := m\<rparr>) q i = protocol_filter r q i"
    "contract_filter (r\<lparr>r_instances := m\<rparr>) q svc i = contract_filter r q svc i"
    "candidate_score (r\<lparr>r_instances := m\<rparr>) q svc i = candidate_score r q svc i" by -
  then show ?thesis by (simp only: inspect_def loops_cong)
qed

lemma contributions_cong:
  "ranked_of (r\<lparr>r_instances := m\<rparr>) q i = ranked_of r q i"
  "rejected_of (r\<lparr>r_instances := m\<rparr>) q i = rejected_of r q i"
  "sightings_of (r\<lparr>r_instances := m\<rparr>) q i = sightings_of r q i"
  by (simp_all add: ranked_of_def rejected_of_def sightings_of_def scan_step_def inspect_cong
      candidate_score_def per_candidate_cong split: option.split)

lemma query_permutation:
  assumes "keyed (r_instances r)" "mset m = mset (r_instances r)"
  shows "rr_ranked (query (r\<lparr>r_instances := m\<rparr>) q) = rr_ranked (query r q)"
    and "rr_selected (query (r\<lparr>r_instances := m\<rparr>) q) = rr_selected (query r q)"
    and "rr_outcome (query (r\<lparr>r_instances := m\<rparr>) q) = rr_outcome (query r q)"
    and "rr_total_considered (query (r\<lparr>r_instances := m\<rparr>) q) = rr_total_considered (query r q)"
    and "mset (rr_rejected (query (r\<lparr>r_instances := m\<rparr>) q)) = mset (rr_rejected (query r q))"
proof -
  let ?r = "r\<lparr>r_instances := m\<rparr>"
  have concat: "mset (concat (map f m)) = mset (concat (map f (r_instances r)))"
    for f :: "ServiceInstanceId \<times> ServiceInstance \<Rightarrow> 'x list"
  proof -
    have "mset (concat (map f xs)) = \<Sum>\<^sub># (image_mset (\<lambda>x. mset (f x)) (mset xs))" for xs
      by (induction xs) simp_all
    then show ?thesis using assms(2) by simp
  qed
  have "sort_key score_key (sc_ranked (scan ?r q)) = sort_key score_key (sc_ranked (scan r q))"
  proof (rule sym, rule ranking_unique)
    show "distinct (map cs_instance_id (sc_ranked (scan r q)))"
      using distinct_ranked [OF assms(1)] by (simp add: scan_parts)
    show "mset (sort_key score_key (sc_ranked (scan ?r q))) = mset (sc_ranked (scan r q))"
      using concat by (simp add: scan_parts contributions_cong)
  qed simp
  moreover have "sc_saw (scan ?r q) = sc_saw (scan r q)"
    unfolding scan_parts contributions_cong
    by (rule join_set_cong) (use mset_eq_setD [OF assms(2)] in simp)
  ultimately show "rr_ranked (query ?r q) = rr_ranked (query r q)"
    "rr_selected (query ?r q) = rr_selected (query r q)"
    "rr_outcome (query ?r q) = rr_outcome (query r q)"
    by (simp_all add: query_def Let_def del: length_sort)
  show "rr_total_considered (query ?r q) = rr_total_considered (query r q)"
    using arg_cong [where f = size, OF arg_cong [where
        f = "filter_mset (\<lambda>(_, i). considered r q i \<noteq> None)", OF assms(2)]]
    by (simp add: query_def Let_def scan_parts per_candidate_cong flip: mset_filter size_mset)
  show "mset (rr_rejected (query ?r q)) = mset (rr_rejected (query r q))"
    using concat by (simp add: query_def Let_def scan_parts contributions_cong)
qed

section \<open>What a query returns\<close>

lemma query_simps:
  "rr_ranked (query r q) = assign_ranks (sort_key score_key (sc_ranked (scan r q)))"
  "rr_selected (query r q) =
    take (unat (q_max_results q)) (map cs_instance_id (rr_ranked (query r q)))"
  "rr_outcome (query r q) = query_outcome (length (rr_ranked (query r q))) (sc_saw (scan r q))"
  "rr_rejected (query r q) = sc_rejected (scan r q)"
  "rr_total_considered (query r q) = sc_considered (scan r q)"
  by (simp_all add: query_def Let_def)

lemma ranked_ids:
  "set (map cs_instance_id (rr_ranked (query r q))) = cs_instance_id ` set (sc_ranked (scan r q))"
  by (simp add: query_simps(1) del: set_map) simp

lemma ranked_of_image:
  "cs_instance_id ` set (ranked_of r q i) = (if ranked_of r q i = [] then {} else {si_instance_id i})"
  by (simp add: ranked_of_def split: option.split)

lemma ranked_of_nonempty:
  "ranked_of r q i \<noteq> [] \<longleftrightarrow> (\<exists>svc. considered r q i = Some svc \<and> eligible r q svc i)"
  by (simp add: ranked_of_def split: option.split)

lemma ranked_iff:
  assumes "keys_ok r"
  shows "k \<in> set (map cs_instance_id (rr_ranked (query r q))) \<longleftrightarrow>
    (\<exists>i svc. hm_find (r_instances r) k = Some i \<and> considered r q i = Some svc \<and> eligible r q svc i)"
proof -
  have keyed: "keyed (r_instances r)" and wf: "hm_wf (r_instances r)"
    using assms by (simp_all add: keys_ok_def keyed_def)
  have "k \<in> set (map cs_instance_id (rr_ranked (query r q))) \<longleftrightarrow>
      (\<exists>p \<in> set (r_instances r). k \<in> cs_instance_id ` set (ranked_of r q (snd p)))"
    unfolding ranked_ids scan_parts by (auto simp: split_beta)
  also have "\<dots> \<longleftrightarrow> (\<exists>k' i. (k', i) \<in> set (r_instances r) \<and> ranked_of r q i \<noteq> []
      \<and> si_instance_id i = k)"
    by (force simp: ranked_of_image)
  also have "\<dots> \<longleftrightarrow> (\<exists>i. (k, i) \<in> set (r_instances r) \<and> ranked_of r q i \<noteq> [])"
    using keyed_id [OF keyed] by blast
  finally show ?thesis by (simp add: ranked_of_nonempty hm_find_iff [OF wf])
qed

lemma ranked_distinct:
  "keys_ok r \<Longrightarrow> distinct (map cs_instance_id (rr_ranked (query r q)))"
  using distinct_ranked [of "r_instances r" r q]
  by (simp add: query_simps(1) keys_ok_def scan_parts distinct_map inj_on_def)

lemma ranked_order:
  assumes "keys_ok r" "i < j" "j < length (rr_ranked (query r q))"
  shows "score_key (rr_ranked (query r q) ! i) < score_key (rr_ranked (query r q) ! j)"
proof -
  let ?css = "sort_key score_key (sc_ranked (scan r q))"
  have len: "i < length ?css" "j < length ?css"
    using assms(2,3) by (simp_all add: query_simps(1))
  have key: "score_key (rr_ranked (query r q) ! i) = map score_key ?css ! i"
    if "i < length ?css" for i
    using that by (simp add: query_simps(1) assign_ranks_nth score_key_def)
  have "map score_key ?css ! i \<le> map score_key ?css ! j"
    using assms(2) len sorted_nth_mono [of "map score_key ?css" i j] by simp
  moreover have "distinct (map cs_instance_id ?css)"
    using ranked_distinct [OF assms(1), of q] by (simp add: query_simps(1))
  then have "cs_instance_id (?css ! i) \<noteq> cs_instance_id (?css ! j)"
    using nth_eq_iff_index_eq [of "map cs_instance_id ?css" i j] len assms(2) by simp
  then have "map score_key ?css ! i \<noteq> map score_key ?css ! j"
    using len by (simp add: score_key_def)
  ultimately show ?thesis using key len by (simp add: less_le)
qed

section \<open>Accounting a query\<close>

lemma query_and_account_frame [frame_simps]:
  "structure_view (snd (query_and_account q r)) = structure_view r"
  "auth_core (snd (query_and_account q r)) = auth_core r"
  "lease_view (snd (query_and_account q r)) = lease_view r"
  "available_ok (snd (query_and_account q r)) = available_ok r"
  by (simp_all add: query_and_account_def Let_def)

lemma query_and_account_acc [inv_intros]: "acc_ok r \<Longrightarrow> acc_ok (snd (query_and_account q r))"
  by (simp add: query_and_account_def Let_def acc_ok_count)

lemma query_and_account_only:
  "snd (query_and_account q r) = r\<lparr>r_accounting := r_accounting (snd (query_and_account q r))\<rparr>"
  by (simp add: query_and_account_def Let_def count_def)

section \<open>Exact scores\<close>

lemma sum_exact:
  "(\<Sum>p\<leftarrow>ivs. \<bar>snd p\<bar>) + \<bar>n\<bar> < 2 ^ 53 \<Longrightarrow>
    foldl (\<lambda>t (_, v). f64_add t v) (of_int n) (map (\<lambda>(f, v). (f, of_int v)) ivs) =
      of_int (n + (\<Sum>p\<leftarrow>ivs. snd p))"
proof (induction ivs arbitrary: n)
  case (Cons p ivs)
  obtain f v where p: "p = (f, v)" by (cases p)
  have nonneg: "0 \<le> (\<Sum>p\<leftarrow>ivs. \<bar>snd p\<bar>)" by (rule sum_list_nonneg) auto
  have small: "\<bar>n + v\<bar> < 2 ^ 53" and rest: "(\<Sum>p\<leftarrow>ivs. \<bar>snd p\<bar>) + \<bar>n + v\<bar> < 2 ^ 53"
    using Cons.prems nonneg abs_triangle_ineq [of n v] by (simp_all add: p)
  show ?case
    using Cons.IH [OF rest] f64_add_exact [OF small] by (simp add: p add.assoc)
qed simp

text \<open>
  Every required capability of an eligible instance is satisfied, so the quotient is exactly one.
\<close>

lemma satisfied_count_all:
  assumes "\<forall>req \<in> set reqs. has_current_capability (r_capabilities r) (si_capabilities inst) req"
    and "length reqs < 2 ^ 53"
  shows "satisfied_count r inst reqs = of_int (int (length reqs))"
proof -
  have sat: "list_ex (\<lambda>cid. case hm_find (r_capabilities r) cid of
        None \<Rightarrow> False | Some cap \<Rightarrow> capability_satisfaction cap req = -1) (si_capabilities inst)"
    if "req \<in> set reqs" for req
  proof -
    have "has_current_capability (r_capabilities r) (si_capabilities inst) req"
      using assms(1) that by blast
    then show ?thesis
      by (auto simp: has_current_capability_def list_ex_iff capability_satisfaction_def
          capability_current_def split: option.splits)
  qed
  have "foldl (\<lambda>n req. if list_ex (\<lambda>cid. case hm_find (r_capabilities r) cid of
        None \<Rightarrow> False | Some cap \<Rightarrow> capability_satisfaction cap req = -1) (si_capabilities inst)
      then f64_add n 1 else n) (of_int (int k)) rs = of_int (int (k + length rs))"
    if "set rs \<subseteq> set reqs" "k + length rs < 2 ^ 53" for rs k
    using that
  proof (induction rs arbitrary: k)
    case (Cons req rs)
    have "f64_add (of_int (int k)) (of_int 1) = of_int (int k + 1)"
      using Cons.prems(2) by (intro f64_add_exact) simp
    then have "f64_add (of_int (int k)) 1 = of_int (int (Suc k))" by simp
    with Cons.IH [of "Suc k"] Cons.prems sat show ?case by simp
  qed simp
  from this [of reqs 0] assms(2) show ?thesis by (simp add: satisfied_count_def)
qed

definition recency :: "ServiceDescriptor \<Rightarrow> int" where
  "recency svc = sint (sv_major (svc_version svc) * 100 + sv_minor (svc_version svc) * 10
     + sv_patch (svc_version svc))"

lemma total_exact:
  assumes el: "eligible r q svc inst" and len: "length (q_required_capabilities q) < 2 ^ 53"
    and rec: "\<bar>recency svc\<bar> < 2 ^ 52"
  shows "cs_total (candidate_score r q svc inst) =
    (\<Sum>p\<leftarrow>cs_factors (candidate_score r q svc inst). snd p)"
proof -
  let ?reqs = "q_required_capabilities q"
  have cap: "(if ?reqs = [] then 100
      else f64_mul (f64_div (satisfied_count r inst ?reqs) (f64_of_int (int (length ?reqs)))) 100) =
      (of_int 100 :: score)"
  proof (cases "?reqs = []")
    case False
    have "satisfied_count r inst ?reqs = of_int (int (length ?reqs))"
      using el len by (intro satisfied_count_all) (simp_all add: eligible_def)
    moreover have "f64_of_int (int (length ?reqs)) = of_int (int (length ?reqs))"
      using len by (intro f64_of_int_exact) simp
    moreover have "f64_mul 1 100 = (100 :: score)"
      using f64_of_int_exact [of 100] by (simp add: f64_mul_def f64_of_int_def)
    ultimately show ?thesis using False by (simp add: f64_div_self)
  qed simp
  have recent: "f64_of_int (recency svc) = of_int (recency svc)"
    using rec by (intro f64_of_int_exact) simp
  define ivs where "ivs =
    [(EXACT_SERVICE_ID, if id_set (q_exact_service_id q) \<and> si_service_id inst = q_exact_service_id q
          then 1000 else 0),
       (EXACT_API_VERSION, if q_has_minimum_api q \<and> ver_eq (svc_api_version svc) (q_minimum_api q)
          then 200 else 0),
       (EXACT_ABI, if q_has_abi_requirement q \<and> ver_eq (svc_abi_version svc) (q_abi_requirement q)
          then 150 else if q_has_abi_requirement q
            \<and> ver_major (svc_abi_version svc) = ver_major (q_abi_requirement q) then 80 else 0),
       (CAPABILITY_COMPLETENESS, 100),
       (READINESS, if si_readiness inst = Readiness.READY then 80
          else if si_readiness inst = Readiness.PARTIALLY_READY then 40 else 0),
       (HEALTH, if si_health inst = Health.HEALTHY then 80
          else if si_health inst = Health.DEGRADED then 40 else 0),
       (LOCALITY, if id_set (q_preferred_node q) \<and> si_node inst = q_preferred_node q then 100 else 0),
       (RUNTIME_PREFERENCE, if id_set (q_preferred_runtime q)
          \<and> si_runtime_id inst = q_preferred_runtime q then 100 else 0),
       (VERSION_RECENCY, recency svc),
       (ENDPOINT_REACHABILITY, if si_reachability inst = Reachability.REACHABLE then 60
          else if si_reachability inst = Reachability.DEGRADED then 30 else 0),
       (FRESHNESS, if si_freshness inst = Freshness.CURRENT then 100 else 0),
       (POLICY_PREFERENCE, if q_version_policy q = VersionPolicy.PREFER_RECENT then 10 else 0)]"
  have fs: "score_factors r q svc inst = map (\<lambda>(f, v). (f, of_int v)) ivs"
    using recent unfolding score_factors_def cap by (simp add: ivs_def recency_def)
  have choice: "\<bar>if b then x else y\<bar> \<le> (1000 :: int)" if "\<bar>x\<bar> \<le> 1000" "\<bar>y\<bar> \<le> 1000" for b x y
    using that by simp
  have sum12: "a \<le> 1000 \<Longrightarrow> b \<le> 1000 \<Longrightarrow> c \<le> 1000 \<Longrightarrow> d \<le> 1000 \<Longrightarrow> e \<le> 1000 \<Longrightarrow> f \<le> 1000 \<Longrightarrow>
      g \<le> 1000 \<Longrightarrow> h \<le> 1000 \<Longrightarrow> i \<le> 1000 \<Longrightarrow> j \<le> 1000 \<Longrightarrow> k \<le> 1000 \<Longrightarrow>
      a + (b + (c + (d + (e + (f + (g + (h + (x + (i + (j + (k + 0))))))))))) \<le> 11000 + x"
    for a b c d e f g h i j k x :: int
    by simp
  have "(\<Sum>p\<leftarrow>ivs. \<bar>snd p\<bar>) \<le> 11000 + \<bar>recency svc\<bar>"
    unfolding ivs_def list.map sum_list.Cons sum_list.Nil snd_conv
    by (rule sum12; (intro choice)?; simp)
  then have "(\<Sum>p\<leftarrow>ivs. \<bar>snd p\<bar>) < 2 ^ 53"
    using rec by simp
  then have "cs_total (candidate_score r q svc inst) = of_int (\<Sum>p\<leftarrow>ivs. snd p)"
    using sum_exact [of ivs 0] by (simp add: candidate_score_def Let_def fs)
  moreover have "of_int (\<Sum>p\<leftarrow>ivs. snd p) = (\<Sum>p\<leftarrow>map (\<lambda>(f, v). (f, of_int v :: score)) ivs. snd p)"
    for ivs :: "(SelectionFactor \<times> int) list"
    by (induction ivs) auto
  ultimately show ?thesis
    by (simp add: candidate_score_def Let_def fs)
qed

end
