(* ===== verification/RR_Machine.thy ===== *)
theory RR_Machine
  imports RR_Selection
begin

text \<open>
  The registry as a state machine: one command per public mutator of the class, a labelled step
  relation with committed and rejected steps, reachability counted in steps, and the interface
  through which an invariant of the commands becomes a fact about every reachable registry.

  The counters of the code wrap around at two to the sixty-fourth. The step count bounds them, so
  the statements hold for all runs that are shorter than that.
\<close>

section \<open>Commands\<close>

datatype Command =
    RegisterService ServiceDescriptor AuthorityEnvelope
  | RegisterRuntime RuntimeDescriptor AuthorityEnvelope
  | RegisterProtocol ProtocolDescriptor AuthorityEnvelope
  | RegisterEndpoint EndpointDescriptor AuthorityEnvelope
  | RegisterCapability CapabilityDescriptor AuthorityEnvelope
  | RegisterBackend BackendDescriptor AuthorityEnvelope
  | RegisterDevice DeviceDescriptor AuthorityEnvelope
  | RegisterNode NodeDescriptor AuthorityEnvelope
  | RegisterInstance ServiceInstance AuthorityEnvelope
  | Supersede ServiceInstanceId ServiceInstance AuthorityEnvelope
  | Deregister ServiceInstanceId AuthorityEnvelope
  | UpdateHealth ServiceInstanceId Health AuthorityEnvelope
  | UpdateReadiness ServiceInstanceId Readiness AuthorityEnvelope
  | UpdateFreshness ServiceInstanceId Freshness AuthorityEnvelope
  | UpdateInstanceReachability ServiceInstanceId Reachability AuthorityEnvelope
  | UpdateReachability EndpointId Reachability AuthorityEnvelope
  | AcquireLease LeaseDescriptor AuthorityEnvelope
  | RenewLease LeaseId AuthorityEnvelope
  | ExpireLease LeaseId AuthorityEnvelope
  | RevokeLease LeaseId AuthorityEnvelope
  | Invalidate InvalidationRecord AuthorityEnvelope
  | CreateTombstone TombstoneRecord AuthorityEnvelope
  | BeginEpoch
  | AdoptWorker WorkerId
  | WorkerDied WorkerBootId
  | SetHealthReporting WorkerId bool
  | MarkLeaseRevalidation LeaseId
  | QueryAndAccount RegistryQuery

text \<open>The envelope a command carries; the commands of the coordinator itself carry none.\<close>

fun envelope_of :: "Command \<Rightarrow> AuthorityEnvelope option" where
  "envelope_of (RegisterService _ env) = Some env"
| "envelope_of (RegisterRuntime _ env) = Some env"
| "envelope_of (RegisterProtocol _ env) = Some env"
| "envelope_of (RegisterEndpoint _ env) = Some env"
| "envelope_of (RegisterCapability _ env) = Some env"
| "envelope_of (RegisterBackend _ env) = Some env"
| "envelope_of (RegisterDevice _ env) = Some env"
| "envelope_of (RegisterNode _ env) = Some env"
| "envelope_of (RegisterInstance _ env) = Some env"
| "envelope_of (Supersede _ _ env) = Some env"
| "envelope_of (Deregister _ env) = Some env"
| "envelope_of (UpdateHealth _ _ env) = Some env"
| "envelope_of (UpdateReadiness _ _ env) = Some env"
| "envelope_of (UpdateFreshness _ _ env) = Some env"
| "envelope_of (UpdateInstanceReachability _ _ env) = Some env"
| "envelope_of (UpdateReachability _ _ env) = Some env"
| "envelope_of (AcquireLease _ env) = Some env"
| "envelope_of (RenewLease _ env) = Some env"
| "envelope_of (ExpireLease _ env) = Some env"
| "envelope_of (RevokeLease _ env) = Some env"
| "envelope_of (Invalidate _ env) = Some env"
| "envelope_of (CreateTombstone _ env) = Some env"
| "envelope_of _ = None"

text \<open>Running an operation: the error it throws, if any, and the registry it leaves.\<close>

definition run_op :: "'a operation \<Rightarrow> Registry \<Rightarrow> RegistryError option \<times> Registry" where
  "run_op f r = (case f r of (Return _, r') \<Rightarrow> (None, r') | (Throw e, r') \<Rightarrow> (Some e, r'))"

fun execute :: "Command \<Rightarrow> Registry \<Rightarrow> RegistryError option \<times> Registry" where
  "execute (RegisterService d env) r = run_op (register_service d env) r"
| "execute (RegisterRuntime d env) r = run_op (register_runtime d env) r"
| "execute (RegisterProtocol d env) r = run_op (register_protocol d env) r"
| "execute (RegisterEndpoint d env) r = run_op (register_endpoint d env) r"
| "execute (RegisterCapability d env) r = run_op (register_capability d env) r"
| "execute (RegisterBackend d env) r = run_op (register_backend d env) r"
| "execute (RegisterDevice d env) r = run_op (register_device d env) r"
| "execute (RegisterNode d env) r = run_op (register_node d env) r"
| "execute (RegisterInstance i env) r = run_op (register_instance i env) r"
| "execute (Supersede k i env) r = run_op (supersede k i env) r"
| "execute (Deregister k env) r = run_op (deregister k env) r"
| "execute (UpdateHealth k h env) r = run_op (update_health k h env) r"
| "execute (UpdateReadiness k rd env) r = run_op (update_readiness k rd env) r"
| "execute (UpdateFreshness k f env) r = run_op (update_freshness k f env) r"
| "execute (UpdateInstanceReachability k rc env) r = run_op (update_instance_reachability k rc env) r"
| "execute (UpdateReachability e rc env) r = run_op (update_reachability e rc env) r"
| "execute (AcquireLease l env) r = run_op (acquire_lease l env) r"
| "execute (RenewLease l env) r = run_op (renew_lease l env) r"
| "execute (ExpireLease l env) r = run_op (expire_lease l env) r"
| "execute (RevokeLease l env) r = run_op (revoke_lease l env) r"
| "execute (Invalidate iv env) r = run_op (invalidate iv env) r"
| "execute (CreateTombstone tb env) r = run_op (create_tombstone tb env) r"
| "execute BeginEpoch r = (None, begin_coordinator_epoch r)"
| "execute (AdoptWorker w) r = (None, snd (adopt_worker w r))"
| "execute (WorkerDied b) r = (None, mark_worker_died b r)"
| "execute (SetHealthReporting w on) r = (None, set_worker_health_reporting w on r)"
| "execute (MarkLeaseRevalidation l) r = (None, mark_lease_revalidation_required l r)"
| "execute (QueryAndAccount q) r = (None, snd (query_and_account q r))"

lemma snd_run_op [simp]: "snd (run_op f r) = snd (f r)"
  by (simp add: run_op_def split: prod.split outcome.split)

lemma run_op_returned: "returned (fst (f r)) \<Longrightarrow> run_op f r = (None, snd (f r))"
  by (cases "f r"; cases "fst (f r)") (simp_all add: run_op_def)

lemma run_op_reject:
  "\<not> av_accept (validate_envelope r env) \<Longrightarrow> run_op (with_authority env body) r =
    (Some (RegistryError (av_kind (validate_envelope r env)) (av_reason (validate_envelope r env))), r)"
  by (simp add: run_op_def with_authority_reject)

text \<open>Every command that carries an envelope validates it before anything else.\<close>

lemma execute_reject:
  assumes "envelope_of c = Some env" "\<not> av_accept (validate_envelope r env)"
  shows "execute c r =
    (Some (RegistryError (av_kind (validate_envelope r env)) (av_reason (validate_envelope r env))), r)"
  using assms
  by (cases c)
    (simp_all add: run_op_reject register_service_def register_runtime_def
      register_protocol_def register_endpoint_def register_capability_def register_backend_def
      register_device_def register_node_def register_instance_def supersede_def deregister_def
      update_health_def update_readiness_def update_freshness_def
      update_instance_reachability_def update_instance_def update_reachability_def
      acquire_lease_def renew_lease_def expire_lease_def revoke_lease_def end_lease_def
      invalidate_def create_tombstone_def)

section \<open>Steps and reachability\<close>

inductive step :: "Registry \<Rightarrow> Command \<Rightarrow> Registry \<Rightarrow> bool" where
  committed: "execute c r = (None, r') \<Longrightarrow> step r c r'"
| rejected: "execute c r = (Some e, r') \<Longrightarrow> step r c r'"

inductive_cases step_cases: "step r c r'"
inductive_simps step_simps: "step r c r'"

lemma step_iff: "step r c r' \<longleftrightarrow> r' = snd (execute c r)"
  by (cases "execute c r"; cases "fst (execute c r)") (auto simp: step_simps)

text \<open>\<open>leads n r r'\<close>: \<open>n\<close> commands lead from \<open>r\<close> to \<open>r'\<close>.\<close>

inductive leads :: "nat \<Rightarrow> Registry \<Rightarrow> Registry \<Rightarrow> bool" where
  here: "leads 0 r r"
| more: "leads n r r' \<Longrightarrow> step r' c r'' \<Longrightarrow> leads (Suc n) r r''"

definition reach :: "nat \<Rightarrow> Registry \<Rightarrow> bool" where
  "reach n r \<longleftrightarrow> (\<exists>opts. leads n (new_registry opts) r)"

text \<open>The same runs, computed.\<close>

definition run :: "Command list \<Rightarrow> Registry \<Rightarrow> Registry" where
  "run cs r = foldl (\<lambda>r c. snd (execute c r)) r cs"

lemma leads_run: "leads (length cs) r (run cs r)"
proof (induction cs rule: rev_induct)
  case (snoc c cs)
  then have "leads (Suc (length cs)) r (snd (execute c (run cs r)))"
    by (rule leads.more) (simp add: step_iff)
  then show ?case by (simp add: run_def)
qed (simp add: run_def leads.here)

lemma leads_iff_run: "leads n r r' \<longleftrightarrow> (\<exists>cs. length cs = n \<and> r' = run cs r)"
proof
  show "leads n r r' \<Longrightarrow> \<exists>cs. length cs = n \<and> r' = run cs r"
  proof (induction rule: leads.induct)
    case (more n r r' c r'')
    then obtain cs where "length cs = n" "r' = run cs r" by blast
    with more.hyps(2) have "length (cs @ [c]) = Suc n" "r'' = run (cs @ [c]) r"
      by (simp_all add: step_iff run_def)
    then show ?case by blast
  qed (simp add: run_def)
qed (use leads_run in blast)

lemma reach_run: "reach (length cs) (run cs (new_registry opts))"
  using leads_run by (auto simp: reach_def)

section \<open>Invariants of the machine\<close>

text \<open>
  The interface between an invariant and the machine. An invariant may depend on the number of
  steps, which is how the wrapping counters are bounded.
\<close>

locale machine_invariant =
  fixes good :: "nat \<Rightarrow> Registry \<Rightarrow> bool"
  assumes initial: "good 0 (new_registry opts)"
    and preserved: "good n r \<Longrightarrow> n < 2 ^ 63 \<Longrightarrow> good (Suc n) (snd (execute c r))"
begin

lemma leads_good: "leads n r r' \<Longrightarrow> good m r \<Longrightarrow> m + n \<le> 2 ^ 63 \<Longrightarrow> good (m + n) r'"
proof (induction rule: leads.induct)
  case (more n r r' c r'')
  then have "good (m + n) r'" by simp
  then show ?case
    using more.hyps(2) more.prems(2) preserved [of "m + n" r' c] by (simp add: step_iff)
qed simp

lemma reach_good: "reach n r \<Longrightarrow> n \<le> 2 ^ 63 \<Longrightarrow> good n r"
  using leads_good [where m = 0] initial by (auto simp: reach_def)

end

text \<open>An invariant that does not depend on the step count holds on runs of any length.\<close>

locale step_invariant =
  fixes holds :: "Registry \<Rightarrow> bool"
  assumes initial: "holds (new_registry opts)"
    and preserved: "holds r \<Longrightarrow> holds (snd (execute c r))"
begin

lemma leads_holds: "leads n r r' \<Longrightarrow> holds r \<Longrightarrow> holds r'"
  by (induction rule: leads.induct) (simp_all add: step_iff preserved)

lemma reach_holds: "reach n r \<Longrightarrow> holds r"
  using leads_holds initial by (auto simp: reach_def)

end

sublocale step_invariant \<subseteq> counted: machine_invariant "\<lambda>_. holds"
  by unfold_locales (simp_all add: initial preserved)

text \<open>Indexes, availability and accounting: no bound is needed.\<close>

lemma structure_new [simp]: "structure_ok (new_registry opts)"
  by (simp add: structure_ok_def keys_ok_def keyed_def index_ok_def placement_def new_registry_def
      rebuild_indexes_def)

lemma available_new [simp]: "available_ok (new_registry opts)"
  by (simp add: available_ok_def new_registry_def rebuild_indexes_def)

lemma acc_new [simp]: "acc_ok (new_registry opts)"
  by (simp add: acc_ok_def counters_def new_registry_def rebuild_indexes_def default_Accounting_def)

lemma structure_execute:
  assumes ok: "structure_ok r"
  shows "structure_ok (snd (execute c r))"
  by (cases c) (simp_all add: ok structure_register_service structure_register_instance
      structure_supersede structure_keep [OF ok] frame_simps)

lemma available_execute: "structure_ok r \<Longrightarrow> available_ok r \<Longrightarrow> available_ok (snd (execute c r))"
  by (cases c) (simp_all add: inv_intros frame_simps)

lemma acc_execute: "acc_ok r \<Longrightarrow> acc_ok (snd (execute c r))"
  by (cases c) (simp_all add: inv_intros frame_simps)

interpretation consistent: step_invariant "\<lambda>r. structure_ok r \<and> available_ok r \<and> acc_ok r"
  by unfold_locales (simp_all add: structure_execute available_execute acc_execute)

text \<open>Only three commands touch the epoch and the boots.\<close>

lemma auth_core_execute:
  assumes "c \<noteq> BeginEpoch" "\<forall>w. c \<noteq> AdoptWorker w" "\<forall>b. c \<noteq> WorkerDied b"
  shows "auth_core (snd (execute c r)) = auth_core r"
  using assms
  by (cases c) (simp_all add: frame_simps service_reg.frame runtime_reg.frame protocol_reg.frame
      endpoint_reg.frame capability_reg.frame backend_reg.frame device_reg.frame node_reg.frame
      set_worker_health_reporting_def)

lemma execute_cases:
  obtains (authority_kept) "auth_core (snd (execute c r)) = auth_core r"
  | (epoch) "c = BeginEpoch"
  | (adopt) w where "c = AdoptWorker w"
  | (died) b where "c = WorkerDied b"
  using auth_core_execute by metis

lemma next_boot_adopt [simp]: "r_next_boot (snd (adopt_worker w r)) = r_next_boot r + 1"
  by (simp add: adopt_worker_eq Let_def)

lemma next_boot_execute:
  "r_next_boot (snd (execute c r)) = r_next_boot r
    \<or> r_next_boot (snd (execute c r)) = r_next_boot r + 1"
  by (rule execute_cases [of c r])
    (simp_all add: auth_core_def begin_coordinator_epoch_def mark_worker_died_def)

lemma unat_bump: "unat (w :: u64) < 2 ^ 64 - 1 \<Longrightarrow> unat (w + 1) = unat w + 1 \<and> w < w + 1"
proof -
  assume "unat w < 2 ^ 64 - 1"
  then have "unat (w + 1) = unat w + 1"
    by (subst unat_add_lem [THEN iffD1]) simp_all
  then show ?thesis by (simp add: word_less_nat_alt)
qed

lemma incarnation_execute:
  assumes inv: "incarnation_inv r" and room: "r_next_boot r < r_next_boot r + 1"
  shows "incarnation_inv (snd (execute c r))"
proof (cases c r rule: execute_cases)
  case authority_kept
  then show ?thesis using incarnation_inv_cong inv by blast
qed (simp_all add: incarnation_begin_epoch incarnation_adopt [OF inv room] incarnation_revoke
    mark_worker_died_def inv)

text \<open>The boot counter starts at one hundred and moves by at most one per step.\<close>

definition boots_ok :: "nat \<Rightarrow> Registry \<Rightarrow> bool" where
  "boots_ok n r \<longleftrightarrow> incarnation_inv r \<and> unat (r_next_boot r) \<le> 100 + n"

lemma boots_execute:
  assumes "boots_ok n r" "n < 2 ^ 63"
  shows "boots_ok (Suc n) (snd (execute c r))"
proof -
  have "unat (r_next_boot r) < 2 ^ 64 - 1"
    using assms by (simp add: boots_ok_def)
  note bump = unat_bump [OF this]
  show ?thesis
    using assms bump next_boot_execute [of c r] incarnation_execute [of r c]
    by (auto simp: boots_ok_def)
qed

interpretation incarnations: machine_invariant boots_ok
proof unfold_locales
  show "boots_ok 0 (new_registry opts)" for opts
    by (simp add: boots_ok_def incarnation_new_registry)
      (simp add: new_registry_def rebuild_indexes_def)
qed (rule boots_execute)

section \<open>Fencing\<close>

text \<open>
  A boot that was handed out and is no longer live, and an epoch that is over: an envelope with
  either is fenced off.
\<close>

definition retired_boot :: "Registry \<Rightarrow> WorkerBootId \<Rightarrow> bool" where
  "retired_boot r b \<longleftrightarrow> \<not> is_boot_live (r_authority r) b \<and> id_value b \<le> r_next_boot r"

lemma adopt_live:
  "is_boot_live (r_authority (snd (adopt_worker w r))) b \<Longrightarrow>
    b = MkId (r_next_boot r + 1) \<or> is_boot_live (r_authority r) b"
  using adopt_base_live by (auto simp: adopt_worker_eq Let_def is_boot_live_def)

lemma execute_live:
  "is_boot_live (r_authority (snd (execute c r))) b \<Longrightarrow>
    is_boot_live (r_authority r) b \<or> b = MkId (r_next_boot r + 1)"
proof (cases c r rule: execute_cases)
  case authority_kept
  then show "is_boot_live (r_authority (snd (execute c r))) b \<Longrightarrow> ?thesis"
    using auth_core_live by blast
qed (auto simp: begin_coordinator_epoch_def mark_worker_died_def is_boot_live_def
    dest: adopt_live [unfolded is_boot_live_def])

lemma retired_execute:
  assumes "retired_boot r b" "r_next_boot r < r_next_boot r + 1"
  shows "retired_boot (snd (execute c r)) b"
proof -
  have "id_value b \<le> r_next_boot (snd (execute c r))"
    using assms next_boot_execute [of c r] by (auto simp: retired_boot_def intro: order.trans less_imp_le)
  moreover have "b \<noteq> MkId (r_next_boot r + 1)"
    using assms by (auto simp: retired_boot_def)
  ultimately show ?thesis
    using assms(1) execute_live by (auto simp: retired_boot_def)
qed

lemma epoch_execute:
  "ra_epoch (r_authority (snd (execute c r))) =
    (if c = BeginEpoch then MkGen (gen_value (ra_epoch (r_authority r)) + 1)
     else ra_epoch (r_authority r))"
proof (cases c r rule: execute_cases)
  case authority_kept
  then show ?thesis
    by (cases "c = BeginEpoch") (auto simp: auth_core_def begin_coordinator_epoch_def)
next
  case (adopt w)
  have "ra_epoch (r_authority (adopt_base w r)) = ra_epoch (r_authority r)"
    by (simp add: adopt_base_def Let_def split: option.split)
  then show ?thesis using adopt by (simp add: adopt_worker_eq Let_def)
qed (simp_all add: begin_coordinator_epoch_def mark_worker_died_def)

text \<open>Room left in the two counters after \<open>n\<close> more steps.\<close>

definition room_for :: "nat \<Rightarrow> Registry \<Rightarrow> bool" where
  "room_for n r \<longleftrightarrow> unat (r_next_boot r) + n < 2 ^ 64
     \<and> unat (gen_value (ra_epoch (r_authority r))) + n < 2 ^ 64"

definition fenced :: "Registry \<Rightarrow> AuthorityEnvelope \<Rightarrow> bool" where
  "fenced r env \<longleftrightarrow> env_epoch env < ra_epoch (r_authority r) \<or> retired_boot r (env_boot env)"

lemma fenced_not_accepted: "fenced r env \<Longrightarrow> \<not> av_accept (validate_envelope r env)"
  by (auto simp: fenced_def accept_iff retired_boot_def)

lemma room_execute: "room_for (Suc n) r \<Longrightarrow> room_for n (snd (execute c r))"
proof -
  assume room: "room_for (Suc n) r"
  have "unat (r_next_boot r) < 2 ^ 64 - 1" "unat (gen_value (ra_epoch (r_authority r))) < 2 ^ 64 - 1"
    using room by (simp_all add: room_for_def)
  note bumps = this [THEN unat_bump]
  show ?thesis
    using room bumps next_boot_execute [of c r]
    by (auto simp: room_for_def epoch_execute)
qed

lemma fenced_execute:
  assumes "fenced r env" "room_for (Suc n) r"
  shows "fenced (snd (execute c r)) env"
proof -
  have "unat (r_next_boot r) < 2 ^ 64 - 1" "unat (gen_value (ra_epoch (r_authority r))) < 2 ^ 64 - 1"
    using assms(2) by (simp_all add: room_for_def)
  note bumps = this [THEN unat_bump]
  from assms(1) consider "env_epoch env < ra_epoch (r_authority r)" | "retired_boot r (env_boot env)"
    by (auto simp: fenced_def)
  then show ?thesis
  proof cases
    case 1
    then have "env_epoch env < ra_epoch (r_authority (snd (execute c r)))"
      using bumps(2) by (auto simp: epoch_execute less_Gen_def)
    then show ?thesis by (simp add: fenced_def)
  next
    case 2
    then show ?thesis using retired_execute bumps(1) by (simp add: fenced_def)
  qed
qed

lemma fenced_run:
  "fenced r env \<Longrightarrow> room_for (length cs) r \<Longrightarrow> fenced (run cs r) env"
proof (induction cs arbitrary: r)
  case (Cons c cs)
  then show ?case
    using fenced_execute [of r env "length cs" c] room_execute [of "length cs" r c]
    by (simp add: run_def)
qed (simp add: run_def)

section \<open>Lease generations\<close>

text \<open>Every command but the acquisition of a lease keeps the lease generations.\<close>

definition leases_ok :: "nat \<Rightarrow> Registry \<Rightarrow> bool" where
  "leases_ok n r \<longleftrightarrow> leases_fenced r \<and> unat (gen_value (ra_lease_gen (r_authority r))) \<le> n"

lemma lease_counter_supersede:
  "ra_lease_gen (r_authority (snd (supersede iid inst env r))) = ra_lease_gen (r_authority r)"
proof -
  let ?g = "ra_lease_gen (r_authority r)"
  have keep: "snd (lease_view r') = ?g \<longleftrightarrow> ra_lease_gen (r_authority r') = ?g" for r'
    by (simp add: lease_view_def)
  have "snd (lease_view (snd (supersede iid inst env r))) = ?g"
    by (rule supersede_preserves [where good = "\<lambda>r'. snd (lease_view r') = ?g"])
      (simp_all add: frame_simps, simp add: lease_view_def)
  then show ?thesis by (simp add: keep)
qed

lemma lease_counter_keep:
  "lease_view r' = lease_view r \<Longrightarrow> ra_lease_gen (r_authority r') = ra_lease_gen (r_authority r)"
  by (simp add: lease_view_def)

lemma leases_ok_keep: "leases_ok n r \<Longrightarrow> lease_view r' = lease_view r \<Longrightarrow> leases_ok (Suc n) r'"
  using leases_fenced_keep lease_counter_keep [of r' r] by (auto simp: leases_ok_def)

lemma leases_acquire:
  assumes "leases_ok n r" "n < 2 ^ 63"
  shows "leases_ok (Suc n) (snd (acquire_lease l env r))"
proof (cases "av_accept (validate_envelope r env)")
  case True
  let ?g = "gen_value (ra_lease_gen (r_authority r))"
  have "unat ?g < 2 ^ 64 - 1" using assms by (simp add: leases_ok_def)
  note bump = unat_bump [OF this]
  then show ?thesis
    using assms fenced_acquire [of r l env]
    by (simp add: leases_ok_def acquire_lease_generation [OF True])
next
  case False
  then show ?thesis using assms by (simp add: acquire_lease_def with_authority_reject leases_ok_def)
qed

lemma leases_execute:
  assumes ok: "leases_ok n r" and "n < 2 ^ 63"
  shows "leases_ok (Suc n) (snd (execute c r))"
proof (cases "\<exists>l env. c = AcquireLease l env")
  case True
  then show ?thesis using leases_acquire [OF assms] by auto
next
  case False
  have "leases_ok (Suc n) (snd (supersede k i env r))" for k i env
    using ok fenced_supersede [of r k i env] by (simp add: leases_ok_def lease_counter_supersede)
  with False show ?thesis
    by (cases c) (simp_all add: leases_ok_keep [OF ok] frame_simps)
qed

interpretation lease_counter: machine_invariant leases_ok
proof unfold_locales
  show "leases_ok 0 (new_registry opts)" for opts
    by (simp add: leases_ok_def leases_fenced_def new_registry_def rebuild_indexes_def
        default_RegistryAuthority_def no_gen_def)
qed (rule leases_execute)

end
