(* ===== verification/RR_Contracts.thy ===== *)
theory RR_Contracts
  imports RR_Machine
begin

text \<open>
  What single operations promise, on every path: rejected commands change counters only, the
  generations of stored services never decrease, a successful instance registration binds its
  endpoints and supersedes the previous instance, the current instance of a service is the newest,
  and losing a boot or an epoch withdraws everything that depended on it.
\<close>

section \<open>Rejections\<close>

text \<open>\<open>quiet r r'\<close>: nothing but the accounting differs.\<close>

definition quiet :: "Registry \<Rightarrow> Registry \<Rightarrow> bool" where
  "quiet r r' \<longleftrightarrow> r' = r\<lparr>r_accounting := r_accounting r'\<rparr>"

lemma quiet_refl [simp]: "quiet r r"
  by (simp add: quiet_def)

lemma quiet_count [simp]: "quiet r (count f r)"
  by (simp add: quiet_def count_def)

definition rejects_quietly :: "'a operation \<Rightarrow> bool" where
  "rejects_quietly f \<longleftrightarrow> (\<forall>r e r'. f r = (Throw e, r') \<longrightarrow> quiet r r')"

lemma run_op_quiet: "rejects_quietly f \<Longrightarrow> run_op f r = (Some e, r') \<Longrightarrow> quiet r r'"
  by (auto simp: run_op_def rejects_quietly_def split: prod.splits outcome.splits)

lemma with_authority_quiet:
  "(\<And>r. av_accept (validate_envelope r env) \<Longrightarrow> \<forall>e r'. body r = (Throw e, r') \<longrightarrow> quiet r r') \<Longrightarrow>
    rejects_quietly (with_authority env body)"
  by (auto simp: rejects_quietly_def with_authority_def throw_def Let_def split: if_splits)

lemma registration_quiet:
  "rejects_quietly (register_service svc env)" "rejects_quietly (register_runtime rt env)"
  "rejects_quietly (register_protocol pd env)" "rejects_quietly (register_endpoint ep env)"
  "rejects_quietly (register_capability cap env)" "rejects_quietly (register_backend bd env)"
  "rejects_quietly (register_device dd env)" "rejects_quietly (register_node nd env)"
  unfolding register_service_def register_runtime_def register_protocol_def register_endpoint_def
    register_capability_def register_backend_def register_device_def register_node_def
  by (rule with_authority_quiet,
      force simp: throw_def Let_def take_next_id_def split: option.splits if_splits)+

lemma update_quiet:
  "rejects_quietly (update_health iid h env)" "rejects_quietly (update_readiness iid rd env)"
  "rejects_quietly (update_freshness iid f env)"
  "rejects_quietly (update_instance_reachability iid rc env)"
  "rejects_quietly (update_reachability eid rc env)" "rejects_quietly (deregister iid env)"
  unfolding update_health_def update_readiness_def update_freshness_def
    update_instance_reachability_def update_instance_def update_reachability_def deregister_def
  by (rule with_authority_quiet,
      force simp: throw_def Let_def split: option.splits if_splits)+

lemma lease_quiet:
  "rejects_quietly (acquire_lease l env)" "rejects_quietly (renew_lease lid env)"
  "rejects_quietly (expire_lease lid env)" "rejects_quietly (revoke_lease lid env)"
  "rejects_quietly (invalidate iv env)" "rejects_quietly (create_tombstone tb env)"
  unfolding acquire_lease_def renew_lease_def expire_lease_def revoke_lease_def end_lease_def
    invalidate_def create_tombstone_def
  by (rule with_authority_quiet,
      force simp: throw_def Let_def split: option.splits if_splits prod.splits)+

lemma execute_quiet:
  assumes "execute c r = (Some e, r')"
    and "\<forall>i env. c \<noteq> RegisterInstance i env" "\<forall>k i env. c \<noteq> Supersede k i env"
  shows "quiet r r'"
  using assms
  by (cases c) (auto elim!: run_op_quiet [rotated] intro: registration_quiet update_quiet lease_quiet)

section \<open>Service generations\<close>

lemma services_register_instance:
  "r_services (snd (register_instance inst env r)) = r_services r"
proof -
  have commit: "r_services (snd (commit_instance copy r)) = r_services r" for copy r
  proof -
    obtain e r1 where b: "bind_endpoints (si_instance_id copy) (si_endpoints copy) r = (e, r1)"
      by fastforce
    then have "r_services r1 = r_services r"
      using bind_endpoints_frame(6) by (metis snd_conv)
    then show ?thesis by (cases e) (simp_all add: commit_instance_def b Let_def)
  qed
  show ?thesis
    by (simp add: register_instance_def place_instance_def assign_instance_id_def with_authority_def
        throw_def Let_def take_next_id_def commit split: option.split)
qed

lemma services_supersede: "r_services (snd (supersede iid inst env r)) = r_services r"
  by (rule supersede_preserves [where good = "\<lambda>r'. r_services r' = r_services r"])
    (simp_all add: services_register_instance)

lemma structure_view_services: "structure_view r' = structure_view r \<Longrightarrow> r_services r' = r_services r"
  by (simp add: structure_view_def)

lemma services_execute:
  assumes "\<forall>svc env. c \<noteq> RegisterService svc env"
  shows "r_services (snd (execute c r)) = r_services r"
  using assms
  by (cases c) (auto simp: services_register_instance services_supersede frame_simps
      intro!: structure_view_services)

lemma service_generation_execute:
  assumes "hm_find (r_services r) k = Some cur"
  shows "\<exists>cur'. hm_find (r_services (snd (execute c r))) k = Some cur'
    \<and> svc_generation cur \<le> svc_generation cur'"
proof (cases "\<exists>svc env. c = RegisterService svc env")
  case True
  then show ?thesis using service_reg.generation_monotone [OF _ assms] by auto
next
  case False
  then show ?thesis using services_execute [of c r] assms by auto
qed

lemma service_generation_run:
  "hm_find (r_services r) k = Some cur \<Longrightarrow>
    \<exists>cur'. hm_find (r_services (run cs r)) k = Some cur' \<and> svc_generation cur \<le> svc_generation cur'"
proof (induction cs arbitrary: r cur)
  case (Cons c cs)
  obtain cur1 where 1: "hm_find (r_services (snd (execute c r))) k = Some cur1"
      "svc_generation cur \<le> svc_generation cur1"
    using service_generation_execute [OF Cons.prems] by blast
  from Cons.IH [OF 1(1)] 1(2) show ?case
    by (force simp: run_def intro: order.trans)
qed (simp add: run_def)

section \<open>The current instance of a service\<close>

text \<open>The loop returns a stored candidate of the highest generation, or nothing when there is none.\<close>

definition competes :: "ServiceId \<Rightarrow> ServiceInstance \<Rightarrow> bool" where
  "competes sid i \<longleftrightarrow> si_service_id i = sid \<and> \<not> historical (si_lifecycle i)"

definition current_step ::
  "ServiceId \<Rightarrow> (ServiceInstanceId \<times> ServiceInstance) option \<Rightarrow> ServiceInstanceId \<times> ServiceInstance \<Rightarrow>
    (ServiceInstanceId \<times> ServiceInstance) option" where
  "current_step sid acc p =
    (if competes sid (snd p) then
       (case acc of
          None \<Rightarrow> Some p
        | Some best \<Rightarrow>
            if si_instance_generation (snd p) > si_instance_generation (snd best) then Some p else acc)
     else acc)"

lemma find_current_eq: "find_current sid m = foldl (current_step sid) None m"
  unfolding find_current_def
  by (rule foldl_cong) (auto simp: current_step_def competes_def split: option.split)

lemma current_loop:
  "foldl (current_step sid) acc m = res \<Longrightarrow>
    (case res of
       None \<Rightarrow> acc = None \<and> (\<forall>p \<in> set m. \<not> competes sid (snd p))
     | Some best \<Rightarrow> (acc = Some best \<or> best \<in> set m \<and> competes sid (snd best))
         \<and> (\<forall>p \<in> set m. competes sid (snd p) \<longrightarrow>
              si_instance_generation (snd p) \<le> si_instance_generation (snd best))
         \<and> (\<forall>p. acc = Some p \<longrightarrow> si_instance_generation (snd p) \<le> si_instance_generation (snd best)))"
proof (induction m arbitrary: acc)
  case Nil
  then show ?case by (auto split: option.split)
next
  case (Cons p m)
  have step: "foldl (current_step sid) (current_step sid acc p) m = res"
    using Cons.prems by simp
  show ?case
  proof (cases res)
    case None
    then show ?thesis
      using Cons.IH [OF step] by (auto simp: current_step_def split: if_splits option.splits)
  next
    case (Some best)
    note ih = Cons.IH [OF step, unfolded Some option.case]
    show ?thesis
    proof (cases "competes sid (snd p)")
      case False
      then have "current_step sid acc p = acc" by (simp add: current_step_def)
      then show ?thesis using ih False by (auto simp: Some)
    next
      case True
      show ?thesis
      proof (cases acc)
        case None
        then have "current_step sid acc p = Some p" using True by (simp add: current_step_def)
        then show ?thesis using ih True None by (auto simp: Some)
      next
        case acc: (Some a)
        show ?thesis
        proof (cases "si_instance_generation (snd p) > si_instance_generation (snd a)")
          case newer: True
          then have "current_step sid acc p = Some p" using True acc by (simp add: current_step_def)
          then show ?thesis using ih True acc newer by (auto simp: Some)
        next
          case older: False
          then have "current_step sid acc p = Some a" using True acc by (simp add: current_step_def)
          then show ?thesis using ih True acc older by (auto simp: Some)
        qed
      qed
    qed
  qed
qed

lemma find_current_spec:
  assumes "keys_ok r"
  shows "case find_current sid (r_instances r) of
      None \<Rightarrow> (\<forall>k i. hm_find (r_instances r) k = Some i \<longrightarrow> \<not> competes sid i)
    | Some (k, best) \<Rightarrow> hm_find (r_instances r) k = Some best \<and> competes sid best
        \<and> (\<forall>k' i. hm_find (r_instances r) k' = Some i \<and> competes sid i \<longrightarrow>
             si_instance_generation i \<le> si_instance_generation best)"
proof -
  have wf: "hm_wf (r_instances r)" using assms by (simp add: keys_ok_def keyed_def)
  have stored: "hm_find (r_instances r) k = Some i \<longleftrightarrow> (k, i) \<in> set (r_instances r)" for k i
    by (rule hm_find_iff [OF wf])
  show ?thesis
    using current_loop [of sid None "r_instances r", OF refl, folded find_current_eq]
    by (auto simp: stored split: option.splits)
qed

section \<open>Registration of an instance\<close>

text \<open>Binding succeeds only when every endpoint is registered and ends up with the instance.\<close>

definition bound_to :: "ServiceInstanceId \<Rightarrow> Registry \<Rightarrow> EndpointId \<Rightarrow> bool" where
  "bound_to iid r e \<longleftrightarrow> (\<exists>ep. hm_find (r_endpoints r) e = Some ep \<and> ep_service_instance ep = iid)"

lemma bind_keeps_bound:
  "bound_to iid r e \<Longrightarrow> bound_to iid (snd (bind_endpoints iid eids r)) e"
proof (induction eids arbitrary: r)
  case (Cons eid eids)
  then show ?case
    by (auto simp: bound_to_def Let_def split: option.split)
qed simp

lemma bind_success:
  "bind_endpoints iid eids r = (None, r') \<Longrightarrow> \<forall>e \<in> set eids. bound_to iid r' e"
proof (induction eids arbitrary: r)
  case (Cons eid eids)
  obtain ep where ep: "hm_find (r_endpoints r) eid = Some ep"
    using Cons.prems(1) by (auto split: option.splits)
  have put: "bound_to iid (r\<lparr>r_endpoints := hm_put eid (ep'\<lparr>ep_service_instance := iid\<rparr>) (r_endpoints r)\<rparr>) eid"
    "bound_to iid (r\<lparr>r_endpoints := hm_put eid (ep'\<lparr>ep_service_instance := iid,
       ep_reachability := rc, ep_freshness := f\<rparr>) (r_endpoints r)\<rparr>) eid" for ep' rc f
    by (simp_all add: bound_to_def)
  have step: "\<exists>r1. bound_to iid r1 eid \<and> bind_endpoints iid eids r1 = (None, r')"
  proof (cases "ep_service_instance ep = iid \<and> id_value iid \<noteq> 0")
    case True
    then show ?thesis using Cons.prems ep by (auto simp: bound_to_def)
  next
    case False
    then show ?thesis using Cons.prems(1) ep put
      by (simp split: if_splits) blast+
  qed
  then obtain r1 where r1: "bound_to iid r1 eid" "bind_endpoints iid eids r1 = (None, r')" by blast
  then show ?case
    using Cons.IH [OF r1(2)] bind_keeps_bound [OF r1(1), of eids] by simp
qed simp

lemma reclassify_cong:
  assumes "r_endpoints r' = r_endpoints r" "r_leases r' = r_leases r" "r_services r' = r_services r"
    "r_capabilities r' = r_capabilities r" "ra_live_boots (r_authority r') = ra_live_boots (r_authority r)"
  shows "reclassify_lifecycle r' i = reclassify_lifecycle r i"
proof -
  have "classify r' i h rc = classify r i h rc" for h rc
    by (simp only: classify_def is_boot_live_def assms)
  then show ?thesis by (simp only: reclassify_lifecycle_def assms)
qed

lemma commit_success:
  assumes "commit_instance copy r = (Return k, r')"
  shows "k = si_instance_id copy"
    and "hm_find (r_instances r') k = Some (reclassify_lifecycle r' copy)"
    and "\<And>k'. k' \<noteq> k \<Longrightarrow> hm_find (r_instances r') k' = hm_find (r_instances r) k'"
    and "\<forall>e \<in> set (si_endpoints copy). bound_to k r' e"
proof -
  obtain r1 where b: "bind_endpoints (si_instance_id copy) (si_endpoints copy) r = (None, r1)"
    using assms(1) by (auto simp: commit_instance_def split: prod.splits option.splits)
  have inst: "r_instances r1 = r_instances r"
    using bind_endpoints_frame(4) [of "si_instance_id copy" "si_endpoints copy" r] by (simp add: b)
  let ?r3 = "count ac_registrations_update (count ac_service_instances_update
      (r1\<lparr>r_instances := hm_put (si_instance_id copy) copy (r_instances r1),
          r_instance_history := r_instance_history r1 @ [copy]\<rparr>))"
  have k: "k = si_instance_id copy"
    using assms(1) by (simp add: commit_instance_def b Let_def)
  have r': "r' = rebuild_indexes (commit_registry_generation
      (?r3\<lparr>r_instances := hm_put (si_instance_id copy) (reclassify_lifecycle ?r3 copy)
        (r_instances ?r3)\<rparr>))"
    using assms(1) unfolding commit_instance_def b
    by (simp only: prod.case option.case Let_def prod.inject)
  show "k = si_instance_id copy" by (rule k)
  have "reclassify_lifecycle r' copy = reclassify_lifecycle ?r3 copy"
    by (rule reclassify_cong) (simp_all add: r')
  moreover have "hm_find (r_instances r') k = Some (reclassify_lifecycle ?r3 copy)"
    by (simp add: r' k)
  ultimately show "hm_find (r_instances r') k = Some (reclassify_lifecycle r' copy)" by simp
  show "hm_find (r_instances r') k' = hm_find (r_instances r) k'" if "k' \<noteq> k" for k'
    using that by (simp add: r' k inst)
  show "\<forall>e \<in> set (si_endpoints copy). bound_to k r' e"
    using bind_success [OF b] by (simp add: bound_to_def r' k)
qed

text \<open>
  The record that a registration of an instance stores, with the identity assigned from the counter
  when the caller leaves it out, and the registry after that assignment.
\<close>

definition assigned_instance :: "Registry \<Rightarrow> ServiceInstance \<Rightarrow> ServiceInstance" where
  "assigned_instance r inst = (if id_value (si_instance_id inst) = 0
     then inst\<lparr>si_instance_id := MkId (r_next_id r)\<rparr> else inst)"

definition after_assignment :: "Registry \<Rightarrow> ServiceInstance \<Rightarrow> Registry" where
  "after_assignment r inst = (if id_value (si_instance_id inst) = 0
     then r\<lparr>r_next_id := r_next_id r + 1\<rparr> else r)"

lemma assign_instance_id_parts:
  "assign_instance_id inst r = (assigned_instance r inst, after_assignment r inst)"
  by (simp add: assign_instance_id_def assigned_instance_def after_assignment_def take_next_id_def)

lemma assigned_instance_simps [simp]:
  "si_service_id (assigned_instance r inst) = si_service_id inst"
  "si_instance_generation (assigned_instance r inst) = si_instance_generation inst"
  "si_endpoints (assigned_instance r inst) = si_endpoints inst"
  by (simp_all add: assigned_instance_def)

lemma after_assignment_simps [simp]:
  "r_instances (after_assignment r inst) = r_instances r"
  "r_services (after_assignment r inst) = r_services r"
  "r_endpoints (after_assignment r inst) = r_endpoints r"
  "r_tombstones (after_assignment r inst) = r_tombstones r"
  by (simp_all add: after_assignment_def)

lemma register_instance_placed:
  "av_accept (validate_envelope r env) \<Longrightarrow> hm_find (r_services r) (si_service_id inst) \<noteq> None \<Longrightarrow>
    register_instance inst env r = place_instance (assigned_instance r inst) (after_assignment r inst)"
  by (auto simp: register_instance_def with_authority_accept assign_instance_id_parts)

text \<open>
  A successful registration of an instance: either it repeats the current instance and changes
  nothing but the counter, or it is newer than the current instance of the service, which is
  superseded, and is stored classified with all its endpoints bound to it.
\<close>

lemma place_instance_success:
  assumes ok: "keys_ok r" and place: "place_instance copy r = (Return k, r')"
  shows "k = si_instance_id copy \<and>
    ((r' = r \<and> (\<exists>cur. hm_find (r_instances r) k = Some cur \<and> si_eq copy cur)) \<or>
     (hm_find (r_instances r') k = Some (reclassify_lifecycle r' copy)
      \<and> (\<forall>e \<in> set (si_endpoints copy). bound_to k r' e)
      \<and> (\<forall>k' i. hm_find (r_instances r) k' = Some i \<and> competes (si_service_id copy) i \<longrightarrow>
           si_instance_generation i < si_instance_generation copy)
      \<and> (\<forall>k'. k' \<noteq> k \<longrightarrow> hm_find (r_instances r') k' =
           (case find_current (si_service_id copy) (r_instances r) of
              None \<Rightarrow> hm_find (r_instances r) k'
            | Some (k0, cur) \<Rightarrow> if k' = k0 then Some (cur\<lparr>si_lifecycle := Lifecycle.SUPERSEDED\<rparr>)
                else hm_find (r_instances r) k'))))"
proof -
  note spec = find_current_spec [OF ok, of "si_service_id copy"]
  show ?thesis
  proof (cases "find_current (si_service_id copy) (r_instances r)")
    case None
    then have "commit_instance copy r = (Return k, r')"
      using place by (simp add: place_instance_def throw_def split: if_splits)
    from commit_success [OF this] show ?thesis using spec None by (auto simp: competes_def)
  next
    case (Some p)
    obtain k0 cur where p: "p = (k0, cur)" by (cases p)
    have cur: "hm_find (r_instances r) k0 = Some cur" "competes (si_service_id copy) cur"
      and newest: "\<And>k' i. hm_find (r_instances r) k' = Some i \<Longrightarrow> competes (si_service_id copy) i \<Longrightarrow>
        si_instance_generation i \<le> si_instance_generation cur"
      using spec by (auto simp: Some p)
    show ?thesis
    proof (cases "si_instance_generation copy = si_instance_generation cur \<and> si_eq copy cur")
      case True
      then have "si_instance_id copy = si_instance_id cur"
        by (auto simp: si_eq_def) (metis ServiceInstance.select_convs(1) ServiceInstance.surjective ServiceInstance.update_convs(20))
      moreover have "si_instance_id cur = k0"
        using ok cur(1) by (auto simp: keys_ok_def keyed_def)
      ultimately show ?thesis
        using place cur(1) True by (simp add: place_instance_def Some p)
    next
      case False
      let ?r0 = "count ac_supersessions_update (uncount ac_available_instances_update
          (r\<lparr>r_instance_history := r_instance_history r @ [cur],
             r_instances := hm_put k0 (cur\<lparr>si_lifecycle := Lifecycle.SUPERSEDED\<rparr>) (r_instances r)\<rparr>))"
      have newer: "si_instance_generation cur < si_instance_generation copy"
        and commit: "commit_instance copy ?r0 = (Return k, r')"
        using place False by (auto simp: place_instance_def Some p throw_def split: if_splits)
      have "si_instance_generation i < si_instance_generation copy"
        if "hm_find (r_instances r) k' = Some i" "competes (si_service_id copy) i" for k' i
        using newest [OF that] newer by simp
      then show ?thesis
        using commit_success [OF commit] by (auto simp: Some p)
    qed
  qed
qed

lemma register_instance_success:
  assumes ok: "keys_ok r" and ret: "register_instance inst env r = (Return k, r')"
    and copy: "copy = assigned_instance r inst"
  shows "k = si_instance_id copy \<and>
    ((r' = after_assignment r inst
      \<and> (\<exists>cur. hm_find (r_instances r) k = Some cur \<and> si_eq copy cur)) \<or>
     (hm_find (r_instances r') k = Some (reclassify_lifecycle r' copy)
      \<and> (\<forall>e \<in> set (si_endpoints inst). bound_to k r' e)
      \<and> (\<forall>k' i. hm_find (r_instances r) k' = Some i \<and> competes (si_service_id inst) i \<longrightarrow>
           si_instance_generation i < si_instance_generation inst)
      \<and> (\<forall>k'. k' \<noteq> k \<longrightarrow> hm_find (r_instances r') k' =
           (case find_current (si_service_id inst) (r_instances r) of
              None \<Rightarrow> hm_find (r_instances r) k'
            | Some (k0, cur) \<Rightarrow> if k' = k0 then Some (cur\<lparr>si_lifecycle := Lifecycle.SUPERSEDED\<rparr>)
                else hm_find (r_instances r) k'))))"
proof -
  have "place_instance copy (after_assignment r inst) = (Return k, r')"
    using with_authority_returns [OF ret [unfolded register_instance_def]]
    by (auto simp: throw_def copy assign_instance_id_parts split: if_splits)
  moreover have "keys_ok (after_assignment r inst)" using ok by (simp add: keys_ok_def)
  ultimately show ?thesis
    using place_instance_success [of "after_assignment r inst" copy k r']
    by (simp only: copy assigned_instance_simps after_assignment_simps)
qed

text \<open>
  Repeating a successful registration of an instance finds the record it stored, which the
  classification may have changed: the repetition is confirmed when the stored record still equals
  the registered one, and is turned down as stale otherwise.
\<close>

lemma classify_current: "\<not> historical (classify r i h rc)"
  by (simp add: classify_def historical_def)

lemma reclassified_competes [simp]:
  "competes sid (reclassify_lifecycle r i) \<longleftrightarrow> si_service_id i = sid"
  by (simp add: competes_def reclassify_lifecycle_def classify_current Let_def)

lemma reclassified_generation [simp]:
  "si_instance_generation (reclassify_lifecycle r i) = si_instance_generation i"
  by (simp add: reclassify_lifecycle_def Let_def)

lemma stored_is_current:
  assumes ok: "keys_ok r" and found: "hm_find (r_instances r) k = Some i"
    and comp: "competes sid i"
    and newest: "\<And>k' j. k' \<noteq> k \<Longrightarrow> hm_find (r_instances r) k' = Some j \<Longrightarrow> competes sid j \<Longrightarrow>
      si_instance_generation j < si_instance_generation i"
  shows "find_current sid (r_instances r) = Some (k, i)"
proof -
  note spec = find_current_spec [OF ok, of sid]
  show ?thesis
  proof (cases "find_current sid (r_instances r)")
    case None
    then show ?thesis using spec found comp by simp
  next
    case (Some p)
    obtain k' j where p: "p = (k', j)" by (cases p)
    have j: "hm_find (r_instances r) k' = Some j" "competes sid j"
      "si_instance_generation i \<le> si_instance_generation j"
      using spec found comp by (auto simp: Some p)
    then have "k' = k" using newest [OF _ j(1,2)] j(3) by (meson leD)
    then show ?thesis using j found by (simp add: Some p)
  qed
qed

lemma repeat_instance:
  assumes ok: "structure_ok r" and id: "id_set (si_instance_id inst)"
    and ret: "register_instance inst env r = (Return k, r')"
  shows "\<exists>cur. hm_find (r_instances r') k = Some cur \<and>
    (if si_eq inst cur then register_instance inst env r' = (Return k, r')
     else \<exists>msg. register_instance inst env r' =
       (Throw (RegistryError STALE_INSTANCE_GENERATION msg),
        count ac_duplicate_conflict_rejections_update r'))"
proof -
  have copy: "assigned_instance s inst = inst" "after_assignment s inst = s" for s
    using id by (simp_all add: assigned_instance_def after_assignment_def id_set_def)
  have "keys_ok r" using ok by (simp add: structure_ok_def)
  note success = register_instance_success [OF this ret refl, unfolded copy]
  show ?thesis
  proof (cases "r' = r \<and> (\<exists>cur. hm_find (r_instances r) k = Some cur \<and> si_eq inst cur)")
    case True
    then show ?thesis using ret by auto
  next
    case False
    let ?cur = "reclassify_lifecycle r' inst"
    have k: "k = si_instance_id inst" and stored: "hm_find (r_instances r') k = Some ?cur"
      and newest: "\<And>k' i. hm_find (r_instances r) k' = Some i \<Longrightarrow> competes (si_service_id inst) i \<Longrightarrow>
        si_instance_generation i < si_instance_generation inst"
      and others: "\<And>k'. k' \<noteq> k \<Longrightarrow> hm_find (r_instances r') k' =
        (case find_current (si_service_id inst) (r_instances r) of
           None \<Rightarrow> hm_find (r_instances r) k'
         | Some (k0, cur) \<Rightarrow> if k' = k0 then Some (cur\<lparr>si_lifecycle := Lifecycle.SUPERSEDED\<rparr>)
             else hm_find (r_instances r) k')"
      using success False by auto
    have "keys_ok r'"
      using structure_register_instance [OF ok, of inst env] by (simp add: ret structure_ok_def)
    then have current: "find_current (si_service_id inst) (r_instances r') = Some (k, ?cur)"
    proof (rule stored_is_current [OF _ stored])
      fix k' j
      assume k': "k' \<noteq> k" and j: "hm_find (r_instances r') k' = Some j" "competes (si_service_id inst) j"
      have "hm_find (r_instances r) k' = Some j"
        using j others [OF k'] by (auto simp: competes_def historical_def split: option.splits if_splits)
      then show "si_instance_generation j < si_instance_generation ?cur"
        using newest j(2) by simp
    qed simp
    have accepted: "av_accept (validate_envelope r env)" "hm_find (r_services r) (si_service_id inst) \<noteq> None"
      using ret by (auto simp: register_instance_def with_authority_def throw_def Let_def split: if_splits)
    have "auth_core r' = auth_core r" "r_services r' = r_services r"
      using auth_core_register_instance [of inst env r] services_register_instance [of inst env r]
      by (simp_all add: ret)
    then have "register_instance inst env r' = place_instance inst r'"
      using accepted validate_envelope_cong [of r' r env]
      by (subst register_instance_placed) (simp_all add: copy)
    then show ?thesis
      using stored by (auto simp: place_instance_def current throw_def k)
  qed
qed

end
