(* ===== verification/RR_Effects.thy ===== *)
theory RR_Effects
  imports RR_Contracts
begin

text \<open>
  What the loss of authority withdraws: the effect of a worker's death and of a new coordinator
  epoch on instances, leases, endpoints and discovery, the classification of an instance in terms
  of the stored records, and what tombstones and lease generations turn down.
\<close>

section \<open>The death of a worker\<close>

lemma revoke_boot_as_loop:
  assumes "is_boot_live (r_authority r) b"
  obtains r1 where "r_instances r1 = r_instances r" "r_endpoints r1 = r_endpoints r"
    "r_leases r1 = r_leases r"
    "revoke_boot_internal b r = foldl (revoke_instance b) r1 (hm_keys (r_instances r))"
proof -
  obtain a where "revoke_boot_internal b r =
      foldl (revoke_instance b) (r\<lparr>r_authority := a\<rparr>) (hm_keys (r_instances r))"
    using assms by (simp add: revoke_boot_internal_def Let_def)
  then show ?thesis
    by (rule that [where ?r1.0 = "r\<lparr>r_authority := a\<rparr>", rotated 3]) simp_all
qed

lemma hm_find_keys: "hm_find m k = Some x \<Longrightarrow> k \<in> set (hm_keys m)"
  using hm_keys_None by fastforce

lemma death_instance:
  assumes "is_boot_live (r_authority r) b"
  shows "hm_find (r_instances (mark_worker_died b r)) k =
    map_option (\<lambda>i. if si_boot i = b then kill_instance i else i) (hm_find (r_instances r) k)"
  using assms by (simp add: mark_worker_died_def revoke_boot_instances dead_for_def [abs_def])

lemma death_lease:
  assumes "is_boot_live (r_authority r) b" "hm_find (r_instances r) k = Some i" "si_boot i = b"
    and "id_set (si_lease i)" "hm_find (r_leases (mark_worker_died b r)) (si_lease i) = Some d"
  shows "ls_state d \<noteq> LeaseState.ACTIVE"
  using assms(1)
proof (rule revoke_boot_as_loop)
  fix r1
  assume r1: "r_instances r1 = r_instances r"
    and loop: "revoke_boot_internal b r = foldl (revoke_instance b) r1 (hm_keys (r_instances r))"
  show ?thesis
    by (rule revoke_loop_lease [OF hm_find_keys [OF assms(2)], of r1 i b d])
      (use assms r1 loop in \<open>simp_all add: mark_worker_died_def\<close>)
qed

lemma death_endpoint:
  assumes "is_boot_live (r_authority r) b" "hm_find (r_instances r) k = Some i" "si_boot i = b"
    and "e \<in> set (si_endpoints i)" "hm_find (r_endpoints r) e = Some ep"
    and "ep_service_instance ep = si_instance_id i"
  shows "hm_find (r_endpoints (mark_worker_died b r)) e = Some (released ep)"
  using assms(1)
proof (rule revoke_boot_as_loop)
  fix r1
  assume r1: "r_instances r1 = r_instances r" "r_endpoints r1 = r_endpoints r"
    and loop: "revoke_boot_internal b r = foldl (revoke_instance b) r1 (hm_keys (r_instances r))"
  show ?thesis
    unfolding mark_worker_died_def loop
    by (rule revoke_loop_release [OF hm_find_keys [OF assms(2)], of r1 i b e ep])
      (use assms r1 in simp_all)
qed

text \<open>Nothing that belongs to other boots is touched.\<close>

lemma revoke_instance_origin:
  assumes "hm_find (r_instances (revoke_instance b r k)) k' = Some i"
  obtains i' where "hm_find (r_instances r) k' = Some i'" "si_boot i' = si_boot i"
    "si_lease i' = si_lease i" "si_endpoints i' = si_endpoints i"
  using assms that by (fastforce split: if_splits)

lemma revoke_loop_lease_kept:
  "(\<And>k i. hm_find (r_instances r) k = Some i \<Longrightarrow> si_boot i = b \<Longrightarrow> si_lease i \<noteq> l) \<Longrightarrow>
    hm_find (r_leases (foldl (revoke_instance b) r ks)) l = hm_find (r_leases r) l"
proof (induction ks arbitrary: r)
  case (Cons k ks)
  have "hm_find (r_leases (revoke_instance b r k)) l = hm_find (r_leases r) l"
    using Cons.prems by (auto simp: revoke_instance_leases expire_owned_lease_leases split: option.split)
  moreover have "si_lease i \<noteq> l"
    if "hm_find (r_instances (revoke_instance b r k)) k' = Some i" "si_boot i = b" for k' i
    using that(1) by (rule revoke_instance_origin) (use that(2) Cons.prems in metis)
  then have "hm_find (r_leases (foldl (revoke_instance b) (revoke_instance b r k) ks)) l =
      hm_find (r_leases (revoke_instance b r k)) l"
    by (rule Cons.IH)
  ultimately show ?case by simp
qed simp

lemma revoke_loop_endpoint_kept:
  "(\<And>k i. hm_find (r_instances r) k = Some i \<Longrightarrow> si_boot i = b \<Longrightarrow> e \<notin> set (si_endpoints i)) \<Longrightarrow>
    hm_find (r_endpoints (foldl (revoke_instance b) r ks)) e = hm_find (r_endpoints r) e"
proof (induction ks arbitrary: r)
  case (Cons k ks)
  have "hm_find (r_endpoints (revoke_instance b r k)) e = hm_find (r_endpoints r) e"
    using Cons.prems by (auto simp: revoke_instance_endpoints split: option.split)
  moreover have "e \<notin> set (si_endpoints i)"
    if "hm_find (r_instances (revoke_instance b r k)) k' = Some i" "si_boot i = b" for k' i
    using that(1) by (rule revoke_instance_origin) (use that(2) Cons.prems in metis)
  then have "hm_find (r_endpoints (foldl (revoke_instance b) (revoke_instance b r k) ks)) e =
      hm_find (r_endpoints (revoke_instance b r k)) e"
    by (rule Cons.IH)
  ultimately show ?case by simp
qed simp

lemma death_isolated:
  assumes "is_boot_live (r_authority r) b"
  shows "(\<And>k i. hm_find (r_instances r) k = Some i \<Longrightarrow> si_boot i = b \<Longrightarrow> si_lease i \<noteq> l) \<Longrightarrow>
      hm_find (r_leases (mark_worker_died b r)) l = hm_find (r_leases r) l"
    and "(\<And>k i. hm_find (r_instances r) k = Some i \<Longrightarrow> si_boot i = b \<Longrightarrow> e \<notin> set (si_endpoints i)) \<Longrightarrow>
      hm_find (r_endpoints (mark_worker_died b r)) e = hm_find (r_endpoints r) e"
proof -
  obtain r1 where r1: "r_instances r1 = r_instances r" "r_endpoints r1 = r_endpoints r"
      "r_leases r1 = r_leases r"
    and loop: "revoke_boot_internal b r = foldl (revoke_instance b) r1 (hm_keys (r_instances r))"
    using assms by (rule revoke_boot_as_loop)
  show "hm_find (r_leases (mark_worker_died b r)) l = hm_find (r_leases r) l"
    if "\<And>k i. hm_find (r_instances r) k = Some i \<Longrightarrow> si_boot i = b \<Longrightarrow> si_lease i \<noteq> l"
    unfolding mark_worker_died_def loop
    by (subst revoke_loop_lease_kept) (use that r1 in simp_all)
  show "hm_find (r_endpoints (mark_worker_died b r)) e = hm_find (r_endpoints r) e"
    if "\<And>k i. hm_find (r_instances r) k = Some i \<Longrightarrow> si_boot i = b \<Longrightarrow> e \<notin> set (si_endpoints i)"
    unfolding mark_worker_died_def loop
    by (subst revoke_loop_endpoint_kept) (use that r1 in simp_all)
qed

section \<open>A new coordinator epoch\<close>

lemma epoch_simps:
  "r_authority (begin_coordinator_epoch r) = (r_authority r)
     \<lparr>ra_epoch := MkGen (gen_value (ra_epoch (r_authority r)) + 1),
      ra_live_boots := [], ra_current_boot := [], ra_boot_worker := []\<rparr>"
  "r_instances (begin_coordinator_epoch r) = hm_map revalidate_instance (r_instances r)"
  "r_leases (begin_coordinator_epoch r) = hm_map revalidate_lease (r_leases r)"
  "r_services (begin_coordinator_epoch r) = r_services r"
  by (simp_all add: begin_coordinator_epoch_def)

lemma epoch_not_live [simp]: "\<not> is_boot_live (r_authority (begin_coordinator_epoch r)) b"
  by (simp add: epoch_simps is_boot_live_def)

lemma epoch_not_accepted [simp]:
  "\<not> av_accept (validate_envelope (begin_coordinator_epoch r) env)"
  by (simp add: accept_iff)

lemma revalidated_lifecycle:
  "si_lifecycle (revalidate_instance i) \<noteq> Lifecycle.AVAILABLE"
  "si_lifecycle (revalidate_instance i) \<noteq> Lifecycle.DEGRADED"
  by (simp_all add: revalidate_instance_def Let_def)

lemma revalidated_lease: "ls_state (revalidate_lease l) \<noteq> LeaseState.ACTIVE"
  by (simp add: revalidate_lease_def)

section \<open>Discovery after a loss\<close>

lemma eligible_live: "eligible r q svc i \<Longrightarrow> is_boot_live (r_authority r) (si_boot i)"
  by (simp add: eligible_def)

lemma no_live_boot_no_ranked:
  assumes "keys_ok r" "\<And>b. \<not> is_boot_live (r_authority r) b"
  shows "rr_ranked (query r q) = []"
proof -
  have "k \<notin> set (map cs_instance_id (rr_ranked (query r q)))" for k
    using ranked_iff [OF assms(1), of k q] eligible_live assms(2) by blast
  then have "set (map cs_instance_id (rr_ranked (query r q))) = {}" by (simp only: set_eq_iff empty_iff simp_thms)
  then show ?thesis by simp
qed

lemma selected_ranked:
  "set (rr_selected (query r q)) \<subseteq> set (map cs_instance_id (rr_ranked (query r q)))"
  unfolding query_simps(2) by (rule set_take_subset)

lemma found_iff_ranked:
  "rr_outcome (query r q) \<in> {QueryOutcome.FOUND_EXACT, QueryOutcome.FOUND_MULTIPLE} \<longleftrightarrow>
    rr_ranked (query r q) \<noteq> []"
  by (simp add: query_simps(3) query_outcome_def)

section \<open>The classification in terms of the records\<close>

lemma reclassify_available:
  "si_lifecycle (reclassify_lifecycle r i) = Lifecycle.AVAILABLE \<longleftrightarrow>
    is_boot_live (r_authority r) (si_boot i)
    \<and> si_freshness i = Freshness.CURRENT \<and> si_readiness i = Readiness.READY
    \<and> (if si_endpoints i = [] then si_reachability i = Reachability.REACHABLE
       else \<forall>e \<in> set (si_endpoints i). \<exists>ep. hm_find (r_endpoints r) e = Some ep
         \<and> ep_reachability ep = Reachability.REACHABLE)
    \<and> (si_health i = Health.HEALTHY \<or> si_health i = Health.UNKNOWN)
    \<and> \<not> some_endpoint (r_endpoints r) (si_endpoints i) endpoint_failed
    \<and> \<not> some_endpoint (r_endpoints r) (si_endpoints i) (\<lambda>ep. ep_health ep = Health.DEGRADED)
    \<and> (id_set (si_lease i) \<longrightarrow> (\<exists>l. hm_find (r_leases r) (si_lease i) = Some l
          \<and> ls_state l = LeaseState.ACTIVE))
    \<and> (\<forall>svc. hm_find (r_services r) (si_service_id i) = Some svc \<longrightarrow>
          (\<forall>req \<in> set (svc_required_capabilities svc).
            has_current_capability (r_capabilities r) (si_capabilities i) req))"
proof -
  have health: "aggregate_health i (r_endpoints r) = Health.HEALTHY
      \<or> aggregate_health i (r_endpoints r) = Health.UNKNOWN \<longleftrightarrow>
      (si_health i = Health.HEALTHY \<or> si_health i = Health.UNKNOWN)
      \<and> \<not> some_endpoint (r_endpoints r) (si_endpoints i) endpoint_failed
      \<and> \<not> some_endpoint (r_endpoints r) (si_endpoints i) (\<lambda>ep. ep_health ep = Health.DEGRADED)"
    by (auto simp: aggregate_health_eq health_loop)
  have reach: "aggregate_reachability i (r_endpoints r) = Reachability.REACHABLE \<longleftrightarrow>
      (if si_endpoints i = [] then si_reachability i = Reachability.REACHABLE
       else \<forall>e \<in> set (si_endpoints i). \<exists>ep. hm_find (r_endpoints r) e = Some ep
         \<and> ep_reachability ep = Reachability.REACHABLE)"
    by (simp add: aggregate_reachable_iff) (simp add: aggregate_reachability_def)
  have "si_lifecycle (reclassify_lifecycle r i) =
      classify r i (aggregate_health i (r_endpoints r)) (aggregate_reachability i (r_endpoints r))"
    by (simp add: reclassify_lifecycle_def Let_def)
  then show ?thesis
    by (simp only: classify_available health reach) blast
qed


section \<open>Lease generations\<close>

lemma acquire_stored:
  assumes "acquire_lease l env r = (Return k, r')"
  shows "r_leases r' = hm_put k (l\<lparr>ls_lease_id := k,
      ls_generation := MkGen (gen_value (ra_lease_gen (r_authority r)) + 1)\<rparr>) (r_leases r)"
proof -
  have "l\<lparr>ls_lease_id := ls_lease_id l, ls_generation := g\<rparr> = l\<lparr>ls_generation := g\<rparr>" for g
    by (cases l) simp
  then show ?thesis
    using with_authority_returns [OF assms [unfolded acquire_lease_def]]
    by (auto simp: Let_def take_next_id_def commit_registry_generation_def split: if_splits)
qed

lemma acquire_newest:
  assumes ok: "leases_ok n r" "n < 2 ^ 63" and ret: "acquire_lease l env r = (Return k, r')"
  shows "\<exists>d. hm_find (r_leases r') k = Some d \<and>
    (\<forall>k0 old. hm_find (r_leases r) k0 = Some old \<longrightarrow> ls_generation old < ls_generation d)"
proof -
  let ?g = "gen_value (ra_lease_gen (r_authority r))"
  have "unat ?g < 2 ^ 64 - 1" using ok by (simp add: leases_ok_def)
  then have bump: "?g < ?g + 1" using unat_bump by blast
  have "ls_generation old < MkGen (?g + 1)" if "hm_find (r_leases r) k0 = Some old" for k0 old
  proof -
    have "ls_generation old \<le> ra_lease_gen (r_authority r)"
      using ok(1) that by (simp add: leases_ok_def leases_fenced_def)
    then show ?thesis using bump by (simp add: less_eq_Gen_def less_Gen_def)
  qed
  then show ?thesis by (simp add: acquire_stored [OF ret])
qed

lemma renew_stale_generation:
  assumes "hm_find (r_leases r) k = Some d" "gen_value (env_lease_generation env) \<noteq> 0"
    and "env_lease_generation env \<noteq> ls_generation d"
  shows "\<not> returned (fst (renew_lease k env r)) \<and> r_leases (snd (renew_lease k env r)) = r_leases r"
  using assms by (simp add: renew_lease_def with_authority_def throw_def Let_def)

text \<open>Exactly when a renewal succeeds, and what it leaves alone otherwise.\<close>

lemma renew_lease_iff:
  assumes "hm_find (r_leases r) k = Some d"
  shows "returned (fst (renew_lease k env r)) \<longleftrightarrow>
      av_accept (validate_envelope r env) \<and> ls_state d \<noteq> LeaseState.REVOKED
      \<and> (\<forall>i. hm_find (r_instances r) (ls_service_instance d) = Some i \<longrightarrow> si_boot i = env_boot env)
      \<and> (gen_value (env_lease_generation env) = 0 \<or> env_lease_generation env = ls_generation d)"
  using assms
  by (auto simp: renew_lease_def with_authority_def throw_def Let_def split: option.split)

lemma renew_lease_refused:
  "\<not> returned (fst (renew_lease k env r)) \<Longrightarrow> r_leases (snd (renew_lease k env r)) = r_leases r"
  by (auto simp: renew_lease_def with_authority_def throw_def Let_def split: option.splits if_splits)

section \<open>Tombstones\<close>

lemma bind_endpoints_tombstones [simp]:
  "r_tombstones (snd (bind_endpoints iid eids r)) = r_tombstones r"
  by (induction eids arbitrary: r) (simp_all add: Let_def split: option.split)

lemma commit_instance_tombstones [simp]:
  "r_tombstones (snd (commit_instance copy r)) = r_tombstones r"
proof -
  obtain e r1 where b: "bind_endpoints (si_instance_id copy) (si_endpoints copy) r = (e, r1)"
    by fastforce
  then have "r_tombstones r1 = r_tombstones r"
    using bind_endpoints_tombstones by (metis snd_conv)
  then show ?thesis by (cases e) (simp_all add: commit_instance_def b Let_def)
qed

lemma register_instance_tombstones [simp]:
  "r_tombstones (snd (register_instance inst env r)) = r_tombstones r"
  by (simp add: register_instance_def place_instance_def assign_instance_id_def with_authority_def
      throw_def Let_def take_next_id_def split: option.split)

lemma registration_tombstones [simp]:
  "r_tombstones (snd (register_service svc env r)) = r_tombstones r"
  "r_tombstones (snd (register_runtime rt env r)) = r_tombstones r"
  "r_tombstones (snd (register_protocol pd env r)) = r_tombstones r"
  "r_tombstones (snd (register_endpoint ep env r)) = r_tombstones r"
  "r_tombstones (snd (register_capability cap env r)) = r_tombstones r"
  "r_tombstones (snd (register_backend bd env r)) = r_tombstones r"
  "r_tombstones (snd (register_device dd env r)) = r_tombstones r"
  "r_tombstones (snd (register_node nd env r)) = r_tombstones r"
  by (simp_all add: register_service_def register_runtime_def
      register_protocol_def register_endpoint_def register_capability_def register_backend_def
      register_device_def register_node_def with_authority_def throw_def Let_def take_next_id_def
      commit_registry_generation_def split: option.splits)

lemma update_tombstones [simp]:
  "r_tombstones (snd (update_health iid h env r)) = r_tombstones r"
  "r_tombstones (snd (update_readiness iid rd env r)) = r_tombstones r"
  "r_tombstones (snd (update_freshness iid f env r)) = r_tombstones r"
  "r_tombstones (snd (update_instance_reachability iid rc env r)) = r_tombstones r"
  "r_tombstones (snd (update_reachability eid rc env r)) = r_tombstones r"
  "r_tombstones (snd (deregister iid env r)) = r_tombstones r"
  by (simp_all add: update_health_def update_readiness_def update_freshness_def
      update_instance_reachability_def update_instance_def update_reachability_def deregister_def
      with_authority_def throw_def Let_def split: option.split)

lemma lease_tombstones [simp]:
  "r_tombstones (snd (acquire_lease l env r)) = r_tombstones r"
  "r_tombstones (snd (renew_lease lid env r)) = r_tombstones r"
  "r_tombstones (snd (expire_lease lid env r)) = r_tombstones r"
  "r_tombstones (snd (revoke_lease lid env r)) = r_tombstones r"
  "r_tombstones (mark_lease_revalidation_required lid r) = r_tombstones r"
  "r_tombstones (snd (invalidate iv env r)) = r_tombstones r"
  by (simp_all add: acquire_lease_def renew_lease_def expire_lease_def revoke_lease_def
      end_lease_def mark_lease_revalidation_required_def invalidate_def
      with_authority_def throw_def Let_def take_next_id_def commit_registry_generation_def
      split: option.split)

lemma authority_tombstones [simp]:
  "r_tombstones (revoke_boot_internal b r) = r_tombstones r"
  "r_tombstones (mark_worker_died b r) = r_tombstones r"
  "r_tombstones (begin_coordinator_epoch r) = r_tombstones r"
  "r_tombstones (set_worker_health_reporting w on r) = r_tombstones r"
  "r_tombstones (snd (adopt_worker w r)) = r_tombstones r"
proof -
  show revoke: "r_tombstones (revoke_boot_internal b r) = r_tombstones r" for b r
    by (simp add: revoke_boot_internal_def Let_def)
  then show "r_tombstones (mark_worker_died b r) = r_tombstones r"
    by (simp add: mark_worker_died_def)
  show "r_tombstones (begin_coordinator_epoch r) = r_tombstones r"
    "r_tombstones (set_worker_health_reporting w on r) = r_tombstones r"
    by (simp_all add: begin_coordinator_epoch_def set_worker_health_reporting_def)
  show "r_tombstones (snd (adopt_worker w r)) = r_tombstones r"
    by (simp add: adopt_worker_def Let_def revoke split: option.split)
qed

lemma tombstones_execute:
  assumes "\<forall>tb env. c \<noteq> CreateTombstone tb env"
  shows "r_tombstones (snd (execute c r)) = r_tombstones r"
proof -
  have "r_tombstones (snd (supersede iid inst env r)) = r_tombstones r" for iid inst env
    by (rule supersede_preserves [where good = "\<lambda>r'. r_tombstones r' = r_tombstones r"]) simp_all
  moreover have "r_tombstones (snd (query_and_account q r)) = r_tombstones r" for q
    by (subst query_and_account_only) simp
  ultimately show ?thesis using assms by (cases c) simp_all
qed

text \<open>A service generation above the floor of the tombstone of its identity.\<close>

definition above_floor :: "ServiceId \<Rightarrow> u64 \<Rightarrow> Registry \<Rightarrow> bool" where
  "above_floor sid bound r \<longleftrightarrow>
    (\<forall>svc. hm_find (r_services r) sid = Some svc \<longrightarrow> bound < gen_value (svc_generation svc))"

definition service_tombstone :: "ServiceId \<Rightarrow> u64 \<Rightarrow> Registry \<Rightarrow> bool" where
  "service_tombstone sid bound r \<longleftrightarrow> (\<exists>(k, tb) \<in> set (r_tombstones r).
     tb_target_kind tb = ''ServiceId'' \<and> tb_target_text tb = render_typed_id sid
     \<and> gen_value (tb_generation_floor tb) = bound)"

lemma service_tombstone_covers:
  "service_tombstone sid bound r \<Longrightarrow> g \<le> bound \<Longrightarrow>
    covered_by_tombstone r ''ServiceId'' (render_typed_id sid) g"
  unfolding service_tombstone_def covered_by_tombstone_def list_ex_iff by fastforce

lemma above_floor_execute:
  assumes tomb: "service_tombstone sid bound r" and above: "above_floor sid bound r"
  shows "above_floor sid bound (snd (execute c r))"
proof (cases "\<exists>svc env. c = RegisterService svc env")
  case True
  then obtain svc env where c: "c = RegisterService svc env" by blast
  show ?thesis
  proof (cases "hm_find (r_services r) sid")
    case (Some cur)
    then have "bound < gen_value (svc_generation cur)" using above by (simp add: above_floor_def)
    moreover obtain cur' where "hm_find (r_services (snd (execute c r))) sid = Some cur'"
      "svc_generation cur \<le> svc_generation cur'"
      using service_generation_execute [OF Some] by blast
    ultimately show ?thesis by (auto simp: above_floor_def less_eq_Gen_def)
  next
    case None
    show ?thesis
    proof (rule service_reg.branches [of svc env r])
      assume "r_services (snd (register_service svc env r)) = r_services r"
      then show ?thesis using None by (simp add: c above_floor_def)
    next
      assume put: "r_services (snd (register_service svc env r)) =
          hm_put (svc_service_id svc) svc (r_services r)"
        and ret: "returned (fst (register_service svc env r))"
      have "bound < gen_value (svc_generation svc)" if "svc_service_id svc = sid"
      proof (rule ccontr)
        assume "\<not> bound < gen_value (svc_generation svc)"
        then have cov: "\<not> \<not> covered_by_tombstone r ''ServiceId''
            (render_typed_id (svc_service_id svc)) (gen_value (svc_generation svc))"
          using service_tombstone_covers [OF tomb] that by simp
        have acc: "av_accept (validate_envelope r env)"
          using ret service_reg.rejected [of r env svc] by fastforce
        show False
          using service_reg.covered [OF acc _ cov] None that ret by auto
      qed
      then show ?thesis using put None by (auto simp: c above_floor_def)
    qed simp_all
  qed
next
  case False
  then show ?thesis using services_execute [of c r] above by (auto simp: above_floor_def)
qed

lemma above_floor_run:
  "(\<forall>c \<in> set cs. \<forall>tb env. c \<noteq> CreateTombstone tb env) \<Longrightarrow> service_tombstone sid bound r \<Longrightarrow>
    above_floor sid bound r \<Longrightarrow> above_floor sid bound (run cs r)"
proof (induction cs arbitrary: r)
  case (Cons c cs)
  have "r_tombstones (snd (execute c r)) = r_tombstones r"
    using Cons.prems(1) by (intro tombstones_execute) simp
  then have "service_tombstone sid bound (snd (execute c r))"
    using Cons.prems(2) by (simp add: service_tombstone_def)
  then show ?case
    using Cons.IH [of "snd (execute c r)"] Cons.prems above_floor_execute
    by (simp add: run_def)
qed (simp add: run_def)


section \<open>Updates of an instance\<close>

text \<open>
  A successful update writes the field and classifies the instance afresh; the classification does
  not read the lifecycle the instance had before.
\<close>

lemma update_success:
  assumes "update_instance k f kind msg env r = (Return (), r')"
  obtains i where "hm_find (r_instances r) k = Some i"
    "hm_find (r_instances r') k = Some (reclassify_lifecycle r (f i))"
    "\<And>k'. k' \<noteq> k \<Longrightarrow> hm_find (r_instances r') k' = hm_find (r_instances r) k'"
    "env_service_instance_generation env \<noteq> no_gen \<Longrightarrow>
      env_service_instance_generation env = si_instance_generation i"
proof -
  obtain i where i: "hm_find (r_instances r) k = Some i"
    and current: "generation_is_current_generation env i"
    and r': "r' = commit_registry_generation
      (r\<lparr>r_instances := hm_put k (reclassify_lifecycle r (f i)) (r_instances r)\<rparr>)"
    using with_authority_returns [OF assms [unfolded update_instance_def]]
    by (auto simp: throw_def split: option.splits if_splits)
  have "gen_value (env_service_instance_generation env) = 0 \<Longrightarrow>
      env_service_instance_generation env = no_gen"
    by (cases "env_service_instance_generation env") (simp add: no_gen_def)
  then have "env_service_instance_generation env \<noteq> no_gen \<Longrightarrow>
      env_service_instance_generation env = si_instance_generation i"
    using current by (auto simp: generation_is_current_generation_def split: if_splits)
  then show ?thesis using i r' by (intro that [of i]) simp_all
qed

lemma classify_lifecycle_irrelevant:
  "classify r (i\<lparr>si_lifecycle := l\<rparr>) h rc = classify r i h rc"
proof -
  let ?i = "i\<lparr>si_lifecycle := l\<rparr>"
  have "si_boot ?i = si_boot i" "si_freshness ?i = si_freshness i" "si_lease ?i = si_lease i"
    "si_service_id ?i = si_service_id i" "si_capabilities ?i = si_capabilities i"
    "si_readiness ?i = si_readiness i" by simp_all
  then show ?thesis by (simp only: classify_def)
qed

lemma reclassify_lifecycle_irrelevant:
  "reclassify_lifecycle r (i\<lparr>si_lifecycle := l\<rparr>) = reclassify_lifecycle r i"
  by (simp add: reclassify_lifecycle_def classify_lifecycle_irrelevant Let_def
      aggregate_health_def aggregate_reachability_def)

section \<open>A registration that fails half way\<close>

text \<open>
  The current instance is superseded before the endpoints are checked, and stays superseded when
  the check fails.
\<close>

lemma register_instance_partial:
  assumes acc: "av_accept (validate_envelope r env)" and id: "id_set (si_instance_id inst)"
    and cur: "find_current (si_service_id inst) (r_instances r) = Some (k0, cur)"
    and newer: "\<not> si_instance_generation inst \<le> si_instance_generation cur"
    and service: "hm_find (r_services r) (si_service_id inst) = Some svc"
    and unknown: "si_endpoints inst = e # es" "hm_find (r_endpoints r) e = None"
  shows "fst (register_instance inst env r) =
      Throw (RegistryError UNKNOWN_IDENTITY ''instance references unregistered endpoint'')
    \<and> hm_find (r_instances (snd (register_instance inst env r))) k0 =
        Some (cur\<lparr>si_lifecycle := Lifecycle.SUPERSEDED\<rparr>)"
proof -
  have "si_instance_generation inst \<noteq> si_instance_generation cur" using newer by auto
  then show ?thesis
    using assms by (simp add: register_instance_def assign_instance_id_def id_set_def
        with_authority_accept place_instance_def commit_instance_def throw_def)
qed

text \<open>
  What a failing registration of an instance leaves behind: the current instance is superseded
  when the record is a newer one, and every endpoint that changed is bound to an instance that is
  not stored.
\<close>

lemma bind_endpoints_changes:
  "hm_find (r_endpoints (snd (bind_endpoints iid eids r))) e = hm_find (r_endpoints r) e
    \<or> bound_to iid (snd (bind_endpoints iid eids r)) e"
proof (induction eids arbitrary: r)
  case (Cons eid eids)
  have step: "?case" if "bind_endpoints iid (eid # eids) r = bind_endpoints iid eids r1"
    "e \<noteq> eid \<longrightarrow> hm_find (r_endpoints r1) e = hm_find (r_endpoints r) e" "bound_to iid r1 eid" for r1
    using Cons.IH [of r1] that bind_keeps_bound [OF that(3), of eids] by metis
  show ?case
  proof (cases "hm_find (r_endpoints r) eid")
    case (Some ep)
    show ?thesis
    proof (cases "id_value (ep_service_instance ep) = 0")
      case True
      then show ?thesis
        by (intro step [of "r\<lparr>r_endpoints := hm_put eid (ep\<lparr>ep_service_instance := iid\<rparr>) (r_endpoints r)\<rparr>"])
          (simp_all add: Some bound_to_def)
    next
      case set: False
      consider "ep_service_instance ep = iid"
        | "ep_service_instance ep \<noteq> iid" "owner_inactive (hm_find (r_instances r) (ep_service_instance ep))"
        | "ep_service_instance ep \<noteq> iid" "\<not> owner_inactive (hm_find (r_instances r) (ep_service_instance ep))"
        by blast
      then show ?thesis
      proof cases
        case 1
        then show ?thesis using set Cons.IH [of r] by (simp add: Some)
      next
        case 2
        then show ?thesis
          using set
          by (intro step [of "r\<lparr>r_endpoints := hm_put eid (ep\<lparr>ep_service_instance := iid,
              ep_reachability := Reachability.REACHABLE, ep_freshness := Freshness.CURRENT\<rparr>)
              (r_endpoints r)\<rparr>"]) (simp_all add: Some bound_to_def)
      next
        case 3
        then show ?thesis using set by (simp add: Some)
      qed
    qed
  qed simp
qed simp

lemma bind_endpoints_registered:
  "bind_endpoints iid eids r = (None, r') \<Longrightarrow> e \<in> set eids \<Longrightarrow> hm_find (r_endpoints r) e \<noteq> None"
  by (induction iid eids r rule: bind_endpoints.induct)
    (fastforce split: option.splits if_splits)+

lemma commit_instance_failed:
  assumes "commit_instance copy r = (Throw e, r')"
  shows "r_instances r' = r_instances r
    \<and> (hm_find (r_endpoints r') ep = hm_find (r_endpoints r) ep \<or> bound_to (si_instance_id copy) r' ep)
    \<and> err_kind e \<in> {UNKNOWN_IDENTITY, DUPLICATE_CONFLICT}"
proof -
  have "bind_endpoints (si_instance_id copy) (si_endpoints copy) r = (Some e, r')"
    using assms by (auto simp: commit_instance_def Let_def split: prod.splits option.splits)
  moreover have "bind_endpoints iid eids s = (Some e, s') \<Longrightarrow>
      err_kind e \<in> {UNKNOWN_IDENTITY, DUPLICATE_CONFLICT}" for iid eids s s'
    by (induction iid eids s rule: bind_endpoints.induct) (auto split: option.splits if_splits)
  ultimately show ?thesis
    using bind_endpoints_changes [of "si_instance_id copy" "si_endpoints copy" r ep]
      bind_endpoints_frame(4) [of "si_instance_id copy" "si_endpoints copy" r]
    by simp
qed

lemma commit_instance_unregistered:
  "e \<in> set (si_endpoints copy) \<Longrightarrow> hm_find (r_endpoints r) e = None \<Longrightarrow>
    \<not> returned (fst (commit_instance copy r))"
  by (auto simp: commit_instance_def Let_def dest: bind_endpoints_registered
      split: prod.split option.split)

text \<open>The instance that a registration supersedes before it checks the endpoints.\<close>

definition outdated_by ::
  "Registry \<Rightarrow> AuthorityEnvelope \<Rightarrow> ServiceInstance \<Rightarrow> (ServiceInstanceId \<times> ServiceInstance) option" where
  "outdated_by r env inst =
    (if av_accept (validate_envelope r env) \<and> hm_find (r_services r) (si_service_id inst) \<noteq> None then
       (case find_current (si_service_id inst) (r_instances r) of
          None \<Rightarrow> None
        | Some (k, cur) \<Rightarrow>
            if si_instance_generation cur < si_instance_generation inst then Some (k, cur) else None)
     else None)"

lemma register_instance_failed:
  assumes "register_instance inst env r = (Throw e, r')"
  shows "r_instances r' =
      (case outdated_by r env inst of
         None \<Rightarrow> r_instances r
       | Some (k, cur) \<Rightarrow> hm_put k (cur\<lparr>si_lifecycle := Lifecycle.SUPERSEDED\<rparr>) (r_instances r))
    \<and> (hm_find (r_endpoints r') ep = hm_find (r_endpoints r) ep
       \<or> bound_to (si_instance_id (assigned_instance r inst)) r' ep)
    \<and> (outdated_by r env inst \<noteq> None \<longrightarrow> err_kind e \<in> {UNKNOWN_IDENTITY, DUPLICATE_CONFLICT})"
proof (cases "av_accept (validate_envelope r env) \<and> hm_find (r_services r) (si_service_id inst) \<noteq> None")
  case False
  then show ?thesis
    using assms by (auto simp: register_instance_def with_authority_def throw_def Let_def outdated_by_def
        split: if_splits)
next
  case ok: True
  let ?copy = "assigned_instance r inst" and ?r1 = "after_assignment r inst"
  have place: "place_instance ?copy ?r1 = (Throw e, r')"
    using assms ok register_instance_placed by simp
  show ?thesis
  proof (cases "find_current (si_service_id inst) (r_instances r)")
    case None
    then show ?thesis
      using place ok commit_instance_failed [of ?copy ?r1 e r' ep]
      by (auto simp: place_instance_def outdated_by_def throw_def split: if_splits)
  next
    case (Some p)
    obtain k cur where p: "p = (k, cur)" by (cases p)
    let ?r2 = "count ac_supersessions_update (uncount ac_available_instances_update
        (?r1\<lparr>r_instance_history := r_instance_history ?r1 @ [cur],
           r_instances := hm_put k (cur\<lparr>si_lifecycle := Lifecycle.SUPERSEDED\<rparr>) (r_instances r)\<rparr>))"
    show ?thesis
    proof (cases "si_instance_generation cur < si_instance_generation inst")
      case True
      then have "commit_instance ?copy ?r2 = (Throw e, r')"
        using place by (auto simp: place_instance_def Some p throw_def split: if_splits)
      from commit_instance_failed [OF this, of ep] True ok show ?thesis
        by (simp add: outdated_by_def Some p)
    next
      case False
      then show ?thesis
        using place ok by (auto simp: place_instance_def outdated_by_def Some p throw_def split: if_splits)
    qed
  qed
qed

lemma register_instance_unregistered:
  assumes "outdated_by r env inst = Some p" "e \<in> set (si_endpoints inst)"
    and "hm_find (r_endpoints r) e = None"
  shows "\<not> returned (fst (register_instance inst env r))"
proof -
  obtain k cur where p: "p = (k, cur)" by (cases p)
  have out: "av_accept (validate_envelope r env)" "hm_find (r_services r) (si_service_id inst) \<noteq> None"
    "find_current (si_service_id inst) (r_instances r) = Some (k, cur)"
    "si_instance_generation cur < si_instance_generation inst"
    using assms(1) by (auto simp: outdated_by_def p split: if_splits option.splits)
  moreover have "\<not> returned (fst (commit_instance (assigned_instance r inst) s))"
    if "r_endpoints s = r_endpoints r" for s
    using commit_instance_unregistered [of e] assms(2,3) that by simp
  ultimately show ?thesis
    by (auto simp: register_instance_placed place_instance_def)
qed

section \<open>Tombstones and instances\<close>

text \<open>
  While an instance of the service competes, the registration of another one does not consult the
  tombstones: it never fails for their sake, however high their floors are.
\<close>

lemma bind_endpoints_error:
  "bind_endpoints iid eids r = (Some e, r') \<Longrightarrow> err_kind e \<noteq> TOMBSTONE_RESURRECTION"
  by (induction iid eids r rule: bind_endpoints.induct) (auto split: option.splits if_splits)

lemma validate_kind:
  "\<not> av_accept (validate_envelope r env) \<Longrightarrow> av_kind (validate_envelope r env) \<noteq> TOMBSTONE_RESURRECTION"
  by (simp add: validate_envelope_def)

lemma place_instance_error:
  "find_current (si_service_id copy) (r_instances r) = Some (k, cur) \<Longrightarrow>
    fst (place_instance copy r) = Throw e \<Longrightarrow> err_kind e \<noteq> TOMBSTONE_RESURRECTION"
  by (auto simp: place_instance_def commit_instance_def throw_def Let_def dest: bind_endpoints_error
      split: if_splits prod.splits option.splits)

lemma tombstone_not_consulted:
  assumes "find_current (si_service_id inst) (r_instances r) = Some (k, cur)"
    and "fst (register_instance inst env r) = Throw e"
  shows "err_kind e \<noteq> TOMBSTONE_RESURRECTION"
proof (cases "av_accept (validate_envelope r env)")
  case True
  obtain copy r1 where copy: "assign_instance_id inst r = (copy, r1)" by fastforce
  then have "si_service_id copy = si_service_id inst" "r_instances r1 = r_instances r"
    by (auto simp: assign_instance_id_def take_next_id_def split: if_splits prod.splits)
  then show ?thesis
    using assms True copy place_instance_error [of copy r1 k cur e]
    by (auto simp: register_instance_def with_authority_accept throw_def split: if_splits)
next
  case False
  then show ?thesis
    using assms(2) validate_kind [OF False] by (auto simp: register_instance_def with_authority_def throw_def Let_def)
qed

section \<open>What tombstones refuse\<close>

text \<open>
  A tombstone of this kind and text whose floor is not below the generation, and a result that
  reports a tombstone.
\<close>

definition tombstoned :: "Registry \<Rightarrow> string \<Rightarrow> string \<Rightarrow> u64 \<Rightarrow> bool" where
  "tombstoned r kind txt g \<longleftrightarrow> (\<exists>(k, tb) \<in> set (r_tombstones r). tb_target_kind tb = kind
     \<and> tb_target_text tb = txt \<and> g \<le> gen_value (tb_generation_floor tb))"

definition tombstone_error :: "(RegistryError, 'a) outcome \<Rightarrow> bool" where
  "tombstone_error res \<longleftrightarrow> (\<exists>e. res = Throw e \<and> err_kind e = TOMBSTONE_RESURRECTION)"

lemma tombstone_error_simps [simp]:
  "\<not> tombstone_error (Return x)"
  "tombstone_error (Throw e) \<longleftrightarrow> err_kind e = TOMBSTONE_RESURRECTION"
  by (simp_all add: tombstone_error_def)

lemma covered_iff: "covered_by_tombstone r kind txt g \<longleftrightarrow> tombstoned r kind txt g"
  by (simp add: covered_by_tombstone_def tombstoned_def list_ex_iff split_def)

lemma tombstoned_cong: "r_tombstones r' = r_tombstones r \<Longrightarrow> tombstoned r' = tombstoned r"
  by (simp add: tombstoned_def fun_eq_iff)

lemmas tombstone_simps = with_authority_def throw_def Let_def covered_iff validate_kind

lemma record_refused:
  "tombstone_error (fst (register_service svc env r)) \<longleftrightarrow> av_accept (validate_envelope r env)
    \<and> hm_find (r_services r) (svc_service_id svc) = None
    \<and> tombstoned r ''ServiceId'' (render_typed_id (svc_service_id svc)) (gen_value (svc_generation svc))"
  "tombstone_error (fst (register_runtime rt env r)) \<longleftrightarrow> av_accept (validate_envelope r env)
    \<and> hm_find (r_runtime_instances r) (rt_runtime_instance rt) = None
    \<and> tombstoned r ''RuntimeInstanceId'' (render_typed_id (rt_runtime_instance rt))
        (gen_value (rt_generation rt))"
  "tombstone_error (fst (register_endpoint ep env r)) \<longleftrightarrow> av_accept (validate_envelope r env)
    \<and> hm_find (r_endpoints r) (ep_endpoint_id ep) = None
    \<and> tombstoned r ''EndpointId'' (render_typed_id (ep_endpoint_id ep)) (gen_value (ep_generation ep))"
  "tombstone_error (fst (register_capability cap env r)) \<longleftrightarrow> av_accept (validate_envelope r env)
    \<and> hm_find (r_capabilities r) (cap_capability_id cap) = None
    \<and> tombstoned r ''CapabilityId'' (render_typed_id (cap_capability_id cap))
        (gen_value (cap_generation cap))"
  by (auto simp: tombstone_simps register_service_def register_runtime_def register_endpoint_def
      register_capability_def split: option.splits prod.splits if_splits)

lemma commit_instance_no_tombstone: "\<not> tombstone_error (fst (commit_instance copy r))"
  by (auto simp: commit_instance_def Let_def dest: bind_endpoints_error
      split: prod.split option.split)

lemma instance_refused:
  "tombstone_error (fst (register_instance inst env r)) \<longleftrightarrow> av_accept (validate_envelope r env)
    \<and> hm_find (r_services r) (si_service_id inst) \<noteq> None
    \<and> find_current (si_service_id inst) (r_instances r) = None
    \<and> tombstoned r ''ServiceId'' (render_typed_id (si_service_id inst))
        (gen_value (si_instance_generation inst))"
proof (cases "av_accept (validate_envelope r env) \<and> hm_find (r_services r) (si_service_id inst) \<noteq> None")
  case False
  then show ?thesis
    by (auto simp: register_instance_def tombstone_simps)
next
  case True
  have "tombstoned (after_assignment r inst) = tombstoned r" by (rule tombstoned_cong) simp
  then show ?thesis
    using True by (auto simp: register_instance_placed place_instance_def throw_def covered_iff
        commit_instance_no_tombstone split: option.split)
qed

text \<open>No sequence of commands without \<^verbatim>\<open>create_tombstone\<close> changes the tombstones.\<close>

lemma tombstones_run:
  "(\<forall>c \<in> set cs. \<forall>tb env. c \<noteq> CreateTombstone tb env) \<Longrightarrow> r_tombstones (run cs r) = r_tombstones r"
  by (induction cs arbitrary: r) (simp_all add: run_def tombstones_execute)

text \<open>A service that was not stored does not come to be stored below the floor.\<close>

lemma tombstoned_stays_out:
  assumes "\<forall>c \<in> set cs. \<forall>tb env. c \<noteq> CreateTombstone tb env" "hm_find (r_services r) sid = None"
    and "hm_find (r_services (run cs r)) sid = Some svc"
  shows "\<not> tombstoned r ''ServiceId'' (render_typed_id sid) (gen_value (svc_generation svc))"
proof
  assume "tombstoned r ''ServiceId'' (render_typed_id sid) (gen_value (svc_generation svc))"
  then obtain bound where bound: "service_tombstone sid bound r" "gen_value (svc_generation svc) \<le> bound"
    unfolding tombstoned_def service_tombstone_def by blast
  moreover have "above_floor sid bound r" using assms(2) by (simp add: above_floor_def)
  ultimately have "above_floor sid bound (run cs r)" using above_floor_run [OF assms(1)] by blast
  then show False using assms(3) bound(2) by (simp add: above_floor_def)
qed

section \<open>An incompatible protocol does not disqualify\<close>

lemma protocol_loop_incompatible:
  assumes "pid \<in> set pids" "hm_find (r_protocols r) pid = Some pd"
    and "negotiate_protocol (q_protocol_version q) (pd_version pd) False =
      NegotiationOutcome.INCOMPATIBLE"
  shows "protocol_loop r q pids any = (True, True)"
  using assms by (induction pids arbitrary: any) (auto split: option.split)

lemma inspect_incompatible:
  assumes "eligible r q svc i" "id_set (q_protocol_requirement q)" "q_has_protocol_version q"
    and "pid \<in> set (si_protocols i)" "hm_find (r_protocols r) pid = Some pd"
    and "negotiate_protocol (q_protocol_version q) (pd_version pd) False =
      NegotiationOutcome.INCOMPATIBLE"
  shows "(RejectionCategory.INCOMPATIBLE_PROTOCOL, ''no compatible protocol'')
    \<in> set (fst (inspect r q svc i))"
proof -
  have "protocol_filter r q i =
      ([(RejectionCategory.INCOMPATIBLE_PROTOCOL, ''no compatible protocol'')], False)"
    by (simp add: protocol_filter_def assms protocol_loop_incompatible [OF assms(4-6)])
  moreover have "authority_filter r q i = None"
    using assms(1) unfolding eligible_def authority_filter_None by blast
  ultimately show ?thesis by (simp add: inspect_def split: option.split)
qed

lemma rejected_stored:
  assumes "keys_ok r" "hm_find (r_instances r) k = Some i" "considered r q i = Some svc"
    and "j \<in> set (fst (inspect r q svc i))"
  shows "rejection_of i j \<in> set (rr_rejected (query r q))"
proof -
  have "(k, i) \<in> set (r_instances r)"
    using assms(1,2) hm_find_iff by (force simp: keys_ok_def keyed_def)
  moreover have "rejection_of i j \<in> set (rejected_of r q i)"
    using assms(3,4) by (simp add: rejected_of_def)
  ultimately show ?thesis by (force simp: query_simps(4) scan_parts)
qed

end
