(* ===== verification/RR_Scenario.thy ===== *)
theory RR_Scenario
  imports RR_Effects
begin

text \<open>
  A small run of the registry, used to show that the hypotheses of the properties can hold: one
  worker registers a service, an endpoint and an instance bound to it, and takes a lease.
\<close>

definition worker :: WorkerId where "worker = MkId 7"
definition boot :: WorkerBootId where "boot = MkId 101"

definition envelope :: AuthorityEnvelope where
  "envelope = default_AuthorityEnvelope\<lparr>env_epoch := MkGen 1, env_boot := MkId 101\<rparr>"

definition service :: ServiceDescriptor where
  "service = default_ServiceDescriptor\<lparr>svc_service_id := MkId 1, svc_generation := MkGen 1\<rparr>"

definition endpoint :: EndpointDescriptor where
  "endpoint = default_EndpointDescriptor\<lparr>ep_endpoint_id := MkId 5, ep_generation := MkGen 1,
     ep_health := Health.HEALTHY, ep_reachability := Reachability.REACHABLE\<rparr>"

definition instance1 :: ServiceInstance where
  "instance1 = default_ServiceInstance\<lparr>si_instance_id := MkId 20, si_service_id := MkId 1,
     si_boot := MkId 101, si_instance_generation := MkGen 1, si_endpoints := [MkId 5],
     si_protocols := [MkId 9], si_lease := MkId 30,
     si_health := Health.HEALTHY, si_readiness := Readiness.READY,
     si_freshness := Freshness.CURRENT\<rparr>"

definition protocol :: ProtocolDescriptor where
  "protocol = default_ProtocolDescriptor\<lparr>pd_protocol_id := MkId 9, pd_generation := MkGen 1,
     pd_version := StructuredVersion 1 0 0\<rparr>"

definition lease1 :: LeaseDescriptor where
  "lease1 = default_LeaseDescriptor\<lparr>ls_lease_id := MkId 30,
     ls_service_instance := MkId 20, ls_state := LeaseState.ACTIVE\<rparr>"

definition setup_commands :: "Command list" where
  "setup_commands =
    [AdoptWorker worker, RegisterService service envelope, RegisterEndpoint endpoint envelope,
     RegisterProtocol protocol envelope, AcquireLease lease1 envelope,
     RegisterInstance instance1 envelope]"

definition demo :: Registry where
  "demo = run setup_commands (new_registry default_RegistryOptions)"

definition demo_restarted :: Registry where
  "demo_restarted = run [AdoptWorker worker] demo"

lemma demo_reach: "reach 6 demo"
  using reach_run [of setup_commands default_RegistryOptions]
  by (simp add: demo_def setup_commands_def eval_nat_numeral)

text \<open>One evaluation of the registry, from which the facts below are read off.\<close>

definition stored_instance :: ServiceInstance where
  "stored_instance = instance1\<lparr>si_reachability := Reachability.REACHABLE,
     si_lifecycle := Lifecycle.AVAILABLE\<rparr>"

lemma demo_evaluated:
  "let d = demo in r_instances d = [(MkId 20, stored_instance)]
    \<and> r_endpoints d = [(MkId 5, endpoint\<lparr>ep_service_instance := MkId 20\<rparr>)]
    \<and> r_leases d = [(MkId 30, lease1\<lparr>ls_generation := MkGen 1\<rparr>)]
    \<and> r_services d = [(MkId 1, service)] \<and> r_protocols d = [(MkId 9, protocol)]
    \<and> r_capabilities d = [] \<and> r_runtime_instances d = [] \<and> r_tombstones d = []
    \<and> ra_live_boots (r_authority d) = [MkId 101]
    \<and> ra_current_boot (r_authority d) = [(MkId 7, MkId 101)]
    \<and> ra_boot_worker (r_authority d) = [(MkId 101, MkId 7)]
    \<and> ra_epoch (r_authority d) = MkGen 1 \<and> ra_lease_gen (r_authority d) = MkGen 1
    \<and> r_next_boot d = 101 \<and> r_next_id d = 1"
  by code_simp

lemma demo_parts:
  "r_instances demo = [(MkId 20, stored_instance)]"
  "r_endpoints demo = [(MkId 5, endpoint\<lparr>ep_service_instance := MkId 20\<rparr>)]"
  "r_leases demo = [(MkId 30, lease1\<lparr>ls_generation := MkGen 1\<rparr>)]"
  "r_services demo = [(MkId 1, service)]" "r_protocols demo = [(MkId 9, protocol)]"
  "r_capabilities demo = []" "r_runtime_instances demo = []" "r_tombstones demo = []"
  "ra_live_boots (r_authority demo) = [MkId 101]"
  "ra_current_boot (r_authority demo) = [(MkId 7, MkId 101)]"
  "ra_boot_worker (r_authority demo) = [(MkId 101, MkId 7)]"
  "ra_epoch (r_authority demo) = MkGen 1" "ra_lease_gen (r_authority demo) = MkGen 1"
  "r_next_boot demo = 101" "r_next_id demo = 1"
  using demo_evaluated by (simp_all only: Let_def)

lemma stored_simps [simp]:
  "si_instance_id stored_instance = MkId 20" "si_service_id stored_instance = MkId 1"
  "si_boot stored_instance = MkId 101" "si_lease stored_instance = MkId 30"
  "si_endpoints stored_instance = [MkId 5]" "si_protocols stored_instance = [MkId 9]"
  "si_capabilities stored_instance = []"
  "si_instance_generation stored_instance = MkGen 1"
  "si_lifecycle stored_instance = Lifecycle.AVAILABLE"
  "si_health stored_instance = Health.HEALTHY" "si_readiness stored_instance = Readiness.READY"
  "si_freshness stored_instance = Freshness.CURRENT"
  "si_reachability stored_instance = Reachability.REACHABLE"
  by (simp_all add: stored_instance_def instance1_def default_ServiceInstance_def)

lemma demo_instance: "hm_find (r_instances demo) (MkId 20) = Some stored_instance"
  by (simp add: demo_parts)

lemma demo_boot:
  "is_boot_live (r_authority demo) (MkId 101)" "boot_owner (r_authority demo) (MkId 101) = worker"
  by (simp_all add: is_boot_live_def boot_owner_def demo_parts worker_def)

lemma demo_accepts: "av_accept (validate_envelope demo envelope)"
  by (simp add: accept_iff envelope_def demo_parts demo_boot)

lemma envelope_generations:
  "env_service_instance_generation envelope = no_gen" "env_lease_generation envelope = no_gen"
  "gen_value no_gen = 0"
  by (simp_all add: envelope_def default_AuthorityEnvelope_def no_gen_def)

text \<open>The worker restarts: its boot is retired and a new one handed out.\<close>

lemma demo_restarted_authority:
  "r_next_boot demo_restarted = 102"
  "ra_epoch (r_authority demo_restarted) = MkGen 1"
  "\<not> is_boot_live (r_authority demo_restarted) (MkId 101)"
proof -
  show "r_next_boot demo_restarted = 102"
    by (simp add: demo_restarted_def run_def demo_parts)
  show "ra_epoch (r_authority demo_restarted) = MkGen 1"
    by (simp add: demo_restarted_def run_def epoch_execute [of "AdoptWorker worker"] demo_parts
        del: execute.simps)
  show "\<not> is_boot_live (r_authority demo_restarted) (MkId 101)"
    by (simp add: demo_restarted_def run_def adopt_worker_eq adopt_base_def Let_def demo_parts
        worker_def is_boot_live_def revoke_boot_internal_def boot_owner_def)
qed

lemma demo_restarted_fenced:
  "fenced demo_restarted envelope" "room_for 1 demo_restarted"
  by (simp_all add: fenced_def retired_boot_def envelope_def room_for_def demo_restarted_authority)

text \<open>A query that the instance meets, and one that asks for a protocol it does not speak.\<close>

definition protocol_query :: RegistryQuery where
  "protocol_query = default_RegistryQuery\<lparr>q_protocol_requirement := MkId 9,
     q_protocol_version := StructuredVersion 2 0 0, q_has_protocol_version := True\<rparr>"

lemma demo_considered:
  "considered demo default_RegistryQuery stored_instance = Some service"
  "considered demo protocol_query stored_instance = Some service"
  by (simp_all add: considered_def demo_parts protocol_query_def default_RegistryQuery_def id_set_def)

lemma demo_incompatible:
  "negotiate_protocol (q_protocol_version protocol_query) (pd_version protocol) False =
    NegotiationOutcome.INCOMPATIBLE"
  by code_simp

lemma protocol_query_facts:
  "id_set (q_protocol_requirement protocol_query)" "q_has_protocol_version protocol_query"
  by (simp_all add: protocol_query_def id_set_def)

lemma demo_eligible:
  "eligible demo default_RegistryQuery service stored_instance"
  "eligible demo protocol_query service stored_instance"
  by (simp_all add: eligible_def demo_parts protocol_query_def default_RegistryQuery_def
      historical_def demo_boot lease1_def freshness_meets_def readiness_meets_def health_meets_def
      reachability_meets_def)

text \<open>
  A newer incarnation of the instance without an identity of its own: the registry assigns the
  first identity of its counter and supersedes the stored instance, whose endpoint passes on.
\<close>

definition unnamed_instance :: ServiceInstance where
  "unnamed_instance = stored_instance\<lparr>si_instance_id := no_id, si_instance_generation := MkGen 2\<rparr>"

lemma unnamed_facts:
  "fst (register_instance unnamed_instance envelope demo) = Return (MkId 1)"
  "find_current (MkId 1) (r_instances demo) = Some (MkId 20, stored_instance)"
proof -
  show current: "find_current (MkId 1) (r_instances demo) = Some (MkId 20, stored_instance)"
    by (simp add: find_current_def demo_parts historical_def)
  have "\<not> MkGen 2 \<le> (MkGen 1 :: 'g Gen)" by (simp add: word_le_nat_alt)
  then show "fst (register_instance unnamed_instance envelope demo) = Return (MkId 1)"
    using current
    by (simp add: register_instance_placed demo_accepts demo_parts unnamed_instance_def
        assigned_instance_def after_assignment_def no_id_def place_instance_def commit_instance_def
        owner_inactive_def Let_def)
qed

text \<open>
  The same incarnation under an identity of its own, as a worker that has just started would
  describe it. The classification replaces the lifecycle, so the stored record differs from it.
\<close>

definition starting_instance :: ServiceInstance where
  "starting_instance = unnamed_instance\<lparr>si_instance_id := MkId 21,
     si_lifecycle := Lifecycle.REGISTERING\<rparr>"

lemma starting_facts:
  assumes "register_instance starting_instance envelope demo = (res, r')"
  shows "res = Return (MkId 21)"
    and "hm_find (r_instances r') (MkId 21) = Some cur \<Longrightarrow> \<not> si_eq starting_instance cur"
proof -
  have current: "find_current (MkId 1) (r_instances demo) = Some (MkId 20, stored_instance)"
    by (rule unnamed_facts(2))
  have "\<not> MkGen 2 \<le> (MkGen 1 :: 'g Gen)" by (simp add: word_le_nat_alt)
  then have "fst (register_instance starting_instance envelope demo) = Return (MkId 21)"
    using current
    by (simp add: register_instance_placed demo_accepts demo_parts unnamed_instance_def
        starting_instance_def assigned_instance_def after_assignment_def no_id_def
        place_instance_def commit_instance_def owner_inactive_def Let_def)
  then show res: "res = Return (MkId 21)" using assms by simp
  have "structure_ok demo" using consistent.reach_holds [OF demo_reach] by simp
  then have ok: "keys_ok demo" by (simp add: structure_ok_def)
  have eq: "assigned_instance demo starting_instance = starting_instance"
    by (simp add: assigned_instance_def starting_instance_def)
  have starting: "si_lifecycle starting_instance = Lifecycle.REGISTERING"
    by (simp add: starting_instance_def)
  assume found: "hm_find (r_instances r') (MkId 21) = Some cur"
  note registered = register_instance_success [OF ok assms [unfolded res] refl, unfolded eq]
  show "\<not> si_eq starting_instance cur"
  proof (cases "hm_find (r_instances demo) (MkId 21)")
    case None
    then have "cur = reclassify_lifecycle r' starting_instance"
      using registered found by auto
    moreover have "classify r' i h rc \<noteq> Lifecycle.REGISTERING" for i h rc
      by (simp add: classify_def)
    ultimately have "si_lifecycle cur \<noteq> Lifecycle.REGISTERING"
      by (simp add: reclassify_lifecycle_def Let_def)
    then show ?thesis
      using starting by (auto simp: si_eq_def dest: arg_cong [where f = si_lifecycle])
  qed (simp add: demo_parts)
qed

text \<open>
  A tombstone for a second service: a registration at its floor is refused, one above it is not.
\<close>

definition tombstone2 :: TombstoneRecord where
  "tombstone2 = default_TombstoneRecord\<lparr>tb_tombstone_id := MkId 50, tb_target_kind := ''ServiceId'',
     tb_target_text := render_typed_id (MkId 2 :: ServiceId), tb_generation_floor := MkGen 5\<rparr>"

definition demo_tombstone :: Registry where
  "demo_tombstone = demo\<lparr>r_tombstones := [(MkId 50, tombstone2)]\<rparr>"

definition service2 :: ServiceDescriptor where
  "service2 = service\<lparr>svc_service_id := MkId 2, svc_generation := MkGen 5\<rparr>"

text \<open>A command in between that writes no tombstone.\<close>

definition later_commands :: "Command list" where
  "later_commands = [MarkLeaseRevalidation (MkId 30)]"

lemma demo_tombstone_facts:
  "tombstoned demo_tombstone ''ServiceId'' (render_typed_id (MkId 2 :: ServiceId)) 5"
  "hm_find (r_services (run later_commands demo_tombstone)) (MkId 2) = None"
  "av_accept (validate_envelope (run later_commands demo_tombstone) envelope)"
proof -
  show "tombstoned demo_tombstone ''ServiceId'' (render_typed_id (MkId 2 :: ServiceId)) 5"
    by (simp add: tombstoned_def tombstone2_def demo_tombstone_def)
  show "hm_find (r_services (run later_commands demo_tombstone)) (MkId 2) = None"
    by (simp add: run_def later_commands_def demo_tombstone_def demo_parts
        mark_lease_revalidation_required_def lease1_def)
  show "av_accept (validate_envelope (run later_commands demo_tombstone) envelope)"
    using demo_accepts
    by (simp add: run_def later_commands_def accept_iff demo_tombstone_def demo_parts
        mark_lease_revalidation_required_def lease1_def)
qed

end
