(* ===== verification/RR_Wire.thy ===== *)
theory RR_Wire
  imports RR_Prelude
begin

text \<open>
  Bytes, checksums and frames (\<^verbatim>\<open>protocol.hpp\<close>, \<^verbatim>\<open>protocol.cpp\<close>,
  \<^verbatim>\<open>crc32.hpp\<close>): little-endian integers, the table-driven CRC-32 with its
  bitwise reference, and the framed messages between workers and the coordinator.

  A buffer is a list of bytes. A pointer with a size is an optional list, \<open>None\<close> for the null
  pointer, whose length is the size.
\<close>

unbundle bit_operations_syntax

type_synonym bytes = "u8 list"

section \<open>Little-endian integers\<close>

definition put_u32 :: "u32 \<Rightarrow> bytes" where
  "put_u32 v = [ucast (v AND 0xFF), ucast (drop_bit 8 v AND 0xFF),
     ucast (drop_bit 16 v AND 0xFF), ucast (drop_bit 24 v AND 0xFF)]"

definition get_u32 :: "bytes \<Rightarrow> nat \<Rightarrow> u32" where
  "get_u32 p i = ucast (p ! i) OR push_bit 8 (ucast (p ! (i + 1)))
     OR push_bit 16 (ucast (p ! (i + 2))) OR push_bit 24 (ucast (p ! (i + 3)))"

lemma length_put_u32 [simp]: "length (put_u32 v) = 4"
  by (simp add: put_u32_def)

lemma bit_255: "bit (255 :: 'a::len word) n \<longleftrightarrow> n < 8 \<and> n < LENGTH('a)"
proof -
  have mask: "(255 :: 'a word) = mask 8" by (simp add: mask_numeral)
  show ?thesis by (simp only: mask bit_mask_iff possible_bit_word conj_commute)
qed

lemma ucast_low_byte [simp]: "ucast (v AND 0xFF) = (ucast v :: u8)" for v :: u32
proof (rule bit_word_eqI)
  fix n
  assume "n < LENGTH(8)"
  then show "bit (ucast (v AND 0xFF) :: u8) n = bit (ucast v :: u8) n"
    using bit_255 [of n, where 'a = 32] by (simp add: bit_simps)
qed

lemma not_bit_high: "LENGTH('a) \<le> n \<Longrightarrow> \<not> bit (w :: 'a::len word) n"
  using bit_imp_le_length by fastforce

lemma xor_cancel_right [simp]: "(a XOR b) XOR b = (a :: 'a::len word)"
  by (simp add: xor.assoc)

lemma xor_right_inject: "a XOR c = b XOR c \<longleftrightarrow> a = (b :: 'a::len word)"
  by (metis xor_cancel_right)

lemma xor_left_inject: "c XOR a = c XOR b \<longleftrightarrow> a = (b :: 'a::len word)"
  by (metis xor_cancel_right xor.commute)

lemma ucast_u8_inject: "ucast (x :: u8) = (ucast y :: u32) \<longleftrightarrow> x = y"
proof
  assume eq: "ucast x = (ucast y :: u32)"
  show "x = y"
  proof (rule bit_word_eqI)
    fix n
    assume "n < LENGTH(8)"
    then show "bit x n = bit y n"
      using arg_cong [where f = "\<lambda>w. bit w n", OF eq] by (simp add: bit_simps)
  qed
qed simp

lemma get_u32_of_put: "get_u32 (put_u32 v) 0 = v"
proof (rule bit_word_eqI)
  fix n
  assume "n < LENGTH(32)"
  then have "n < 8 \<or> 8 \<le> n \<and> n < 16 \<or> 16 \<le> n \<and> n < 24 \<or> 24 \<le> n \<and> n < 32" by auto
  then show "bit (get_u32 (put_u32 v) 0) n = bit v n"
    by (elim disjE; auto simp: get_u32_def put_u32_def bit_simps)
qed

lemma get_u32_append: "get_u32 (xs @ ys) (length xs + i) = get_u32 ys i"
  by (simp add: get_u32_def nth_append add.assoc)

lemma get_u32_prefix: "i + 4 \<le> length xs \<Longrightarrow> get_u32 (xs @ ys) i = get_u32 xs i"
  by (simp add: get_u32_def nth_append)

lemma put_u32_of_get:
  assumes "length p = 4"
  shows "put_u32 (get_u32 p 0) = p"
proof -
  obtain a b c d where p: "p = [a, b, c, d]"
    using assms by (auto simp: eval_nat_numeral length_Suc_conv)
  have "ucast (get_u32 p 0) = a" "ucast (drop_bit 8 (get_u32 p 0)) = b"
    "ucast (drop_bit 16 (get_u32 p 0)) = c" "ucast (drop_bit 24 (get_u32 p 0)) = d"
    by (rule bit_word_eqI, simp add: p get_u32_def bit_or_iff bit_push_bit_iff bit_drop_bit_eq
        bit_ucast_iff not_bit_high del: push_bit_of_1)+
  then show ?thesis by (simp add: put_u32_def p)
qed

lemma get_u32_at: "get_u32 (xs @ put_u32 v @ ys) (length xs) = v"
  using get_u32_append [of xs "put_u32 v @ ys" 0] get_u32_prefix [of 0 "put_u32 v" ys]
  by (simp add: get_u32_of_put)

lemma put_u32_at:
  assumes "i + 4 \<le> length data"
  shows "put_u32 (get_u32 data i) = take 4 (drop i data)"
proof -
  have "get_u32 data i = get_u32 (take 4 (drop i data)) 0"
    using assms by (simp add: get_u32_def)
  then show ?thesis using assms put_u32_of_get [of "take 4 (drop i data)"] by simp
qed

lemma get_u32_inject:
  assumes "length p = 4" "length p' = 4"
  shows "get_u32 p 0 = get_u32 p' 0 \<longleftrightarrow> p = p'"
  using put_u32_of_get [OF assms(1)] put_u32_of_get [OF assms(2)] by metis

section \<open>CRC-32\<close>

text \<open>The table entry of one byte: eight rounds of the reflected polynomial.\<close>

definition crc_round :: "u32 \<Rightarrow> u32" where
  "crc_round c = (if c AND 1 = 1 then 0xEDB88320 XOR drop_bit 1 c else drop_bit 1 c)"

definition crc_table :: "u32 list" where
  "crc_table = map (\<lambda>i. (crc_round ^^ 8) (of_nat i)) [0..<256]"

definition crc_step :: "u32 \<Rightarrow> u8 \<Rightarrow> u32" where
  "crc_step crc ch = crc_table ! unat ((crc XOR ucast ch) AND 0xFF) XOR drop_bit 8 crc"

definition crc32 :: "bytes \<Rightarrow> u32 \<Rightarrow> u32" where
  "crc32 data seed = foldl crc_step (seed XOR 0xFFFFFFFF) data XOR 0xFFFFFFFF"

definition crc32_combine :: "bytes list \<Rightarrow> u32" where
  "crc32_combine parts = foldl (\<lambda>crc p. crc32 p crc) 0 parts"

text \<open>
  The reference: the register is shifted bit by bit. The rounds are linear over exclusive or, which
  is what makes the table of the low byte sufficient.
\<close>

definition crc_step_bitwise :: "u32 \<Rightarrow> u8 \<Rightarrow> u32" where
  "crc_step_bitwise crc ch = (crc_round ^^ 8) (crc XOR ucast ch)"

lemma crc_round_alt: "crc_round c = (if bit c 0 then 0xEDB88320 else 0) XOR drop_bit 1 c"
proof -
  have "c AND 1 = (if bit c 0 then 1 else 0)"
    by (simp add: and_one_eq odd_iff_mod_2_eq_one bit_0)
  then show ?thesis by (simp add: crc_round_def)
qed

lemma crc_round_linear: "crc_round (a XOR b) = crc_round a XOR crc_round b"
  by (simp add: crc_round_alt bit_xor_iff ac_simps)

lemma crc_rounds_linear: "(crc_round ^^ n) (a XOR b) = (crc_round ^^ n) a XOR (crc_round ^^ n) b"
  by (induction n) (simp_all add: crc_round_linear)

lemma crc_rounds_shift: "\<forall>i < n. \<not> bit c i \<Longrightarrow> (crc_round ^^ n) c = drop_bit n c"
proof (induction n)
  case (Suc n)
  then have "\<not> bit (drop_bit n c) 0" by (simp add: bit_drop_bit_eq)
  with Suc show ?case by (simp add: crc_round_alt)
qed simp

lemma low_byte: "c AND 0xFF = take_bit 8 (c :: u32)"
  by (simp add: take_bit_eq_mask mask_numeral)

lemma crc_table_nth: "crc_table ! unat (take_bit 8 c) = (crc_round ^^ 8) (take_bit 8 c)"
proof -
  have "unat (take_bit 8 c) < 256"
    using take_bit_nat_less_exp [of 8 "unat c"] by (simp add: unsigned_take_bit_eq)
  then have "crc_table ! unat (take_bit 8 c) = (crc_round ^^ 8) (of_nat (unat (take_bit 8 c)))"
    by (simp only: crc_table_def length_upt diff_zero nth_map nth_upt add_0)
  then show ?thesis by (simp only: of_nat_unat ucast_id)
qed

lemma crc_step_eq_bitwise: "crc_step crc ch = crc_step_bitwise crc ch"
proof -
  let ?c = "crc XOR ucast ch"
  let ?high = "push_bit 8 (drop_bit 8 ?c)"
  have split: "?c = take_bit 8 ?c XOR ?high"
  proof (rule bit_word_eqI)
    fix n
    assume "n < LENGTH(32)"
    then show "bit ?c n = bit (take_bit 8 ?c XOR ?high) n"
      by (cases "n < 8") (auto simp: bit_simps)
  qed
  have "\<forall>i < 8. \<not> bit ?high i" by (auto simp: bit_simps)
  then have "(crc_round ^^ 8) ?high = drop_bit 8 ?high"
    by (rule crc_rounds_shift)
  also have "\<dots> = drop_bit 8 crc"
  proof (rule bit_word_eqI)
    fix n
    show "bit (drop_bit 8 ?high) n = bit (drop_bit 8 crc) n"
      using not_bit_high [of "8 + n" ch] not_bit_high [of "8 + n" crc]
      by (cases "n < 24") (simp_all add: bit_simps)
  qed
  finally have "(crc_round ^^ 8) (take_bit 8 ?c XOR ?high) =
      (crc_round ^^ 8) (take_bit 8 ?c) XOR drop_bit 8 crc"
    by (simp only: crc_rounds_linear)
  then show ?thesis
    unfolding crc_step_bitwise_def crc_step_def low_byte crc_table_nth
    by (simp only: split [symmetric])
qed

text \<open>
  The published check value, for the digits from one to nine in ASCII, fixes the polynomial, the
  initial register and the final complement.
\<close>

lemma eight_rounds: "(f ^^ 8) x = f (f (f (f (f (f (f (f x)))))))"
  by (simp add: eval_nat_numeral)

lemma crc_check_steps:
  "crc_step_bitwise 0xFFFFFFFF 49 = 0x7C231048" "crc_step_bitwise 0x7C231048 50 = 0xB0ACBB32"
  "crc_step_bitwise 0xB0ACBB32 51 = 0x77B79C2D" "crc_step_bitwise 0x77B79C2D 52 = 0x641C1F5C"
  "crc_step_bitwise 0x641C1F5C 53 = 0x340AC5E3" "crc_step_bitwise 0x340AC5E3 54 = 0xF68D2C9E"
  "crc_step_bitwise 0xF68D2C9E 55 = 0xAFFC9660" "crc_step_bitwise 0xAFFC9660 56 = 0x651F2550"
  "crc_step_bitwise 0x651F2550 57 = 0x340BC6D9"
  by (simp_all add: crc_step_bitwise_def eight_rounds crc_round_def)

lemma crc32_check_value: "crc32 [49, 50, 51, 52, 53, 54, 55, 56, 57] 0 = 0xCBF43926"
  by (simp add: crc32_def crc_step_eq_bitwise crc_check_steps)

text \<open>Running the checksum on from an earlier one is the checksum of the concatenation.\<close>

lemma crc32_append: "crc32 (a @ b) seed = crc32 b (crc32 a seed)"
  by (simp add: crc32_def)

lemma crc32_concat: "foldl (\<lambda>crc p. crc32 p crc) seed parts = crc32 (concat parts) seed"
  by (induction parts arbitrary: seed) (simp_all add: crc32_append, simp add: crc32_def)

text \<open>A step is injective in the register and in the byte, so one changed byte shows.\<close>

lemma crc_round_inject: "crc_round a = crc_round b \<longleftrightarrow> a = b"
proof
  assume eq: "crc_round a = crc_round b"
  have top: "bit (crc_round c) 31 \<longleftrightarrow> bit c 0" for c
    using bit_imp_le_length [of c 32] by (auto simp: crc_round_alt bit_simps)
  from eq top have low: "bit a 0 \<longleftrightarrow> bit b 0" by metis
  with eq have shifted: "drop_bit 1 a = drop_bit 1 b"
    by (simp add: crc_round_alt xor_left_inject)
  show "a = b"
  proof (rule bit_word_eqI)
    fix n
    show "bit a n = bit b n"
      using low arg_cong [where f = "\<lambda>w. bit w (n - 1)", OF shifted]
      by (cases n) (simp_all add: bit_drop_bit_eq)
  qed
qed simp

lemma crc_rounds_inject: "(crc_round ^^ n) a = (crc_round ^^ n) b \<longleftrightarrow> a = b"
  by (induction n) (simp_all add: crc_round_inject)

lemma crc_step_inject_register: "crc_step a ch = crc_step b ch \<longleftrightarrow> a = b"
  by (simp add: crc_step_eq_bitwise crc_step_bitwise_def crc_rounds_inject xor_right_inject)

lemma crc_step_inject_byte: "crc_step c x = crc_step c y \<longleftrightarrow> x = y"
  by (simp add: crc_step_eq_bitwise crc_step_bitwise_def crc_rounds_inject xor_left_inject
      ucast_u8_inject)

lemma crc_steps_inject: "foldl crc_step a data = foldl crc_step b data \<longleftrightarrow> a = b"
  by (induction data arbitrary: a b) (simp_all add: crc_step_inject_register)

lemma crc32_detects:
  assumes "i < length data" "b \<noteq> data ! i"
  shows "crc32 (data[i := b]) seed \<noteq> crc32 data seed"
proof -
  have "data = take i data @ data ! i # drop (Suc i) data"
    using assms(1) by (rule id_take_nth_drop)
  moreover have "data[i := b] = take i data @ b # drop (Suc i) data"
    using assms(1) by (rule upd_conv_take_nth_drop)
  moreover have "foldl crc_step c (xs @ b # ys) = foldl crc_step c (xs @ b' # ys) \<longleftrightarrow> b = b'"
    for c xs b b' ys
    by (simp add: crc_steps_inject crc_step_inject_byte)
  ultimately show ?thesis
    using assms(2) unfolding crc32_def xor_right_inject by metis
qed

section \<open>Frames\<close>

datatype MessageKind =
    HELLO | REGISTER_RUNTIME | REGISTER_SERVICE | REGISTER_ENDPOINT | REGISTER_CAPABILITY
  | UPDATE_HEALTH | UPDATE_READINESS | RENEW_LEASE | INVALIDATE | TOMBSTONE | QUERY | QUERY_RESULT
  | SAVE | RECOVER | ACK | ERROR

text \<open>The underlying values of the enumeration, and the cast to a byte.\<close>

definition message_kind_to_u8 :: "MessageKind \<Rightarrow> u8" where
  "message_kind_to_u8 k =
    (case k of HELLO \<Rightarrow> 1 | REGISTER_RUNTIME \<Rightarrow> 2 | REGISTER_SERVICE \<Rightarrow> 3 | REGISTER_ENDPOINT \<Rightarrow> 4
     | REGISTER_CAPABILITY \<Rightarrow> 5 | UPDATE_HEALTH \<Rightarrow> 6 | UPDATE_READINESS \<Rightarrow> 7 | RENEW_LEASE \<Rightarrow> 8
     | INVALIDATE \<Rightarrow> 9 | TOMBSTONE \<Rightarrow> 10 | QUERY \<Rightarrow> 11 | QUERY_RESULT \<Rightarrow> 12 | SAVE \<Rightarrow> 13
     | RECOVER \<Rightarrow> 14 | ACK \<Rightarrow> 15 | ERROR \<Rightarrow> 16)"

definition message_kind_from_u8 :: "u8 \<Rightarrow> MessageKind" where
  "message_kind_from_u8 v =
    (if v = 1 then HELLO else if v = 2 then REGISTER_RUNTIME else if v = 3 then REGISTER_SERVICE
     else if v = 4 then REGISTER_ENDPOINT else if v = 5 then REGISTER_CAPABILITY
     else if v = 6 then UPDATE_HEALTH else if v = 7 then UPDATE_READINESS
     else if v = 8 then RENEW_LEASE else if v = 9 then INVALIDATE else if v = 10 then TOMBSTONE
     else if v = 11 then QUERY else if v = 12 then QUERY_RESULT else if v = 13 then SAVE
     else if v = 14 then RECOVER else if v = 15 then ACK else if v = 16 then ERROR else ERROR)"

definition to_string_MessageKind :: "MessageKind \<Rightarrow> string" where
  "to_string_MessageKind k =
    (case k of HELLO \<Rightarrow> ''HELLO'' | REGISTER_RUNTIME \<Rightarrow> ''REGISTER_RUNTIME''
     | REGISTER_SERVICE \<Rightarrow> ''REGISTER_SERVICE'' | REGISTER_ENDPOINT \<Rightarrow> ''REGISTER_ENDPOINT''
     | REGISTER_CAPABILITY \<Rightarrow> ''REGISTER_CAPABILITY'' | UPDATE_HEALTH \<Rightarrow> ''UPDATE_HEALTH''
     | UPDATE_READINESS \<Rightarrow> ''UPDATE_READINESS'' | RENEW_LEASE \<Rightarrow> ''RENEW_LEASE''
     | INVALIDATE \<Rightarrow> ''INVALIDATE'' | TOMBSTONE \<Rightarrow> ''TOMBSTONE'' | QUERY \<Rightarrow> ''QUERY''
     | QUERY_RESULT \<Rightarrow> ''QUERY_RESULT'' | SAVE \<Rightarrow> ''SAVE'' | RECOVER \<Rightarrow> ''RECOVER'' | ACK \<Rightarrow> ''ACK''
     | ERROR \<Rightarrow> ''ERROR'')"

record Frame =
  fr_kind :: MessageKind
  fr_payload :: bytes

definition kFrameMagic :: u32 where "kFrameMagic = 0x52524631"
definition kFrameVersion :: u8 where "kFrameVersion = 1"
definition kMaxPayload :: u32 where "kMaxPayload = 64 * 1024"

text \<open>The empty list stands for the empty vector that an oversized payload gives.\<close>

definition encode_frame :: "Frame \<Rightarrow> bytes" where
  "encode_frame f =
    (let len = of_nat (length (fr_payload f)) :: u32
     in if len > kMaxPayload then []
        else
          let out = put_u32 kFrameMagic @ [kFrameVersion] @ [message_kind_to_u8 (fr_kind f)]
                @ put_u32 len @ fr_payload f
          in out @ put_u32 (crc32 (drop 4 out) 0))"

definition decode_frame :: "bytes option \<Rightarrow> Frame option" where
  "decode_frame buffer =
    (case buffer of
       None \<Rightarrow> None
     | Some data \<Rightarrow>
         if length data < 10 then None
         else if get_u32 data 0 \<noteq> kFrameMagic then None
         else if data ! 4 \<noteq> kFrameVersion then None
         else
           let kind = data ! 5
           in if kind < 1 \<or> kind > 16 then None
              else
                let len = get_u32 data 6
                in if len > kMaxPayload then None
                   else
                     let content_end = 10 + unat len;
                         total = content_end + 4
                     in if length data \<noteq> total then None
                        else
                          let stored_crc = get_u32 data content_end;
                              computed = crc32 (take (content_end - 4) (drop 4 data)) 0
                          in if stored_crc \<noteq> computed then None
                             else Some \<lparr>fr_kind = message_kind_from_u8 kind,
                                         fr_payload = take (unat len) (drop 10 data)\<rparr>)"

lemma message_kind_roundtrip [simp]:
  "message_kind_from_u8 (message_kind_to_u8 k) = k"
  "message_kind_to_u8 k \<noteq> 0" "\<not> message_kind_to_u8 k > 16"
  by (cases k; simp add: message_kind_to_u8_def message_kind_from_u8_def word_less_nat_alt)+

text \<open>The parts of a frame that passes all checks.\<close>

definition frame_layout :: "MessageKind \<Rightarrow> bytes \<Rightarrow> u32 \<Rightarrow> bytes" where
  "frame_layout k payload crc =
    put_u32 kFrameMagic @ kFrameVersion # message_kind_to_u8 k
      # put_u32 (of_nat (length payload)) @ payload @ put_u32 crc"

definition frame_content :: "MessageKind \<Rightarrow> bytes \<Rightarrow> bytes" where
  "frame_content k payload =
    kFrameVersion # message_kind_to_u8 k # put_u32 (of_nat (length payload)) @ payload"

lemma encode_frame_layout:
  assumes "length (fr_payload f) \<le> unat kMaxPayload"
  shows "encode_frame f = frame_layout (fr_kind f) (fr_payload f)
    (crc32 (frame_content (fr_kind f) (fr_payload f)) 0)"
proof -
  have "unat (of_nat (length (fr_payload f)) :: u32) = length (fr_payload f)"
    using assms by (simp add: unsigned_of_nat take_bit_nat_eq_self kMaxPayload_def)
  then have "\<not> (of_nat (length (fr_payload f)) :: u32) > kMaxPayload"
    using assms by (simp add: word_less_nat_alt)
  then show ?thesis
    by (simp add: encode_frame_def frame_layout_def frame_content_def Let_def)
qed

lemma length_frame_layout [simp]:
  "length (frame_layout k payload crc) = 14 + length payload"
  by (simp add: frame_layout_def)

lemma layout_content:
  "frame_layout k payload crc = put_u32 kFrameMagic @ frame_content k payload @ put_u32 crc"
  by (simp add: frame_layout_def frame_content_def)

text \<open>Decoding an encoded frame gives the frame back.\<close>

lemma decode_layout:
  assumes "length payload \<le> unat kMaxPayload"
  shows "decode_frame (Some (frame_layout k payload crc)) =
    (if crc = crc32 (frame_content k payload) 0
     then Some \<lparr>fr_kind = k, fr_payload = payload\<rparr> else None)"
proof -
  define data where "data = frame_layout k payload crc"
  let ?len = "of_nat (length payload) :: u32"
  have len: "unat ?len = length payload"
    using assms by (simp add: unsigned_of_nat take_bit_nat_eq_self kMaxPayload_def)
  have length_data: "length data = 14 + length payload" by (simp add: data_def)
  have magic: "get_u32 data 0 = kFrameMagic"
    using get_u32_at [of "[]"] by (simp add: data_def frame_layout_def)
  have header: "data ! 4 = kFrameVersion" "data ! 5 = message_kind_to_u8 k"
    by (simp_all add: data_def frame_layout_def put_u32_def)
  have "data = (put_u32 kFrameMagic @ [kFrameVersion, message_kind_to_u8 k]) @ put_u32 ?len
      @ (payload @ put_u32 crc)"
    by (simp add: data_def frame_layout_def)
  from arg_cong [where f = "\<lambda>d. get_u32 d 6", OF this] have size: "get_u32 data 6 = ?len"
    using get_u32_at [of "put_u32 kFrameMagic @ [kFrameVersion, message_kind_to_u8 k]"] by simp
  have "data = (put_u32 kFrameMagic @ kFrameVersion # message_kind_to_u8 k # put_u32 ?len @ payload)
      @ put_u32 crc @ []"
    by (simp add: data_def frame_layout_def)
  from arg_cong [where f = "\<lambda>d. get_u32 d (10 + length payload)", OF this]
  have stored: "get_u32 data (10 + length payload) = crc"
    using get_u32_at [of "put_u32 kFrameMagic @ kFrameVersion # message_kind_to_u8 k # put_u32 ?len
        @ payload" crc "[]"] by simp
  have content: "take (6 + length payload) (drop 4 data) = frame_content k payload"
    by (simp add: data_def layout_content) (simp add: frame_content_def)
  have rest: "take (length payload) (drop 10 data) = payload"
    by (simp add: data_def frame_layout_def)
  have "\<not> ?len > kMaxPayload"
    using assms len by (simp add: word_less_nat_alt)
  then have "decode_frame (Some data) =
      (if crc = crc32 (frame_content k payload) 0
       then Some \<lparr>fr_kind = k, fr_payload = payload\<rparr> else None)"
    by (simp add: decode_frame_def magic header size len stored content rest len Let_def
        length_data)
  then show ?thesis by (simp add: data_def)
qed

text \<open>Only encoded frames decode: the format has one encoding per frame.\<close>

lemma message_kind_from_u8_inverse:
  assumes "\<not> v < 1" "\<not> v > (16 :: u8)"
  shows "message_kind_to_u8 (message_kind_from_u8 v) = v"
proof -
  have "unat v \<in> {1..16}"
    using assms by (simp add: word_less_nat_alt not_less)
  then have "unat v \<in> set [1..<17]" by auto
  then have "v \<in> set (map of_nat [1..<17])"
    by (metis image_eqI list.set_map of_nat_unat ucast_id)
  then show ?thesis
    by (auto simp: upt_rec message_kind_to_u8_def message_kind_from_u8_def)
qed

lemma decode_is_layout:
  assumes "decode_frame (Some data) = Some f"
  shows "length (fr_payload f) \<le> unat kMaxPayload
    \<and> data = frame_layout (fr_kind f) (fr_payload f)
        (crc32 (frame_content (fr_kind f) (fr_payload f)) 0)"
proof -
  define len where "len = get_u32 data 6"
  define payload where "payload = take (unat len) (drop 10 data)"
  have checks: "get_u32 data 0 = kFrameMagic" "data ! 4 = kFrameVersion"
      "\<not> data ! 5 < 1" "\<not> data ! 5 > 16" "\<not> len > kMaxPayload" "length data = 14 + unat len"
    and f: "f = \<lparr>fr_kind = message_kind_from_u8 (data ! 5), fr_payload = payload\<rparr>"
    using assms by (auto simp: decode_frame_def Let_def len_def payload_def split: if_splits)
  have length: "length payload = unat len" using checks(6) by (simp add: payload_def)
  have "put_u32 kFrameMagic = take 4 data"
    using put_u32_at [of 0 data] checks(1,6) by simp
  moreover have "put_u32 (of_nat (length payload)) = take 4 (drop 6 data)"
    using put_u32_at [of 6 data] checks(6) by (simp add: length len_def)
  moreover have "put_u32 (get_u32 data (10 + unat len)) = drop (10 + unat len) data"
    using put_u32_at [of "10 + unat len" data] checks(6) by simp
  moreover have "data = take 4 data @ data ! 4 # data ! 5 # take 4 (drop 6 data) @ payload
      @ drop (10 + unat len) data"
  proof -
    have "drop 4 data = data ! 4 # drop 5 data" "drop 5 data = data ! 5 # drop 6 data"
      using Cons_nth_drop_Suc [of 4 data] Cons_nth_drop_Suc [of 5 data] checks(6)
      by (simp_all add: eval_nat_numeral)
    moreover have "drop 6 data = take 4 (drop 6 data) @ drop 10 data"
      using append_take_drop_id [of 4 "drop 6 data"] by simp
    moreover have "drop 10 data = payload @ drop (10 + unat len) data"
      using append_take_drop_id [of "unat len" "drop 10 data"] by (simp add: payload_def add.commute)
    ultimately show ?thesis by (metis append_Cons append_take_drop_id)
  qed
  ultimately have "data = frame_layout (fr_kind f) (fr_payload f) (get_u32 data (10 + unat len))"
    using checks(2) message_kind_from_u8_inverse [OF checks(3,4)]
    by (simp only: f frame_layout_def Frame.simps)
  then obtain crc where layout: "data = frame_layout (fr_kind f) (fr_payload f) crc" by blast
  have "length (fr_payload f) \<le> unat kMaxPayload"
    using checks(5) by (simp add: f length not_less word_le_nat_alt)
  then show ?thesis
    using decode_layout [of "fr_payload f" "fr_kind f" crc] assms
    unfolding layout by (simp split: if_splits)
qed

lemma decode_iff:
  "decode_frame (Some data) = Some f \<longleftrightarrow>
    length (fr_payload f) \<le> unat kMaxPayload \<and> data = encode_frame f"
proof
  assume "decode_frame (Some data) = Some f"
  then show "length (fr_payload f) \<le> unat kMaxPayload \<and> data = encode_frame f"
    using decode_is_layout encode_frame_layout by metis
next
  assume "length (fr_payload f) \<le> unat kMaxPayload \<and> data = encode_frame f"
  then show "decode_frame (Some data) = Some f"
    by (simp add: encode_frame_layout decode_layout)
qed

text \<open>A single changed byte anywhere in a frame is noticed.\<close>

lemma list_update_same: "xs[i := b] = xs \<longleftrightarrow> i < length xs \<longrightarrow> b = xs ! i"
  by (metis list_update_beyond list_update_id not_le nth_list_update_eq)

lemma corruption_detected:
  assumes f: "length (fr_payload f) \<le> unat kMaxPayload"
    and i: "i < length (encode_frame f)" and b: "b \<noteq> encode_frame f ! i"
  shows "decode_frame (Some ((encode_frame f)[i := b])) = None"
proof (rule ccontr)
  assume "decode_frame (Some ((encode_frame f)[i := b])) \<noteq> None"
  then obtain g where "decode_frame (Some ((encode_frame f)[i := b])) = Some g" by blast
  then have g: "(encode_frame f)[i := b] = encode_frame g"
    "length (fr_payload g) \<le> unat kMaxPayload"
    by (simp_all add: decode_iff)
  let ?cf = "frame_content (fr_kind f) (fr_payload f)"
  let ?cg = "frame_content (fr_kind g) (fr_payload g)"
  have layout: "encode_frame f = put_u32 kFrameMagic @ ?cf @ put_u32 (crc32 ?cf 0)"
    "encode_frame g = put_u32 kFrameMagic @ ?cg @ put_u32 (crc32 ?cg 0)"
    using f g(2) by (simp_all add: encode_frame_layout layout_content)
  have same: "length ?cg = length ?cf"
    using arg_cong [where f = length, OF g(1)] by (simp add: layout)
  show False
  proof (cases "4 \<le> i \<and> i < 4 + length ?cf")
    case True
    then have inside: "i - 4 < length ?cf" by linarith
    then have "?cg = ?cf[i - 4 := b] \<and> put_u32 (crc32 ?cg 0) = put_u32 (crc32 ?cf 0)"
      using g(1) same True by (auto simp: layout list_update_append)
    moreover have "crc32 (?cf[i - 4 := b]) 0 \<noteq> crc32 ?cf 0"
      using True b inside by (intro crc32_detects) (simp_all add: layout nth_append)
    ultimately show False using get_u32_of_put by metis
  next
    case False
    then have "?cg = ?cf"
      using g(1) same by (auto simp: layout list_update_append split: if_splits)
    then have "(encode_frame f)[i := b] = encode_frame f" using g(1) layout by metis
    then show False using i b by (simp add: list_update_same)
  qed
qed

end
