(* ===== verification/RR_Codec.thy ===== *)
theory RR_Codec
  imports RR_Wire RR_Model "HOL-Library.State_Monad"
begin

text \<open>
  The primitive readers and writers of the persistent form (\<^verbatim>\<open>persistence.cpp\<close>):
  little-endian integers, strings, enumerations, vectors with a cap, versions, provenance and the
  recursive capability values. The struct \<^verbatim>\<open>R\<close> of the code is a cursor over a
  buffer; a cursor is its unread bytes and the flag that a read has failed, and a
  \<^verbatim>\<open>get\<close> function of the code is a state transformer on cursors.

  An enumeration byte is cast without a check, so a file can put a value into a record that is no
  enumerator. Such a record has no counterpart in the model: the reader raises \<open>rd_wild\<close>, and
  loading is only described for files that do not.

  The locale \<open>codec\<close> is the contract between a writer and its reader, interpreted once for
  every type that is persisted.
\<close>

unbundle bit_operations_syntax

named_theorems codec_simps \<open>what a reader does on the bytes its writer has put\<close>

section \<open>Cursors\<close>

record Reader =
  rd_rest :: bytes
  rd_ok :: bool
  rd_wild :: bool

type_synonym 'a reader = "(Reader, 'a) state"

definition reader :: "bytes \<Rightarrow> Reader" where
  "reader data = \<lparr>rd_rest = data, rd_ok = True, rd_wild = False\<rparr>"

definition rd_fail :: "unit reader" where
  "rd_fail = State (\<lambda>r. ((), r\<lparr>rd_ok := False\<rparr>))"

definition rd_good :: "bool reader" where
  "rd_good = State (\<lambda>r. (rd_ok r, r))"

definition rd_u8 :: "u8 reader" where
  "rd_u8 = State (\<lambda>r.
    case rd_rest r of [] \<Rightarrow> (0, r\<lparr>rd_ok := False\<rparr>) | b # bs \<Rightarrow> (b, r\<lparr>rd_rest := bs\<rparr>))"

definition rd_u32 :: "u32 reader" where
  "rd_u32 = State (\<lambda>r.
    if length (rd_rest r) < 4 then (0, r\<lparr>rd_ok := False\<rparr>)
    else (get_u32 (rd_rest r) 0, r\<lparr>rd_rest := drop 4 (rd_rest r)\<rparr>))"

definition rd_u64 :: "u64 reader" where
  "rd_u64 = do {
     lo \<leftarrow> rd_u32;
     hi \<leftarrow> rd_u32;
     State_Monad.return (ucast lo OR push_bit 32 (ucast hi))
   }"

text \<open>A double is its bit pattern, which \<^verbatim>\<open>memcpy\<close> moves unchanged.\<close>

definition rd_f64 :: "f64 reader" where
  "rd_f64 = do {bits \<leftarrow> rd_u64; State_Monad.return bits}"

definition char_of_byte :: "u8 \<Rightarrow> char" where
  "char_of_byte b = char_of (unat b)"

definition byte_of_char :: "char \<Rightarrow> u8" where
  "byte_of_char c = of_nat (of_char c)"

definition max_string :: nat where "max_string = 2 ^ 24"

definition rd_str :: "string reader" where
  "rd_str = do {
     len \<leftarrow> rd_u32;
     State (\<lambda>r.
       if \<not> rd_ok r \<or> length (rd_rest r) < unat len \<or> unat len > max_string
       then ([], r\<lparr>rd_ok := False\<rparr>)
       else (map char_of_byte (take (unat len) (rd_rest r)),
             r\<lparr>rd_rest := drop (unat len) (rd_rest r)\<rparr>))
   }"

section \<open>Writers\<close>

definition put_u8 :: "u8 \<Rightarrow> bytes" where
  "put_u8 v = [v]"

definition put_u64 :: "u64 \<Rightarrow> bytes" where
  "put_u64 v = put_u32 (ucast (v AND 0xFFFFFFFF)) @ put_u32 (ucast (drop_bit 32 v))"

definition put_f64 :: "f64 \<Rightarrow> bytes" where
  "put_f64 d = put_u64 d"

definition put_str :: "string \<Rightarrow> bytes" where
  "put_str s = put_u32 (of_nat (length s)) @ map byte_of_char s"

definition put_id :: "u64 \<Rightarrow> bytes" where
  "put_id v = put_u64 v"

definition get_id :: "u64 reader" where
  "get_id = rd_u64"

text \<open>The typed wrappers around an identifier: \<^verbatim>\<open>put_id(b, x.value())\<close> and
  \<^verbatim>\<open>ServiceId(get_id(r))\<close>.\<close>

definition put_Id :: "'tag Id \<Rightarrow> bytes" where
  "put_Id i = put_id (id_value i)"

definition get_Id :: "'tag Id reader" where
  "get_Id = do {v \<leftarrow> get_id; State_Monad.return (MkId v)}"

definition put_Gen :: "'tag Gen \<Rightarrow> bytes" where
  "put_Gen g = put_id (gen_value g)"

definition get_Gen :: "'tag Gen reader" where
  "get_Gen = do {v \<leftarrow> get_id; State_Monad.return (MkGen v)}"

section \<open>Enumerations\<close>

text \<open>An enumerator is written as its position in the declaration.\<close>

definition enum_code :: "'e list \<Rightarrow> 'e \<Rightarrow> u8" where
  "enum_code es e = of_nat (length (takeWhile (\<lambda>x. x \<noteq> e) es))"

definition put_enum :: "'e list \<Rightarrow> 'e \<Rightarrow> bytes" where
  "put_enum es e = put_u8 (enum_code es e)"

definition get_enum :: "'e list \<Rightarrow> 'e reader" where
  "get_enum es = do {
     b \<leftarrow> rd_u8;
     if unat b < length es then State_Monad.return (es ! unat b)
     else State (\<lambda>r. (last es, r\<lparr>rd_wild := True\<rparr>))
   }"

definition enum_Health :: "Health list" where
  "enum_Health = [Health.HEALTHY, Health.DEGRADED, Health.UNHEALTHY, Health.UNAVAILABLE,
     Health.UNKNOWN]"

definition enum_Readiness :: "Readiness list" where
  "enum_Readiness = [Readiness.READY, Readiness.PARTIALLY_READY, Readiness.NOT_READY,
     Readiness.DRAINING, Readiness.REVALIDATION_REQUIRED, Readiness.UNKNOWN]"

definition enum_Freshness :: "Freshness list" where
  "enum_Freshness = [Freshness.CURRENT, Freshness.STALE, Freshness.REVALIDATION_REQUIRED,
     Freshness.UNKNOWN]"

definition enum_Reachability :: "Reachability list" where
  "enum_Reachability = [Reachability.REACHABLE, Reachability.DEGRADED, Reachability.UNREACHABLE,
     Reachability.REVALIDATION_REQUIRED, Reachability.UNKNOWN]"

definition enum_Lifecycle :: "Lifecycle list" where
  "enum_Lifecycle = [Lifecycle.REGISTERING, Lifecycle.AVAILABLE, Lifecycle.DEGRADED,
     Lifecycle.DRAINING, Lifecycle.UNREADY, Lifecycle.STALE, Lifecycle.UNREACHABLE,
     Lifecycle.INVALIDATED, Lifecycle.SUPERSEDED, Lifecycle.TOMBSTONED, Lifecycle.RETIRED,
     Lifecycle.FAILED]"

definition enum_ServiceKind :: "ServiceKind list" where
  "enum_ServiceKind = [ServiceKind.SCHEDULER, ServiceKind.CACHE_DIRECTORY,
     ServiceKind.STATE_INDEX, ServiceKind.STORAGE_SERVICE, ServiceKind.CHECKPOINT_SERVICE,
     ServiceKind.RESOURCE_BROKER, ServiceKind.HEALTH_AGENT, ServiceKind.FLEET_AGENT,
     ServiceKind.COMPILER_SERVICE, ServiceKind.MODEL_SERVER, ServiceKind.TRANSFER_SERVICE,
     ServiceKind.COLLECTIVE_SERVICE, ServiceKind.OBSERVABILITY_SERVICE,
     ServiceKind.REGISTRY_SERVICE, ServiceKind.EXECUTION_SERVICE,
     ServiceKind.GENERIC_RUNTIME_SERVICE, ServiceKind.UNKNOWN]"

definition enum_RuntimeKind :: "RuntimeKind list" where
  "enum_RuntimeKind = [RuntimeKind.NATIVE_CPP, RuntimeKind.CUDA_RUNTIME, RuntimeKind.CUDA_DRIVER,
     RuntimeKind.CUSTOM_ACCELERATOR_RUNTIME, RuntimeKind.MODEL_RUNTIME,
     RuntimeKind.SERVING_RUNTIME, RuntimeKind.STORAGE_RUNTIME, RuntimeKind.NETWORK_RUNTIME,
     RuntimeKind.COMPILATION_RUNTIME, RuntimeKind.SYNTHETIC_RUNTIME, RuntimeKind.UNKNOWN]"

definition enum_TransportKind :: "TransportKind list" where
  "enum_TransportKind = [TransportKind.TCP, TransportKind.LOCAL_IPC, TransportKind.SHARED_MEMORY,
     TransportKind.IN_PROCESS, TransportKind.SYNTHETIC_REMOTE, TransportKind.UNKNOWN]"

definition enum_BackendKind :: "BackendKind list" where
  "enum_BackendKind = [BackendKind.CUDA, BackendKind.CPU, BackendKind.LOCAL_FILESYSTEM,
     BackendKind.TCP, BackendKind.SYNTHETIC_REMOTE, BackendKind.CUSTOM, BackendKind.UNKNOWN]"

definition enum_CapabilityKind :: "CapabilityKind list" where
  "enum_CapabilityKind = [CapabilityKind.CUDA_AVAILABLE, CapabilityKind.CUDA_COMPUTE_CAPABILITY,
     CapabilityKind.CUDA_ARCHITECTURE, CapabilityKind.CUDA_MEMORY,
     CapabilityKind.HOST_PINNED_MEMORY, CapabilityKind.LOCAL_FILESYSTEM,
     CapabilityKind.LOCAL_STORAGE, CapabilityKind.TCP_TRANSPORT, CapabilityKind.FRAMED_PROTOCOL,
     CapabilityKind.MULTIPROCESS, CapabilityKind.COMPILATION, CapabilityKind.PERSISTENCE,
     CapabilityKind.CHECKPOINTING, CapabilityKind.COLLECTIVES, CapabilityKind.REMOTE_ACCESS_CLASS,
     CapabilityKind.HEALTH_REPORTING, CapabilityKind.POWER_TELEMETRY,
     CapabilityKind.GENERIC_FEATURE, CapabilityKind.UNKNOWN]"

definition enum_CompatibilityOutcome :: "CompatibilityOutcome list" where
  "enum_CompatibilityOutcome = [CompatibilityOutcome.COMPATIBLE,
     CompatibilityOutcome.COMPATIBLE_WITH_DOWNGRADE, CompatibilityOutcome.INCOMPATIBLE,
     CompatibilityOutcome.UNKNOWN]"

definition enum_LeaseState :: "LeaseState list" where
  "enum_LeaseState = [LeaseState.ACTIVE, LeaseState.EXPIRED, LeaseState.REVOKED,
     LeaseState.REVALIDATION_REQUIRED, LeaseState.UNKNOWN]"

definition enum_EndpointSecurity :: "EndpointSecurity list" where
  "enum_EndpointSecurity = [EndpointSecurity.NONE, EndpointSecurity.PLAINTEXT,
     EndpointSecurity.UNKNOWN]"

definition enum_LeaseRenewalPolicy :: "LeaseRenewalPolicy list" where
  "enum_LeaseRenewalPolicy = [LeaseRenewalPolicy.FIXED, LeaseRenewalPolicy.SESSION,
     LeaseRenewalPolicy.CONNECTION, LeaseRenewalPolicy.BOOT, LeaseRenewalPolicy.MANUAL,
     LeaseRenewalPolicy.UNKNOWN]"

definition enum_EvidenceKind :: "EvidenceKind list" where
  "enum_EvidenceKind = [EvidenceKind.MEASURED, EvidenceKind.REPORTED, EvidenceKind.DERIVED,
     EvidenceKind.SYNTHETIC, EvidenceKind.UNKNOWN]"

definition enum_CapabilityValueKind :: "CapabilityValueKind list" where
  "enum_CapabilityValueKind = [CapabilityValueKind.BOOLEAN, CapabilityValueKind.INTEGER,
     CapabilityValueKind.REAL, CapabilityValueKind.RANGE, CapabilityValueKind.STRING,
     CapabilityValueKind.STRUCTURED, CapabilityValueKind.UNKNOWN]"

section \<open>Vectors\<close>

text \<open>
  A vector is its length and its elements. The reader stops after a failed read, and reads nothing
  when the length is over the cap.
\<close>

definition put_vec :: "('a \<Rightarrow> bytes) \<Rightarrow> 'a list \<Rightarrow> bytes" where
  "put_vec put xs = put_u32 (of_nat (length xs)) @ concat (map put xs)"

fun rd_while_good :: "nat \<Rightarrow> 'a reader \<Rightarrow> 'a list reader" where
  "rd_while_good 0 get = State_Monad.return []"
| "rd_while_good (Suc n) get = do {
     good \<leftarrow> rd_good;
     if good then do {
       x \<leftarrow> get;
       xs \<leftarrow> rd_while_good n get;
       State_Monad.return (x # xs)
     } else State_Monad.return []
   }"

definition get_vec :: "nat \<Rightarrow> 'a reader \<Rightarrow> 'a list reader" where
  "get_vec cap get = do {
     n \<leftarrow> rd_u32;
     (if unat n > cap then rd_fail else State_Monad.return ());
     rd_while_good (unat n) get
   }"

section \<open>Versions and provenance\<close>

definition put_version :: "SemanticVersion \<Rightarrow> bytes" where
  "put_version v = put_u64 (sv_major v) @ put_u64 (sv_minor v) @ put_u64 (sv_patch v)
     @ put_str (sv_prerelease v) @ put_str (sv_build v)"

definition get_version :: "SemanticVersion reader" where
  "get_version = do {
     major \<leftarrow> rd_u64; minor \<leftarrow> rd_u64; patch \<leftarrow> rd_u64; prerelease \<leftarrow> rd_str; build \<leftarrow> rd_str;
     State_Monad.return \<lparr>sv_major = major, sv_minor = minor, sv_patch = patch,
       sv_prerelease = prerelease, sv_build = build\<rparr>
   }"

definition put_sv :: "'tag StructuredVersion \<Rightarrow> bytes" where
  "put_sv v = put_u64 (ver_major v) @ put_u64 (ver_minor v) @ put_u64 (ver_patch v)"

definition get_sv :: "'tag StructuredVersion reader" where
  "get_sv = do {
     a \<leftarrow> rd_u64; b \<leftarrow> rd_u64; c \<leftarrow> rd_u64;
     State_Monad.return (StructuredVersion a b c)
   }"

definition put_prov :: "Provenance \<Rightarrow> bytes" where
  "put_prov p = put_enum enum_EvidenceKind (pv_kind p) @ put_str (pv_source p)
     @ put_u64 (pv_timestamp_ms p) @ put_str (pv_digest p)"

definition get_prov :: "Provenance reader" where
  "get_prov = do {
     kind \<leftarrow> get_enum enum_EvidenceKind; source \<leftarrow> rd_str; timestamp \<leftarrow> rd_u64; digest \<leftarrow> rd_str;
     State_Monad.return \<lparr>pv_kind = kind, pv_source = source, pv_timestamp_ms = timestamp,
       pv_digest = digest\<rparr>
   }"

section \<open>Capability values\<close>

fun put_capval :: "CapabilityValue \<Rightarrow> bytes"
  and put_structured :: "(string \<times> CapabilityValue) list \<Rightarrow> bytes"
where
  "put_capval (CapabilityValue kind boolean integer real str has_min has_max range_min range_max structured) =
     put_enum enum_CapabilityValueKind kind @ put_u8 (if boolean then 1 else 0) @ put_u64 integer
     @ put_f64 real @ put_u8 (if has_min then 1 else 0) @ put_u8 (if has_max then 1 else 0)
     @ put_f64 range_min @ put_f64 range_max @ put_str str
     @ put_u32 (of_nat (length structured)) @ put_structured structured"
| "put_structured [] = []"
| "put_structured ((k, v) # rest) = put_str k @ put_capval v @ put_structured rest"

text \<open>
  The reader of a value calls itself for the members of a structured value, and this loop does not
  look at the flag. \<open>get_capval_body\<close> is the body of the function with the recursive call as a
  parameter; each level consumes at least its own length field, so as many levels as there are
  bytes left are enough.
\<close>

fun rd_times :: "nat \<Rightarrow> 'a reader \<Rightarrow> 'a list reader" where
  "rd_times 0 get = State_Monad.return []"
| "rd_times (Suc n) get = do {
     x \<leftarrow> get;
     xs \<leftarrow> rd_times n get;
     State_Monad.return (x # xs)
   }"

definition get_capval_body :: "CapabilityValue reader \<Rightarrow> CapabilityValue reader" where
  "get_capval_body rec = do {
     kind \<leftarrow> get_enum enum_CapabilityValueKind;
     boolean \<leftarrow> rd_u8; integer \<leftarrow> rd_u64; real \<leftarrow> rd_f64; has_min \<leftarrow> rd_u8; has_max \<leftarrow> rd_u8;
     range_min \<leftarrow> rd_f64; range_max \<leftarrow> rd_f64; str \<leftarrow> rd_str;
     len \<leftarrow> rd_u32;
     if unat len > 4096 then do {
       rd_fail;
       State_Monad.return (CapabilityValue kind (boolean \<noteq> 0) integer real str (has_min \<noteq> 0)
         (has_max \<noteq> 0) range_min range_max [])
     } else do {
       structured \<leftarrow> rd_times (unat len) (do {
         k \<leftarrow> rd_str;
         v \<leftarrow> rec;
         State_Monad.return (k, v)
       });
       State_Monad.return (CapabilityValue kind (boolean \<noteq> 0) integer real str (has_min \<noteq> 0)
         (has_max \<noteq> 0) range_min range_max structured)
     }
   }"

fun get_capval_depth :: "nat \<Rightarrow> CapabilityValue reader" where
  "get_capval_depth 0 = State (\<lambda>r. (default_CapabilityValue, r\<lparr>rd_ok := False\<rparr>))"
| "get_capval_depth (Suc n) = get_capval_body (get_capval_depth n)"

definition get_capval :: "CapabilityValue reader" where
  "get_capval = State (\<lambda>r. run_state (get_capval_depth (Suc (length (rd_rest r)))) r)"

section \<open>The contract of a writer and its reader\<close>

locale codec =
  fixes put :: "'a \<Rightarrow> bytes" and get :: "'a reader" and ok :: "'a \<Rightarrow> bool"
  assumes get_put: "ok x \<Longrightarrow> run_state get (reader (put x @ rest)) = (x, reader rest)"
begin

lemma prefix_free:
  assumes "ok x" "ok y" "put x @ rest = put y @ rest'"
  shows "x = y \<and> rest = rest'"
proof -
  have "(x, reader rest) = (y, reader rest')"
    using get_put [OF assms(1), of rest] get_put [OF assms(2), of rest'] assms(3) by simp
  then show ?thesis by (simp add: reader_def)
qed

lemma while_good:
  "list_all ok xs \<Longrightarrow>
    run_state (rd_while_good (length xs) get) (reader (concat (map put xs) @ rest)) =
      (xs, reader rest)"
proof (induction xs)
  case (Cons x xs)
  have good: "run_state rd_good (reader data) = (True, reader data)" for data
    by (simp add: rd_good_def reader_def)
  from Cons show ?case by (simp add: good get_put)
qed simp

lemma get_put_vec:
  assumes "list_all ok xs" "length xs \<le> cap" "cap < 2 ^ 32"
    and u32: "\<And>v rest. run_state rd_u32 (reader (put_u32 v @ rest)) = (v, reader rest)"
  shows "run_state (get_vec cap get) (reader (put_vec put xs @ rest)) = (xs, reader rest)"
proof -
  have "unat (of_nat (length xs) :: u32) = length xs"
    using assms(2,3) by (simp add: unsigned_of_nat take_bit_nat_eq_self)
  then show ?thesis
    using assms(2) while_good [OF assms(1)] by (simp add: get_vec_def put_vec_def u32)
qed

end

lemma takeWhile_before: "x \<in> set xs \<Longrightarrow> length (takeWhile (\<lambda>y. y \<noteq> x) xs) < length xs"
  by (induction xs) auto

locale byte_enum =
  fixes es :: "'e list"
  assumes complete: "e \<in> set es" and small: "length es \<le> 256"
begin

lemma enum_code: "unat (enum_code es e) < length es" "es ! unat (enum_code es e) = e"
proof -
  let ?i = "length (takeWhile (\<lambda>x. x \<noteq> e) es)"
  have i: "?i < length es"
    using complete [of e] by (rule takeWhile_before)
  moreover have "es ! ?i = e" using nth_length_takeWhile [OF i] by simp
  moreover have "unat (of_nat ?i :: u8) = ?i"
    using i small by (simp add: unsigned_of_nat take_bit_nat_eq_self)
  ultimately show "unat (enum_code es e) < length es" "es ! unat (enum_code es e) = e"
    by (simp_all add: enum_code_def)
qed

lemma get_put_enum:
  "run_state (get_enum es) (reader (put_enum es e @ rest)) = (e, reader rest)"
  by (simp add: get_enum_def put_enum_def put_u8_def rd_u8_def reader_def enum_code)

end

sublocale byte_enum \<subseteq> codec "put_enum es" "get_enum es" "\<lambda>_. True"
  by unfold_locales (rule get_put_enum)

section \<open>Primitive values\<close>

lemma get_put_u8 [codec_simps]:
  "run_state rd_u8 (reader (put_u8 v @ rest)) = (v, reader rest)"
  by (simp add: rd_u8_def put_u8_def reader_def)

lemma get_put_u32 [codec_simps]:
  "run_state rd_u32 (reader (put_u32 v @ rest)) = (v, reader rest)"
  using get_u32_at [of "[]" v rest] by (simp add: rd_u32_def reader_def)

lemma split_u64: "ucast (ucast v :: u32) OR push_bit 32 (ucast (ucast (drop_bit 32 v) :: u32)) = v"
  for v :: u64
proof (rule bit_word_eqI)
  fix n
  assume "n < LENGTH(64)"
  then show "bit (ucast (ucast v :: u32) OR push_bit 32 (ucast (ucast (drop_bit 32 v) :: u32))
      :: u64) n = bit v n"
    by (cases "n < 32") (auto simp: bit_simps)
qed

lemma low_half: "ucast (v AND 0xFFFFFFFF) = (ucast v :: u32)" for v :: u64
proof -
  have "v AND 0xFFFFFFFF = take_bit 32 v" by (simp add: take_bit_eq_mask mask_numeral)
  moreover have "ucast (take_bit 32 v) = (ucast v :: u32)"
    by (rule bit_word_eqI) (auto simp: bit_simps)
  ultimately show ?thesis by metis
qed

lemma get_put_u64 [codec_simps]:
  "run_state rd_u64 (reader (put_u64 v @ rest)) = (v, reader rest)"
  using split_u64 [of v] by (simp add: rd_u64_def put_u64_def low_half codec_simps)

lemma get_put_f64 [codec_simps]:
  "run_state rd_f64 (reader (put_f64 v @ rest)) = (v, reader rest)"
  by (simp add: rd_f64_def put_f64_def codec_simps)

lemma get_put_id [codec_simps]:
  "run_state get_id (reader (put_id v @ rest)) = (v, reader rest)"
  by (simp add: get_id_def put_id_def codec_simps)

lemma get_put_Id [codec_simps]:
  "run_state get_Id (reader (put_Id v @ rest)) = (v, reader rest)"
  by (simp add: get_Id_def put_Id_def codec_simps)

lemma get_put_Gen [codec_simps]:
  "run_state get_Gen (reader (put_Gen v @ rest)) = (v, reader rest)"
  by (simp add: get_Gen_def put_Gen_def codec_simps)

lemma char_byte [simp]: "char_of_byte (byte_of_char c) = c"
proof -
  have "unat (of_nat (of_char c) :: u8) = of_char c"
    by (simp add: unsigned_of_nat take_bit_nat_eq_self)
  then show ?thesis by (simp add: char_of_byte_def byte_of_char_def)
qed

definition str_ok :: "string \<Rightarrow> bool" where
  "str_ok s \<longleftrightarrow> length s \<le> max_string"

lemma get_put_str [codec_simps]:
  assumes "str_ok s"
  shows "run_state rd_str (reader (put_str s @ rest)) = (s, reader rest)"
proof -
  have "unat (of_nat (length s) :: u32) = length s"
    using assms by (simp add: str_ok_def max_string_def unsigned_of_nat take_bit_nat_eq_self)
  moreover have "map (char_of_byte \<circ> byte_of_char) s = s"
    by (simp add: comp_def)
  ultimately show ?thesis
    using assms get_put_u32
    by (simp add: rd_str_def put_str_def str_ok_def) (simp add: reader_def)
qed

interpretation ids: codec "put_Id :: 'tag Id \<Rightarrow> bytes" get_Id "\<lambda>_. True"
  by unfold_locales (rule get_put_Id)

interpretation gens: codec "put_Gen :: 'tag Gen \<Rightarrow> bytes" get_Gen "\<lambda>_. True"
  by unfold_locales (rule get_put_Gen)

interpretation strings: codec put_str rd_str str_ok
  by unfold_locales (rule get_put_str)

section \<open>Enumerations are single bytes\<close>

lemma complete_Health: "e \<in> set enum_Health"
  by (cases e) (simp_all add: enum_Health_def)

interpretation Health_enum: byte_enum enum_Health
  by unfold_locales (rule complete_Health, simp add: enum_Health_def)

lemma complete_Readiness: "e \<in> set enum_Readiness"
  by (cases e) (simp_all add: enum_Readiness_def)

interpretation Readiness_enum: byte_enum enum_Readiness
  by unfold_locales (rule complete_Readiness, simp add: enum_Readiness_def)

lemma complete_Freshness: "e \<in> set enum_Freshness"
  by (cases e) (simp_all add: enum_Freshness_def)

interpretation Freshness_enum: byte_enum enum_Freshness
  by unfold_locales (rule complete_Freshness, simp add: enum_Freshness_def)

lemma complete_Reachability: "e \<in> set enum_Reachability"
  by (cases e) (simp_all add: enum_Reachability_def)

interpretation Reachability_enum: byte_enum enum_Reachability
  by unfold_locales (rule complete_Reachability, simp add: enum_Reachability_def)

lemma complete_Lifecycle: "e \<in> set enum_Lifecycle"
  by (cases e) (simp_all add: enum_Lifecycle_def)

interpretation Lifecycle_enum: byte_enum enum_Lifecycle
  by unfold_locales (rule complete_Lifecycle, simp add: enum_Lifecycle_def)

lemma complete_ServiceKind: "e \<in> set enum_ServiceKind"
  by (cases e) (simp_all add: enum_ServiceKind_def)

interpretation ServiceKind_enum: byte_enum enum_ServiceKind
  by unfold_locales (rule complete_ServiceKind, simp add: enum_ServiceKind_def)

lemma complete_RuntimeKind: "e \<in> set enum_RuntimeKind"
  by (cases e) (simp_all add: enum_RuntimeKind_def)

interpretation RuntimeKind_enum: byte_enum enum_RuntimeKind
  by unfold_locales (rule complete_RuntimeKind, simp add: enum_RuntimeKind_def)

lemma complete_TransportKind: "e \<in> set enum_TransportKind"
  by (cases e) (simp_all add: enum_TransportKind_def)

interpretation TransportKind_enum: byte_enum enum_TransportKind
  by unfold_locales (rule complete_TransportKind, simp add: enum_TransportKind_def)

lemma complete_BackendKind: "e \<in> set enum_BackendKind"
  by (cases e) (simp_all add: enum_BackendKind_def)

interpretation BackendKind_enum: byte_enum enum_BackendKind
  by unfold_locales (rule complete_BackendKind, simp add: enum_BackendKind_def)

lemma complete_CapabilityKind: "e \<in> set enum_CapabilityKind"
  by (cases e) (simp_all add: enum_CapabilityKind_def)

interpretation CapabilityKind_enum: byte_enum enum_CapabilityKind
  by unfold_locales (rule complete_CapabilityKind, simp add: enum_CapabilityKind_def)

lemma complete_CompatibilityOutcome: "e \<in> set enum_CompatibilityOutcome"
  by (cases e) (simp_all add: enum_CompatibilityOutcome_def)

interpretation CompatibilityOutcome_enum: byte_enum enum_CompatibilityOutcome
  by unfold_locales (rule complete_CompatibilityOutcome, simp add: enum_CompatibilityOutcome_def)

lemma complete_LeaseState: "e \<in> set enum_LeaseState"
  by (cases e) (simp_all add: enum_LeaseState_def)

interpretation LeaseState_enum: byte_enum enum_LeaseState
  by unfold_locales (rule complete_LeaseState, simp add: enum_LeaseState_def)

lemma complete_EndpointSecurity: "e \<in> set enum_EndpointSecurity"
  by (cases e) (simp_all add: enum_EndpointSecurity_def)

interpretation EndpointSecurity_enum: byte_enum enum_EndpointSecurity
  by unfold_locales (rule complete_EndpointSecurity, simp add: enum_EndpointSecurity_def)

lemma complete_LeaseRenewalPolicy: "e \<in> set enum_LeaseRenewalPolicy"
  by (cases e) (simp_all add: enum_LeaseRenewalPolicy_def)

interpretation LeaseRenewalPolicy_enum: byte_enum enum_LeaseRenewalPolicy
  by unfold_locales (rule complete_LeaseRenewalPolicy, simp add: enum_LeaseRenewalPolicy_def)

lemma complete_EvidenceKind: "e \<in> set enum_EvidenceKind"
  by (cases e) (simp_all add: enum_EvidenceKind_def)

interpretation EvidenceKind_enum: byte_enum enum_EvidenceKind
  by unfold_locales (rule complete_EvidenceKind, simp add: enum_EvidenceKind_def)

lemma complete_CapabilityValueKind: "e \<in> set enum_CapabilityValueKind"
  by (cases e) (simp_all add: enum_CapabilityValueKind_def)

interpretation CapabilityValueKind_enum: byte_enum enum_CapabilityValueKind
  by unfold_locales (rule complete_CapabilityValueKind, simp add: enum_CapabilityValueKind_def)

lemma get_put_enum_byte [codec_simps]:
  "run_state rd_u8 (reader (put_enum es e @ rest)) = (enum_code es e, reader rest)"
  by (simp add: put_enum_def rd_u8_def put_u8_def reader_def)

lemmas enum_codecs [codec_simps] =
  Health_enum.get_put_enum
  Readiness_enum.get_put_enum
  Freshness_enum.get_put_enum
  Reachability_enum.get_put_enum
  Lifecycle_enum.get_put_enum
  ServiceKind_enum.get_put_enum
  RuntimeKind_enum.get_put_enum
  TransportKind_enum.get_put_enum
  BackendKind_enum.get_put_enum
  CapabilityKind_enum.get_put_enum
  CompatibilityOutcome_enum.get_put_enum
  LeaseState_enum.get_put_enum
  EndpointSecurity_enum.get_put_enum
  LeaseRenewalPolicy_enum.get_put_enum
  EvidenceKind_enum.get_put_enum
  CapabilityValueKind_enum.get_put_enum

section \<open>Versions and provenance\<close>

definition version_ok :: "SemanticVersion \<Rightarrow> bool" where
  "version_ok v \<longleftrightarrow> str_ok (sv_prerelease v) \<and> str_ok (sv_build v)"

definition prov_ok :: "Provenance \<Rightarrow> bool" where
  "prov_ok p \<longleftrightarrow> str_ok (pv_source p) \<and> str_ok (pv_digest p)"

lemma get_put_version [codec_simps]:
  "version_ok v \<Longrightarrow> run_state get_version (reader (put_version v @ rest)) = (v, reader rest)"
  by (simp add: get_version_def put_version_def version_ok_def codec_simps)

lemma get_put_sv [codec_simps]:
  "run_state get_sv (reader (put_sv v @ rest)) = (v, reader rest)"
  by (simp add: get_sv_def put_sv_def codec_simps)

lemma get_put_prov [codec_simps]:
  "prov_ok p \<Longrightarrow> run_state get_prov (reader (put_prov p @ rest)) = (p, reader rest)"
  by (simp add: get_prov_def put_prov_def prov_ok_def codec_simps)

interpretation versions: codec put_version get_version version_ok
  by unfold_locales (rule get_put_version)

interpretation structured_versions: codec put_sv get_sv "\<lambda>_. True"
  by unfold_locales (rule get_put_sv)

interpretation provenances: codec put_prov get_prov prov_ok
  by unfold_locales (rule get_put_prov)

section \<open>Vectors\<close>

text \<open>The vectors of the records, with their caps.\<close>

lemma get_put_Ids [codec_simps]:
  "length xs \<le> cap \<Longrightarrow> cap < 2 ^ 32 \<Longrightarrow>
    run_state (get_vec cap get_Id) (reader (put_vec put_Id xs @ rest)) = (xs, reader rest)"
  by (rule ids.get_put_vec) (simp_all add: codec_simps list.pred_True)

lemma get_put_strings [codec_simps]:
  "length xs \<le> cap \<Longrightarrow> cap < 2 ^ 32 \<Longrightarrow> list_all str_ok xs \<Longrightarrow>
    run_state (get_vec cap rd_str) (reader (put_vec put_str xs @ rest)) = (xs, reader rest)"
  by (rule strings.get_put_vec) (simp_all add: codec_simps)

lemma get_put_kinds [codec_simps]:
  "length xs \<le> cap \<Longrightarrow> cap < 2 ^ 32 \<Longrightarrow>
    run_state (get_vec cap (get_enum enum_CapabilityKind))
      (reader (put_vec (put_enum enum_CapabilityKind) xs @ rest)) = (xs, reader rest)"
  by (rule CapabilityKind_enum.get_put_vec) (simp_all add: codec_simps list.pred_True)

section \<open>The recursion of capability values\<close>

text \<open>A reader never puts bytes back; that bounds the depth of the recursion.\<close>

definition shrinks :: "'a reader \<Rightarrow> bool" where
  "shrinks g \<longleftrightarrow> (\<forall>r. length (rd_rest (snd (run_state g r))) \<le> length (rd_rest r))"

named_theorems shrinks_intros

lemma shrinks_return [shrinks_intros]: "shrinks (State_Monad.return x)"
  by (simp add: shrinks_def)

lemma shrinks_bind [shrinks_intros]:
  "shrinks f \<Longrightarrow> (\<And>x. shrinks (h x)) \<Longrightarrow> shrinks (f \<bind> h)"
  by (simp add: shrinks_def split: prod.split) (metis order_trans snd_conv)

lemma shrinks_primitive [shrinks_intros]:
  "shrinks rd_fail" "shrinks rd_u8" "shrinks rd_u32"
  by (simp_all add: shrinks_def rd_fail_def rd_u8_def rd_u32_def split: list.split)

lemma shrinks_u64 [shrinks_intros]: "shrinks rd_u64" "shrinks rd_f64"
  by (auto simp: rd_u64_def rd_f64_def intro!: shrinks_intros)

lemma shrinks_str [shrinks_intros]: "shrinks rd_str"
  unfolding rd_str_def by (intro shrinks_intros) (simp add: shrinks_def)

lemma shrinks_enum [shrinks_intros]: "shrinks (get_enum es)"
  unfolding get_enum_def by (intro shrinks_intros) (simp add: shrinks_def)

lemma shrinks_times [shrinks_intros]: "shrinks g \<Longrightarrow> shrinks (rd_times n g)"
  by (induction n) (auto intro!: shrinks_intros)

lemma shrinks_if [shrinks_intros]: "shrinks f \<Longrightarrow> shrinks g \<Longrightarrow> shrinks (if b then f else g)"
  by simp

lemma shrinks_capval_body: "shrinks g \<Longrightarrow> shrinks (get_capval_body g)"
  unfolding get_capval_body_def by (intro shrinks_intros)

lemma shrinks_capval_depth: "shrinks (get_capval_depth n)"
proof (induction n)
  case 0
  show ?case by (simp add: shrinks_def)
qed (simp add: shrinks_capval_body)

text \<open>Two readers agree below a number of bytes.\<close>

definition agree :: "nat \<Rightarrow> 'a reader \<Rightarrow> 'a reader \<Rightarrow> bool" where
  "agree k g g' \<longleftrightarrow> (\<forall>r. length (rd_rest r) < k \<longrightarrow> run_state g r = run_state g' r)"

lemma agree_refl: "agree k g g"
  by (simp add: agree_def)

lemma agree_bind:
  assumes "shrinks f" "\<And>x. agree k (h x) (h' x)"
  shows "agree k (f \<bind> h) (f \<bind> h')"
proof -
  have "run_state (f \<bind> h) r = run_state (f \<bind> h') r" if "length (rd_rest r) < k" for r
  proof -
    obtain x r' where r': "run_state f r = (x, r')" by force
    then have "length (rd_rest r') < k"
      using spec [OF assms(1) [unfolded shrinks_def], of r] that by simp
    then show ?thesis using assms(2) by (simp add: r' agree_def)
  qed
  then show ?thesis by (simp add: agree_def)
qed

lemma agree_bind2:
  assumes "agree k f f'" "shrinks f" "\<And>x. agree k (h x) (h' x)"
  shows "agree k (f \<bind> h) (f' \<bind> h')"
proof -
  have "run_state (f \<bind> h') r = run_state (f' \<bind> h') r" if "length (rd_rest r) < k" for r
    using assms(1) that by (simp add: agree_def)
  then show ?thesis using agree_bind [OF assms(2,3)] by (simp add: agree_def)
qed

lemma agree_times:
  assumes "agree k g g'" "shrinks g"
  shows "agree k (rd_times n g) (rd_times n g')"
proof (induction n)
  case (Suc n)
  show ?case
    unfolding rd_times.simps
    by (intro agree_bind2 [OF assms] agree_bind2 [OF Suc] shrinks_intros assms(2) agree_refl)
qed (simp add: agree_refl)

text \<open>A count that is not zero has been read, so fewer bytes are left.\<close>

lemma agree_count:
  assumes "\<And>n. agree k (h n) (h' n)" "agree (Suc k) (h 0) (h' 0)"
  shows "agree (Suc k) (rd_u32 \<bind> h) (rd_u32 \<bind> h')"
proof -
  have "run_state (rd_u32 \<bind> h) r = run_state (rd_u32 \<bind> h') r" if "length (rd_rest r) < Suc k" for r
  proof (cases "length (rd_rest r) < 4")
    case True
    with assms(2) that show ?thesis by (simp add: rd_u32_def agree_def)
  next
    case False
    with assms(1) that show ?thesis by (simp add: rd_u32_def agree_def)
  qed
  then show ?thesis by (simp add: agree_def)
qed

lemma agree_capval_body:
  assumes "agree k g g'" "shrinks g"
  shows "agree (Suc k) (get_capval_body g) (get_capval_body g')"
  unfolding get_capval_body_def
  by (intro agree_bind agree_count shrinks_intros)
    (auto intro!: agree_bind2 agree_times agree_bind agree_refl assms shrinks_intros)

lemma agree_capval_depth: "agree (min n m) (get_capval_depth n) (get_capval_depth m)"
proof (induction n arbitrary: m)
  case (Suc n)
  show ?case
  proof (cases m)
    case (Suc m')
    then show ?thesis
      using agree_capval_body [OF Suc.IH [of m'] shrinks_capval_depth] by simp
  qed (simp add: agree_def)
qed (simp add: agree_def)

lemma get_capval_unfold: "get_capval = get_capval_body get_capval"
proof (rule state_ext)
  fix r :: Reader
  let ?n = "length (rd_rest r)"
  have "run_state (get_capval_depth ?n) r' = run_state get_capval r'" if "length (rd_rest r') < ?n" for r'
    using that agree_capval_depth [of ?n "Suc (length (rd_rest r'))"]
    by (simp add: agree_def get_capval_def)
  then have "agree ?n (get_capval_depth ?n) get_capval" by (simp add: agree_def)
  from agree_capval_body [OF this shrinks_capval_depth]
  show "run_state get_capval r = run_state (get_capval_body get_capval) r"
    by (simp add: agree_def) (simp add: get_capval_def)
qed

text \<open>What the reader accepts, and the round trip.\<close>

fun capval_ok :: "CapabilityValue \<Rightarrow> bool"
  and structured_ok :: "(string \<times> CapabilityValue) list \<Rightarrow> bool"
where
  "capval_ok (CapabilityValue _ _ _ _ str _ _ _ _ structured) \<longleftrightarrow>
     str_ok str \<and> length structured \<le> 4096 \<and> structured_ok structured"
| "structured_ok [] \<longleftrightarrow> True"
| "structured_ok ((k, v) # rest) \<longleftrightarrow> str_ok k \<and> capval_ok v \<and> structured_ok rest"

lemma get_put_capval:
  "capval_ok v \<Longrightarrow> run_state get_capval (reader (put_capval v @ rest)) = (v, reader rest)"
  "structured_ok st \<Longrightarrow>
    run_state (rd_times (length st) (do {k \<leftarrow> rd_str; v \<leftarrow> get_capval; State_Monad.return (k, v)}))
      (reader (put_structured st @ rest)) = (st, reader rest)"
proof (induction v and st arbitrary: rest and rest rule: put_capval_put_structured.induct)
  case (1 kind boolean integer real str has_min has_max range_min range_max structured)
  then have "unat (of_nat (length structured) :: u32) = length structured"
    by (simp add: unsigned_of_nat take_bit_nat_eq_self)
  with 1 show ?case
    by (subst get_capval_unfold) (simp add: get_capval_body_def codec_simps)
next
  case (3 k v st)
  then show ?case by (simp add: codec_simps)
qed simp

lemmas get_put_capability_value [codec_simps] = get_put_capval(1)

interpretation capability_values: codec put_capval get_capval capval_ok
  by unfold_locales (rule get_put_capval(1))

end
