(* ===== verification/RR_Records.thy ===== *)
theory RR_Records
  imports RR_Codec
begin

text \<open>
  The writers and readers of the thirteen record types (\<^verbatim>\<open>persistence.cpp\<close>), each
  with the record values it can carry and its interpretation of the contract \<open>codec\<close>. The caps
  of \<open>..._ok\<close> are those the readers enforce; the writers do not check them.
\<close>

definition put_servicedesc :: "ServiceDescriptor \<Rightarrow> bytes" where
  "put_servicedesc s =
    put_Id (svc_service_id s) @ put_enum enum_ServiceKind (svc_kind s) @ put_str (svc_name s)
     @ put_Gen (svc_generation s) @ put_Id (svc_owner s)
     @ put_enum enum_Lifecycle (svc_lifecycle s) @ put_version (svc_version s)
     @ put_sv (svc_api_version s) @ put_sv (svc_abi_version s)
     @ put_vec (put_enum enum_CapabilityKind) (svc_required_capabilities s)
     @ put_vec (put_enum enum_CapabilityKind) (svc_optional_capabilities s)
     @ put_vec put_Id (svc_protocol_requirements s) @ put_Id (svc_compatibility_ref s)
     @ put_Gen (svc_policy_generation s) @ put_prov (svc_provenance s)
     @ put_str (svc_semantic_digest s)"

definition get_servicedesc :: "(u8 \<times> ServiceDescriptor) reader" where
  "get_servicedesc = do {
     service_id' \<leftarrow> get_Id; kind' \<leftarrow> rd_u8; name' \<leftarrow> rd_str;
     generation' \<leftarrow> get_Gen; owner' \<leftarrow> get_Id;
     lifecycle' \<leftarrow> get_enum enum_Lifecycle; version' \<leftarrow> get_version;
     api_version' \<leftarrow> get_sv; abi_version' \<leftarrow> get_sv;
     required_capabilities' \<leftarrow> get_vec 256 (get_enum enum_CapabilityKind);
     optional_capabilities' \<leftarrow> get_vec 256 (get_enum enum_CapabilityKind);
     protocol_requirements' \<leftarrow> get_vec 256 get_Id;
     compatibility_ref' \<leftarrow> get_Id; policy_generation' \<leftarrow> get_Gen;
     provenance' \<leftarrow> get_prov; semantic_digest' \<leftarrow> rd_str;
     State_Monad.return (kind', \<lparr>svc_service_id = service_id',
       svc_kind = (if unat kind' < length enum_ServiceKind then enum_ServiceKind ! unat kind'
         else ServiceKind.UNKNOWN),
       svc_name = name', svc_generation = generation', svc_owner = owner',
       svc_lifecycle = lifecycle', svc_version = version', svc_api_version = api_version',
       svc_abi_version = abi_version', svc_required_capabilities = required_capabilities',
       svc_optional_capabilities = optional_capabilities',
       svc_protocol_requirements = protocol_requirements',
       svc_compatibility_ref = compatibility_ref', svc_policy_generation = policy_generation',
       svc_provenance = provenance', svc_semantic_digest = semantic_digest'\<rparr>)
   }"

definition servicedesc_ok :: "ServiceDescriptor \<Rightarrow> bool" where
  "servicedesc_ok s \<longleftrightarrow>
     str_ok (svc_name s) \<and> version_ok (svc_version s) \<and>
     length (svc_required_capabilities s) \<le> 256 \<and>
     length (svc_optional_capabilities s) \<le> 256 \<and>
     length (svc_protocol_requirements s) \<le> 256 \<and> prov_ok (svc_provenance s) \<and>
     str_ok (svc_semantic_digest s)"

lemma get_put_servicedesc:
  "servicedesc_ok s \<Longrightarrow> run_state get_servicedesc (reader (put_servicedesc s @ rest)) =
    ((enum_code enum_ServiceKind (svc_kind s), s), reader rest)"
  by (simp add: get_servicedesc_def put_servicedesc_def servicedesc_ok_def codec_simps
      ServiceKind_enum.enum_code)

definition put_instance :: "ServiceInstance \<Rightarrow> bytes" where
  "put_instance i =
    put_Id (si_instance_id i) @ put_Id (si_service_id i) @ put_Gen (si_service_generation i)
     @ put_Gen (si_instance_generation i) @ put_Id (si_node i) @ put_Id (si_worker i)
     @ put_Id (si_boot i) @ put_Id (si_process i) @ put_Id (si_runtime_id i)
     @ put_Id (si_runtime_instance i) @ put_vec put_Id (si_endpoints i)
     @ put_vec put_Id (si_protocols i) @ put_vec put_Id (si_capabilities i)
     @ put_enum enum_Health (si_health i) @ put_enum enum_Readiness (si_readiness i)
     @ put_enum enum_Freshness (si_freshness i) @ put_enum enum_Reachability (si_reachability i)
     @ put_Id (si_lease i) @ put_enum enum_Lifecycle (si_lifecycle i) @ put_version (si_version i)
     @ put_Id (si_compatibility_ref i) @ put_Gen (si_authority_generation i)
     @ put_u64 (si_registered_ms i) @ put_u64 (si_updated_ms i) @ put_u64 (si_expires_ms i)
     @ put_prov (si_provenance i) @ put_str (si_semantic_digest i)"

definition get_instance :: "ServiceInstance reader" where
  "get_instance = do {
     instance_id' \<leftarrow> get_Id; service_id' \<leftarrow> get_Id;
     service_generation' \<leftarrow> get_Gen; instance_generation' \<leftarrow> get_Gen;
     node' \<leftarrow> get_Id; worker' \<leftarrow> get_Id; boot' \<leftarrow> get_Id;
     process' \<leftarrow> get_Id; runtime_id' \<leftarrow> get_Id;
     runtime_instance' \<leftarrow> get_Id; endpoints' \<leftarrow> get_vec 4096 get_Id;
     protocols' \<leftarrow> get_vec 4096 get_Id; capabilities' \<leftarrow> get_vec 4096 get_Id;
     health' \<leftarrow> get_enum enum_Health; readiness' \<leftarrow> get_enum enum_Readiness;
     freshness' \<leftarrow> get_enum enum_Freshness;
     reachability' \<leftarrow> get_enum enum_Reachability; lease' \<leftarrow> get_Id;
     lifecycle' \<leftarrow> get_enum enum_Lifecycle; version' \<leftarrow> get_version;
     compatibility_ref' \<leftarrow> get_Id; authority_generation' \<leftarrow> get_Gen;
     registered_ms' \<leftarrow> rd_u64; updated_ms' \<leftarrow> rd_u64;
     expires_ms' \<leftarrow> rd_u64; provenance' \<leftarrow> get_prov;
     semantic_digest' \<leftarrow> rd_str;
     State_Monad.return (\<lparr>si_instance_id = instance_id', si_service_id = service_id',
       si_service_generation = service_generation', si_instance_generation = instance_generation',
       si_node = node', si_worker = worker', si_boot = boot', si_process = process',
       si_runtime_id = runtime_id', si_runtime_instance = runtime_instance',
       si_endpoints = endpoints', si_protocols = protocols', si_capabilities = capabilities',
       si_health = health', si_readiness = readiness', si_freshness = freshness',
       si_reachability = reachability', si_lease = lease', si_lifecycle = lifecycle',
       si_version = version', si_compatibility_ref = compatibility_ref',
       si_authority_generation = authority_generation', si_registered_ms = registered_ms',
       si_updated_ms = updated_ms', si_expires_ms = expires_ms', si_provenance = provenance',
       si_semantic_digest = semantic_digest'\<rparr>)
   }"

definition instance_ok :: "ServiceInstance \<Rightarrow> bool" where
  "instance_ok i \<longleftrightarrow>
     length (si_endpoints i) \<le> 4096 \<and> length (si_protocols i) \<le> 4096 \<and>
     length (si_capabilities i) \<le> 4096 \<and> version_ok (si_version i) \<and>
     prov_ok (si_provenance i) \<and> str_ok (si_semantic_digest i)"

lemma get_put_instance:
  "instance_ok i \<Longrightarrow> run_state get_instance (reader (put_instance i @ rest)) = (i, reader rest)"
  by (simp add: get_instance_def put_instance_def instance_ok_def codec_simps)

interpretation instance_codec: codec put_instance get_instance instance_ok
  by unfold_locales (rule get_put_instance)

definition put_runtime :: "RuntimeDescriptor \<Rightarrow> bytes" where
  "put_runtime rt =
    put_Id (rt_runtime_id rt) @ put_Id (rt_runtime_instance rt) @ put_Gen (rt_generation rt)
     @ put_enum enum_RuntimeKind (rt_kind rt) @ put_str (rt_name rt) @ put_str (rt_family rt)
     @ put_version (rt_version rt) @ put_sv (rt_api_version rt) @ put_sv (rt_abi_version rt)
     @ put_str (rt_build_identity rt) @ put_str (rt_compiler_identity rt)
     @ put_vec put_Id (rt_supported_protocols rt) @ put_vec put_Id (rt_capabilities rt)
     @ put_vec put_Id (rt_backends rt) @ put_str (rt_architecture rt)
     @ put_str (rt_device_constraint rt) @ put_prov (rt_provenance rt) @ put_Id (rt_node rt)
     @ put_Id (rt_owner_worker rt) @ put_Id (rt_owner_boot rt)"

definition get_runtime :: "RuntimeDescriptor reader" where
  "get_runtime = do {
     runtime_id' \<leftarrow> get_Id; runtime_instance' \<leftarrow> get_Id;
     generation' \<leftarrow> get_Gen; kind' \<leftarrow> get_enum enum_RuntimeKind;
     name' \<leftarrow> rd_str; family' \<leftarrow> rd_str; version' \<leftarrow> get_version;
     api_version' \<leftarrow> get_sv; abi_version' \<leftarrow> get_sv;
     build_identity' \<leftarrow> rd_str; compiler_identity' \<leftarrow> rd_str;
     supported_protocols' \<leftarrow> get_vec 4096 get_Id;
     capabilities' \<leftarrow> get_vec 4096 get_Id; backends' \<leftarrow> get_vec 4096 get_Id;
     architecture' \<leftarrow> rd_str; device_constraint' \<leftarrow> rd_str;
     provenance' \<leftarrow> get_prov; node' \<leftarrow> get_Id;
     owner_worker' \<leftarrow> get_Id; owner_boot' \<leftarrow> get_Id;
     State_Monad.return (\<lparr>rt_runtime_id = runtime_id', rt_runtime_instance = runtime_instance', rt_generation = generation',
       rt_kind = kind', rt_name = name', rt_family = family', rt_version = version',
       rt_api_version = api_version', rt_abi_version = abi_version',
       rt_build_identity = build_identity', rt_compiler_identity = compiler_identity',
       rt_supported_protocols = supported_protocols', rt_capabilities = capabilities',
       rt_backends = backends', rt_architecture = architecture',
       rt_device_constraint = device_constraint', rt_provenance = provenance', rt_node = node',
       rt_owner_worker = owner_worker', rt_owner_boot = owner_boot'\<rparr>)
   }"

definition runtime_ok :: "RuntimeDescriptor \<Rightarrow> bool" where
  "runtime_ok rt \<longleftrightarrow>
     str_ok (rt_name rt) \<and> str_ok (rt_family rt) \<and> version_ok (rt_version rt) \<and>
     str_ok (rt_build_identity rt) \<and> str_ok (rt_compiler_identity rt) \<and>
     length (rt_supported_protocols rt) \<le> 4096 \<and>
     length (rt_capabilities rt) \<le> 4096 \<and> length (rt_backends rt) \<le> 4096 \<and>
     str_ok (rt_architecture rt) \<and> str_ok (rt_device_constraint rt) \<and>
     prov_ok (rt_provenance rt)"

lemma get_put_runtime:
  "runtime_ok rt \<Longrightarrow> run_state get_runtime (reader (put_runtime rt @ rest)) = (rt, reader rest)"
  by (simp add: get_runtime_def put_runtime_def runtime_ok_def codec_simps)

interpretation runtime_codec: codec put_runtime get_runtime runtime_ok
  by unfold_locales (rule get_put_runtime)

definition put_endpoint :: "EndpointDescriptor \<Rightarrow> bytes" where
  "put_endpoint e =
    put_Id (ep_endpoint_id e) @ put_Id (ep_service_instance e) @ put_Gen (ep_generation e)
     @ put_Id (ep_protocol e) @ put_str (loc_text (ep_locator e))
     @ put_enum enum_TransportKind (ep_transport e) @ put_u32 (ucast (ep_port e))
     @ put_enum enum_EndpointSecurity (ep_security e) @ put_enum enum_Health (ep_health e)
     @ put_enum enum_Reachability (ep_reachability e) @ put_enum enum_Freshness (ep_freshness e)
     @ put_prov (ep_provenance e) @ put_Gen (ep_authority_generation e)"

definition get_endpoint :: "EndpointDescriptor reader" where
  "get_endpoint = do {
     endpoint_id' \<leftarrow> get_Id; service_instance' \<leftarrow> get_Id;
     generation' \<leftarrow> get_Gen; protocol' \<leftarrow> get_Id;
     locator' \<leftarrow> rd_str; transport' \<leftarrow> get_enum enum_TransportKind;
     port' \<leftarrow> rd_u32; security' \<leftarrow> get_enum enum_EndpointSecurity;
     health' \<leftarrow> get_enum enum_Health;
     reachability' \<leftarrow> get_enum enum_Reachability;
     freshness' \<leftarrow> get_enum enum_Freshness; provenance' \<leftarrow> get_prov;
     authority_generation' \<leftarrow> get_Gen;
     State_Monad.return (\<lparr>ep_endpoint_id = endpoint_id', ep_service_instance = service_instance',
       ep_generation = generation', ep_protocol = protocol',
       ep_locator = \<lparr>loc_text = locator'\<rparr>, ep_transport = transport',
       ep_port = ucast port', ep_security = security', ep_health = health',
       ep_reachability = reachability', ep_freshness = freshness', ep_provenance = provenance',
       ep_authority_generation = authority_generation'\<rparr>)
   }"

definition endpoint_ok :: "EndpointDescriptor \<Rightarrow> bool" where
  "endpoint_ok e \<longleftrightarrow>
     str_ok (loc_text (ep_locator e)) \<and> prov_ok (ep_provenance e)"

lemma port_roundtrip [simp]: "ucast (ucast p :: u32) = p" for p :: u16
  by (rule bit_word_eqI) (auto simp: bit_simps)

lemma locator_collapse [simp]: "\<lparr>loc_text = loc_text l\<rparr> = l"
  by simp

lemma get_put_endpoint:
  "endpoint_ok e \<Longrightarrow> run_state get_endpoint (reader (put_endpoint e @ rest)) = (e, reader rest)"
  by (simp add: get_endpoint_def put_endpoint_def endpoint_ok_def codec_simps)

interpretation endpoint_codec: codec put_endpoint get_endpoint endpoint_ok
  by unfold_locales (rule get_put_endpoint)

definition put_protocol :: "ProtocolDescriptor \<Rightarrow> bytes" where
  "put_protocol p =
    put_Id (pd_protocol_id p) @ put_str (pd_name p) @ put_Gen (pd_generation p)
     @ put_sv (pd_version p) @ put_sv (pd_compatibility_min p) @ put_str (pd_framing p)
     @ put_vec (put_enum enum_CapabilityKind) (pd_required_capabilities p)
     @ put_u64 (pd_max_payload p) @ put_prov (pd_provenance p)"

definition get_protocol :: "ProtocolDescriptor reader" where
  "get_protocol = do {
     protocol_id' \<leftarrow> get_Id; name' \<leftarrow> rd_str;
     generation' \<leftarrow> get_Gen; version' \<leftarrow> get_sv;
     compatibility_min' \<leftarrow> get_sv; framing' \<leftarrow> rd_str;
     required_capabilities' \<leftarrow> get_vec 256 (get_enum enum_CapabilityKind);
     max_payload' \<leftarrow> rd_u64; provenance' \<leftarrow> get_prov;
     State_Monad.return (\<lparr>pd_protocol_id = protocol_id', pd_name = name', pd_generation = generation',
       pd_version = version', pd_compatibility_min = compatibility_min', pd_framing = framing',
       pd_required_capabilities = required_capabilities', pd_max_payload = max_payload',
       pd_provenance = provenance'\<rparr>)
   }"

definition protocol_ok :: "ProtocolDescriptor \<Rightarrow> bool" where
  "protocol_ok p \<longleftrightarrow>
     str_ok (pd_name p) \<and> str_ok (pd_framing p) \<and>
     length (pd_required_capabilities p) \<le> 256 \<and> prov_ok (pd_provenance p)"

lemma get_put_protocol:
  "protocol_ok p \<Longrightarrow> run_state get_protocol (reader (put_protocol p @ rest)) = (p, reader rest)"
  by (simp add: get_protocol_def put_protocol_def protocol_ok_def codec_simps)

interpretation protocol_codec: codec put_protocol get_protocol protocol_ok
  by unfold_locales (rule get_put_protocol)

definition put_backend :: "BackendDescriptor \<Rightarrow> bytes" where
  "put_backend b =
    put_Id (bd_backend_id b) @ put_enum enum_BackendKind (bd_kind b) @ put_Gen (bd_generation b)
     @ put_Id (bd_runtime_binding b) @ put_vec put_Id (bd_capabilities b)
     @ put_version (bd_version b) @ put_enum enum_Health (bd_health b)
     @ put_enum enum_Readiness (bd_readiness b) @ put_enum enum_Freshness (bd_freshness b)
     @ put_prov (bd_provenance b)"

definition get_backend :: "BackendDescriptor reader" where
  "get_backend = do {
     backend_id' \<leftarrow> get_Id; kind' \<leftarrow> get_enum enum_BackendKind;
     generation' \<leftarrow> get_Gen; runtime_binding' \<leftarrow> get_Id;
     capabilities' \<leftarrow> get_vec 4096 get_Id; version' \<leftarrow> get_version;
     health' \<leftarrow> get_enum enum_Health; readiness' \<leftarrow> get_enum enum_Readiness;
     freshness' \<leftarrow> get_enum enum_Freshness; provenance' \<leftarrow> get_prov;
     State_Monad.return (\<lparr>bd_backend_id = backend_id', bd_kind = kind', bd_generation = generation',
       bd_runtime_binding = runtime_binding', bd_capabilities = capabilities',
       bd_version = version', bd_health = health', bd_readiness = readiness',
       bd_freshness = freshness', bd_provenance = provenance'\<rparr>)
   }"

definition backend_ok :: "BackendDescriptor \<Rightarrow> bool" where
  "backend_ok b \<longleftrightarrow>
     length (bd_capabilities b) \<le> 4096 \<and> version_ok (bd_version b) \<and>
     prov_ok (bd_provenance b)"

lemma get_put_backend:
  "backend_ok b \<Longrightarrow> run_state get_backend (reader (put_backend b @ rest)) = (b, reader rest)"
  by (simp add: get_backend_def put_backend_def backend_ok_def codec_simps)

interpretation backend_codec: codec put_backend get_backend backend_ok
  by unfold_locales (rule get_put_backend)

definition put_device :: "DeviceDescriptor \<Rightarrow> bytes" where
  "put_device d =
    put_Id (dd_device_id d) @ put_Gen (dd_generation d) @ put_str (dd_name d)
     @ put_str (dd_vendor d) @ put_str (dd_architecture d) @ put_str (dd_compute_capability d)
     @ put_u64 (dd_total_memory d) @ put_u64 (dd_free_memory d) @ put_str (dd_backend_binding d)
     @ put_prov (dd_provenance d) @ put_enum enum_Freshness (dd_freshness d)
     @ put_enum enum_Health (dd_health d)"

definition get_device :: "DeviceDescriptor reader" where
  "get_device = do {
     device_id' \<leftarrow> get_Id; generation' \<leftarrow> get_Gen; name' \<leftarrow> rd_str;
     vendor' \<leftarrow> rd_str; architecture' \<leftarrow> rd_str;
     compute_capability' \<leftarrow> rd_str; total_memory' \<leftarrow> rd_u64;
     free_memory' \<leftarrow> rd_u64; backend_binding' \<leftarrow> rd_str;
     provenance' \<leftarrow> get_prov; freshness' \<leftarrow> get_enum enum_Freshness;
     health' \<leftarrow> get_enum enum_Health;
     State_Monad.return (\<lparr>dd_device_id = device_id', dd_generation = generation', dd_name = name', dd_vendor = vendor',
       dd_architecture = architecture', dd_compute_capability = compute_capability',
       dd_total_memory = total_memory', dd_free_memory = free_memory',
       dd_backend_binding = backend_binding', dd_provenance = provenance',
       dd_freshness = freshness', dd_health = health'\<rparr>)
   }"

definition device_ok :: "DeviceDescriptor \<Rightarrow> bool" where
  "device_ok d \<longleftrightarrow>
     str_ok (dd_name d) \<and> str_ok (dd_vendor d) \<and> str_ok (dd_architecture d) \<and>
     str_ok (dd_compute_capability d) \<and> str_ok (dd_backend_binding d) \<and>
     prov_ok (dd_provenance d)"

lemma get_put_device:
  "device_ok d \<Longrightarrow> run_state get_device (reader (put_device d @ rest)) = (d, reader rest)"
  by (simp add: get_device_def put_device_def device_ok_def codec_simps)

interpretation device_codec: codec put_device get_device device_ok
  by unfold_locales (rule get_put_device)

definition put_capability :: "CapabilityDescriptor \<Rightarrow> bytes" where
  "put_capability c =
    put_Id (cap_capability_id c) @ put_enum enum_CapabilityKind (cap_kind c)
     @ put_Gen (cap_generation c) @ put_version (cap_version c) @ put_capval (cap_value c)
     @ put_vec put_str (cap_attributes c) @ put_vec put_str (cap_constraints c)
     @ put_prov (cap_provenance c) @ put_enum enum_Freshness (cap_freshness c)
     @ put_Gen (cap_authority_generation c)"

definition get_capability :: "CapabilityDescriptor reader" where
  "get_capability = do {
     capability_id' \<leftarrow> get_Id; kind' \<leftarrow> get_enum enum_CapabilityKind;
     generation' \<leftarrow> get_Gen; version' \<leftarrow> get_version;
     value' \<leftarrow> get_capval; attributes' \<leftarrow> get_vec 256 rd_str;
     constraints' \<leftarrow> get_vec 256 rd_str; provenance' \<leftarrow> get_prov;
     freshness' \<leftarrow> get_enum enum_Freshness; authority_generation' \<leftarrow> get_Gen;
     State_Monad.return (\<lparr>cap_capability_id = capability_id', cap_kind = kind', cap_generation = generation',
       cap_version = version', cap_value = value', cap_attributes = attributes',
       cap_constraints = constraints', cap_provenance = provenance', cap_freshness = freshness',
       cap_authority_generation = authority_generation'\<rparr>)
   }"

definition capability_ok :: "CapabilityDescriptor \<Rightarrow> bool" where
  "capability_ok c \<longleftrightarrow>
     version_ok (cap_version c) \<and> capval_ok (cap_value c) \<and>
     length (cap_attributes c) \<le> 256 \<and> list_all str_ok (cap_attributes c) \<and>
     length (cap_constraints c) \<le> 256 \<and> list_all str_ok (cap_constraints c) \<and>
     prov_ok (cap_provenance c)"

lemma get_put_capability:
  "capability_ok c \<Longrightarrow> run_state get_capability (reader (put_capability c @ rest)) = (c, reader rest)"
  by (simp add: get_capability_def put_capability_def capability_ok_def codec_simps)

interpretation capability_codec: codec put_capability get_capability capability_ok
  by unfold_locales (rule get_put_capability)

definition put_node :: "NodeDescriptor \<Rightarrow> bytes" where
  "put_node n =
    put_Id (nd_node_id n) @ put_Gen (nd_generation n) @ put_str (nd_hostname n)
     @ put_vec put_Id (nd_runtimes n) @ put_vec put_Id (nd_service_instances n)
     @ put_vec put_Id (nd_devices n) @ put_vec put_Id (nd_backends n)
     @ put_enum enum_Health (nd_health n) @ put_enum enum_Readiness (nd_readiness n)
     @ put_enum enum_Freshness (nd_freshness n) @ put_enum enum_Reachability (nd_reachability n)
     @ put_prov (nd_provenance n)"

definition get_node :: "NodeDescriptor reader" where
  "get_node = do {
     node_id' \<leftarrow> get_Id; generation' \<leftarrow> get_Gen;
     hostname' \<leftarrow> rd_str; runtimes' \<leftarrow> get_vec 4096 get_Id;
     service_instances' \<leftarrow> get_vec 4096 get_Id;
     devices' \<leftarrow> get_vec 4096 get_Id; backends' \<leftarrow> get_vec 4096 get_Id;
     health' \<leftarrow> get_enum enum_Health; readiness' \<leftarrow> get_enum enum_Readiness;
     freshness' \<leftarrow> get_enum enum_Freshness;
     reachability' \<leftarrow> get_enum enum_Reachability; provenance' \<leftarrow> get_prov;
     State_Monad.return (\<lparr>nd_node_id = node_id', nd_generation = generation', nd_hostname = hostname',
       nd_runtimes = runtimes', nd_service_instances = service_instances', nd_devices = devices',
       nd_backends = backends', nd_health = health', nd_readiness = readiness',
       nd_freshness = freshness', nd_reachability = reachability', nd_provenance = provenance'\<rparr>)
   }"

definition node_ok :: "NodeDescriptor \<Rightarrow> bool" where
  "node_ok n \<longleftrightarrow>
     str_ok (nd_hostname n) \<and> length (nd_runtimes n) \<le> 4096 \<and>
     length (nd_service_instances n) \<le> 4096 \<and> length (nd_devices n) \<le> 4096 \<and>
     length (nd_backends n) \<le> 4096 \<and> prov_ok (nd_provenance n)"

lemma get_put_node:
  "node_ok n \<Longrightarrow> run_state get_node (reader (put_node n @ rest)) = (n, reader rest)"
  by (simp add: get_node_def put_node_def node_ok_def codec_simps)

interpretation node_codec: codec put_node get_node node_ok
  by unfold_locales (rule get_put_node)

definition put_lease :: "LeaseDescriptor \<Rightarrow> bytes" where
  "put_lease l =
    put_Id (ls_lease_id l) @ put_Gen (ls_generation l) @ put_Id (ls_service_instance l)
     @ put_Id (ls_boot l) @ put_u64 (ls_issued_ms l) @ put_u64 (ls_renew_interval_ms l)
     @ put_enum enum_LeaseRenewalPolicy (ls_renewal_policy l)
     @ put_enum enum_LeaseState (ls_state l) @ put_u64 (ls_expires_ms l)
     @ put_prov (ls_provenance l) @ put_Gen (ls_authority_generation l)"

definition get_lease :: "LeaseDescriptor reader" where
  "get_lease = do {
     lease_id' \<leftarrow> get_Id; generation' \<leftarrow> get_Gen;
     service_instance' \<leftarrow> get_Id; boot' \<leftarrow> get_Id;
     issued_ms' \<leftarrow> rd_u64; renew_interval_ms' \<leftarrow> rd_u64;
     renewal_policy' \<leftarrow> get_enum enum_LeaseRenewalPolicy;
     state' \<leftarrow> get_enum enum_LeaseState; expires_ms' \<leftarrow> rd_u64;
     provenance' \<leftarrow> get_prov; authority_generation' \<leftarrow> get_Gen;
     State_Monad.return (\<lparr>ls_lease_id = lease_id', ls_generation = generation', ls_service_instance = service_instance',
       ls_boot = boot', ls_issued_ms = issued_ms', ls_renew_interval_ms = renew_interval_ms',
       ls_renewal_policy = renewal_policy', ls_state = state', ls_expires_ms = expires_ms',
       ls_provenance = provenance', ls_authority_generation = authority_generation'\<rparr>)
   }"

definition lease_ok :: "LeaseDescriptor \<Rightarrow> bool" where
  "lease_ok l \<longleftrightarrow>
     prov_ok (ls_provenance l)"

lemma get_put_lease:
  "lease_ok l \<Longrightarrow> run_state get_lease (reader (put_lease l @ rest)) = (l, reader rest)"
  by (simp add: get_lease_def put_lease_def lease_ok_def codec_simps)

interpretation lease_codec: codec put_lease get_lease lease_ok
  by unfold_locales (rule get_put_lease)

definition put_tombstone :: "TombstoneRecord \<Rightarrow> bytes" where
  "put_tombstone t =
    put_Id (tb_tombstone_id t) @ put_str (tb_target_kind t) @ put_str (tb_target_text t)
     @ put_Gen (tb_generation_floor t) @ put_Gen (tb_epoch t) @ put_Id (tb_boot t)
     @ put_Gen (tb_authority_generation t) @ put_str (tb_reason t) @ put_u64 (tb_timestamp_ms t)
     @ put_prov (tb_provenance t)"

definition get_tombstone :: "TombstoneRecord reader" where
  "get_tombstone = do {
     tombstone_id' \<leftarrow> get_Id; target_kind' \<leftarrow> rd_str;
     target_text' \<leftarrow> rd_str; generation_floor' \<leftarrow> get_Gen;
     epoch' \<leftarrow> get_Gen; boot' \<leftarrow> get_Id;
     authority_generation' \<leftarrow> get_Gen; reason' \<leftarrow> rd_str;
     timestamp_ms' \<leftarrow> rd_u64; provenance' \<leftarrow> get_prov;
     State_Monad.return (\<lparr>tb_tombstone_id = tombstone_id', tb_target_kind = target_kind', tb_target_text = target_text',
       tb_generation_floor = generation_floor', tb_epoch = epoch', tb_boot = boot',
       tb_authority_generation = authority_generation', tb_reason = reason',
       tb_timestamp_ms = timestamp_ms', tb_provenance = provenance'\<rparr>)
   }"

definition tombstone_ok :: "TombstoneRecord \<Rightarrow> bool" where
  "tombstone_ok t \<longleftrightarrow>
     str_ok (tb_target_kind t) \<and> str_ok (tb_target_text t) \<and> str_ok (tb_reason t) \<and>
     prov_ok (tb_provenance t)"

lemma get_put_tombstone:
  "tombstone_ok t \<Longrightarrow> run_state get_tombstone (reader (put_tombstone t @ rest)) = (t, reader rest)"
  by (simp add: get_tombstone_def put_tombstone_def tombstone_ok_def codec_simps)

interpretation tombstone_codec: codec put_tombstone get_tombstone tombstone_ok
  by unfold_locales (rule get_put_tombstone)

definition put_invalidation :: "InvalidationRecord \<Rightarrow> bytes" where
  "put_invalidation iv =
    put_str (iv_target_kind iv) @ put_str (iv_target_text iv) @ put_Gen (iv_generation iv)
     @ put_Gen (iv_epoch iv) @ put_Id (iv_boot iv) @ put_Gen (iv_authority_generation iv)
     @ put_str (iv_reason iv) @ put_u64 (iv_timestamp_ms iv) @ put_prov (iv_provenance iv)"

definition get_invalidation :: "InvalidationRecord reader" where
  "get_invalidation = do {
     target_kind' \<leftarrow> rd_str; target_text' \<leftarrow> rd_str;
     generation' \<leftarrow> get_Gen; epoch' \<leftarrow> get_Gen; boot' \<leftarrow> get_Id;
     authority_generation' \<leftarrow> get_Gen; reason' \<leftarrow> rd_str;
     timestamp_ms' \<leftarrow> rd_u64; provenance' \<leftarrow> get_prov;
     State_Monad.return (\<lparr>iv_target_kind = target_kind', iv_target_text = target_text', iv_generation = generation',
       iv_epoch = epoch', iv_boot = boot', iv_authority_generation = authority_generation',
       iv_reason = reason', iv_timestamp_ms = timestamp_ms', iv_provenance = provenance'\<rparr>)
   }"

definition invalidation_ok :: "InvalidationRecord \<Rightarrow> bool" where
  "invalidation_ok iv \<longleftrightarrow>
     str_ok (iv_target_kind iv) \<and> str_ok (iv_target_text iv) \<and>
     str_ok (iv_reason iv) \<and> prov_ok (iv_provenance iv)"

lemma get_put_invalidation:
  "invalidation_ok iv \<Longrightarrow> run_state get_invalidation (reader (put_invalidation iv @ rest)) = (iv, reader rest)"
  by (simp add: get_invalidation_def put_invalidation_def invalidation_ok_def codec_simps)

interpretation invalidation_codec: codec put_invalidation get_invalidation invalidation_ok
  by unfold_locales (rule get_put_invalidation)

definition put_compat :: "CompatibilityRecord \<Rightarrow> bytes" where
  "put_compat c =
    put_Id (cr_compatibility_id c) @ put_Gen (cr_generation c)
     @ put_enum enum_CompatibilityOutcome (cr_outcome c)
     @ put_enum enum_Freshness (cr_freshness c) @ put_prov (cr_provenance c)"

definition get_compat :: "CompatibilityRecord reader" where
  "get_compat = do {
     compatibility_id' \<leftarrow> get_Id; generation' \<leftarrow> get_Gen;
     outcome' \<leftarrow> get_enum enum_CompatibilityOutcome;
     freshness' \<leftarrow> get_enum enum_Freshness; provenance' \<leftarrow> get_prov;
     State_Monad.return (\<lparr>cr_compatibility_id = compatibility_id', cr_generation = generation', cr_outcome = outcome',
       cr_freshness = freshness', cr_provenance = provenance'\<rparr>)
   }"

definition compat_ok :: "CompatibilityRecord \<Rightarrow> bool" where
  "compat_ok c \<longleftrightarrow>
     prov_ok (cr_provenance c)"

lemma get_put_compat:
  "compat_ok c \<Longrightarrow> run_state get_compat (reader (put_compat c @ rest)) = (c, reader rest)"
  by (simp add: get_compat_def put_compat_def compat_ok_def codec_simps)

interpretation compat_codec: codec put_compat get_compat compat_ok
  by unfold_locales (rule get_put_compat)

end
