(* ===== verification/RR_Sha256.thy ===== *)
theory RR_Sha256
  imports RR_Wire
begin

text \<open>
  SHA-256 (\<^verbatim>\<open>sha256.cpp\<close>), the semantic digest of the persistent form: padding,
  message schedule, compression rounds and the hexadecimal rendering.
\<close>

unbundle bit_operations_syntax

section \<open>Padding\<close>

function pad_zeros :: "bytes \<Rightarrow> bytes" where
  "pad_zeros msg = (if length msg mod 64 \<noteq> 56 then pad_zeros (msg @ [0]) else msg)"
  by pat_completeness auto
termination
proof (relation "measure (\<lambda>msg. if length msg mod 64 \<le> 56 then 56 - length msg mod 64
    else 120 - length msg mod 64)")
  fix msg :: bytes
  assume "length msg mod 64 \<noteq> 56"
  moreover have "length msg mod 64 < 64" by simp
  ultimately show "(msg @ [0], msg) \<in> measure (\<lambda>msg. if length msg mod 64 \<le> 56
      then 56 - length msg mod 64 else 120 - length msg mod 64)"
    by (auto simp: mod_Suc)
qed simp

declare pad_zeros.simps [simp del]

definition be_u64 :: "u64 \<Rightarrow> bytes" where
  "be_u64 bits = map (\<lambda>i. ucast (drop_bit (i * 8) bits AND 0xFF)) [7, 6, 5, 4, 3, 2, 1, 0]"

definition sha256_message :: "bytes \<Rightarrow> bytes" where
  "sha256_message data = pad_zeros (data @ [0x80]) @ be_u64 (of_nat (length data) * 8)"

lemma pad_zeros_spec:
  "\<exists>n. pad_zeros msg = msg @ replicate n 0 \<and> length (pad_zeros msg) mod 64 = 56"
proof (induction msg rule: pad_zeros.induct)
  case (1 msg)
  show ?case
  proof (cases "length msg mod 64 = 56")
    case True
    then have "pad_zeros msg = msg @ replicate 0 0" by (simp add: pad_zeros.simps)
    then show ?thesis using True by (intro exI [of _ 0]) simp
  next
    case False
    then obtain n where "pad_zeros (msg @ [0]) = (msg @ [0]) @ replicate n 0"
      "length (pad_zeros (msg @ [0])) mod 64 = 56"
      using 1 by blast
    with False show ?thesis
      by (intro exI [of _ "Suc n"]) (simp add: pad_zeros.simps [of msg])
  qed
qed

definition padding_room :: "nat \<Rightarrow> nat" where
  "padding_room m = (if m \<le> 56 then 56 - m else 120 - m)"

lemma pad_zeros_bound: "\<exists>n < 64. pad_zeros msg = msg @ replicate n 0"
proof -
  have "\<exists>n. n \<le> padding_room (length msg mod 64) \<and> pad_zeros msg = msg @ replicate n 0"
  proof (induction msg rule: pad_zeros.induct)
    case (1 msg)
    show ?case
    proof (cases "length msg mod 64 = 56")
      case True
      then show ?thesis by (intro exI [of _ 0]) (simp add: pad_zeros.simps)
    next
      case False
      then obtain n where n: "n \<le> padding_room (length (msg @ [0 :: u8]) mod 64)"
        "pad_zeros (msg @ [0]) = (msg @ [0]) @ replicate n 0"
        using 1 by blast
      have next_room: "Suc (padding_room (if Suc m = 64 then 0 else Suc m)) \<le> padding_room m"
        if "m < 64" "m \<noteq> 56" for m
        using that by (cases "m < 56") (auto simp: padding_room_def)
      have "length (msg @ [0 :: u8]) mod 64 =
          (if Suc (length msg mod 64) = 64 then 0 else Suc (length msg mod 64))"
        by (simp add: mod_Suc)
      then have "Suc (padding_room (length (msg @ [0 :: u8]) mod 64))
          \<le> padding_room (length msg mod 64)"
        using next_room [of "length msg mod 64"] False by (simp only:) simp
      with n False show ?thesis
        by (intro exI [of _ "Suc n"]) (simp add: pad_zeros.simps [of msg])
    qed
  qed
  moreover have "padding_room (length msg mod 64) < 64"
    unfolding padding_room_def by (split if_split) linarith
  ultimately show ?thesis by (meson le_less_trans)
qed

text \<open>The padded message is a whole number of blocks, and different messages pad differently.\<close>

lemma length_be_u64 [simp]: "length (be_u64 v) = 8"
  by (simp add: be_u64_def)

lemma sha256_message_blocks: "length (sha256_message data) mod 64 = 0"
proof -
  have "length (pad_zeros (data @ [0x80])) mod 64 = 56" using pad_zeros_spec by blast
  then show ?thesis by (simp add: sha256_message_def mod_add_left_eq [of _ 64 8, symmetric])
qed

lemma sha256_message_prefix: "take (length data) (sha256_message data) = data"
proof -
  obtain n where "pad_zeros (data @ [0x80]) = (data @ [0x80]) @ replicate n 0"
    using pad_zeros_spec by blast
  then show ?thesis by (simp add: sha256_message_def)
qed

section \<open>Compression\<close>

text \<open>The round constants, in the rows of the source.\<close>

definition sha256_k :: "u32 list" where
  "sha256_k = concat
    [[0x428a2f98, 0x71374491, 0xb5c0fbcf, 0xe9b5dba5, 0x3956c25b, 0x59f111f1],
     [0x923f82a4, 0xab1c5ed5, 0xd807aa98, 0x12835b01, 0x243185be, 0x550c7dc3],
     [0x72be5d74, 0x80deb1fe, 0x9bdc06a7, 0xc19bf174, 0xe49b69c1, 0xefbe4786],
     [0x0fc19dc6, 0x240ca1cc, 0x2de92c6f, 0x4a7484aa, 0x5cb0a9dc, 0x76f988da],
     [0x983e5152, 0xa831c66d, 0xb00327c8, 0xbf597fc7, 0xc6e00bf3, 0xd5a79147],
     [0x06ca6351, 0x14292967, 0x27b70a85, 0x2e1b2138, 0x4d2c6dfc, 0x53380d13],
     [0x650a7354, 0x766a0abb, 0x81c2c92e, 0x92722c85, 0xa2bfe8a1, 0xa81a664b],
     [0xc24b8b70, 0xc76c51a3, 0xd192e819, 0xd6990624, 0xf40e3585, 0x106aa070],
     [0x19a4c116, 0x1e376c08, 0x2748774c, 0x34b0bcb5, 0x391c0cb3, 0x4ed8aa4a],
     [0x5b9cca4f, 0x682e6ff3, 0x748f82ee, 0x78a5636f, 0x84c87814, 0x8cc70208],
     [0x90befffa, 0xa4506ceb, 0xbef9a3f7, 0xc67178f2]]"

definition rotr :: "u32 \<Rightarrow> nat \<Rightarrow> u32" where
  "rotr x n = drop_bit n x OR push_bit (32 - n) x"

text \<open>The schedule: sixteen big-endian words of the block, then forty-eight derived ones.\<close>

definition schedule_word :: "u32 list \<Rightarrow> nat \<Rightarrow> u32 list" where
  "schedule_word w i =
    (let s0 = rotr (w ! (i - 15)) 7 XOR rotr (w ! (i - 15)) 18 XOR drop_bit 3 (w ! (i - 15));
         s1 = rotr (w ! (i - 2)) 17 XOR rotr (w ! (i - 2)) 19 XOR drop_bit 10 (w ! (i - 2))
     in w @ [w ! (i - 16) + s0 + w ! (i - 7) + s1])"

definition schedule :: "bytes \<Rightarrow> u32 list" where
  "schedule block = foldl schedule_word
    (map (\<lambda>i. push_bit 24 (ucast (block ! (i * 4))) OR push_bit 16 (ucast (block ! (i * 4 + 1)))
       OR push_bit 8 (ucast (block ! (i * 4 + 2))) OR ucast (block ! (i * 4 + 3))) [0..<16])
    [16..<64]"

type_synonym sha_state = "u32 \<times> u32 \<times> u32 \<times> u32 \<times> u32 \<times> u32 \<times> u32 \<times> u32"

definition sha256_round :: "u32 list \<Rightarrow> sha_state \<Rightarrow> nat \<Rightarrow> sha_state" where
  "sha256_round w st i =
    (case st of (a, b, c, d, e, f, g, hh) \<Rightarrow>
       let S1 = rotr e 6 XOR rotr e 11 XOR rotr e 25;
           ch = (e AND f) XOR (NOT e AND g);
           temp1 = hh + S1 + ch + sha256_k ! i + w ! i;
           S0 = rotr a 2 XOR rotr a 13 XOR rotr a 22;
           maj = (a AND b) XOR (a AND c) XOR (b AND c);
           temp2 = S0 + maj
       in (temp1 + temp2, a, b, c, d + temp1, e, f, g))"

definition sha256_block :: "sha_state \<Rightarrow> bytes \<Rightarrow> sha_state" where
  "sha256_block h block =
    (case h of (h0, h1, h2, h3, h4, h5, h6, h7) \<Rightarrow>
       case foldl (sha256_round (schedule block)) h [0..<64] of (a, b, c, d, e, f, g, hh) \<Rightarrow>
         (h0 + a, h1 + b, h2 + c, h3 + d, h4 + e, h5 + f, h6 + g, h7 + hh))"

definition sha256_init :: sha_state where
  "sha256_init = (0x6a09e667, 0xbb67ae85, 0x3c6ef372, 0xa54ff53a,
     0x510e527f, 0x9b05688c, 0x1f83d9ab, 0x5be0cd19)"

function sha256_blocks :: "sha_state \<Rightarrow> bytes \<Rightarrow> sha_state" where
  "sha256_blocks h msg =
    (if msg = [] then h else sha256_blocks (sha256_block h (take 64 msg)) (drop 64 msg))"
  by pat_completeness auto
termination by (relation "measure (\<lambda>(h, msg). length msg)") auto

declare sha256_blocks.simps [simp del]

definition be_u32 :: "u32 \<Rightarrow> bytes" where
  "be_u32 v = [ucast (drop_bit 24 v AND 0xFF), ucast (drop_bit 16 v AND 0xFF),
     ucast (drop_bit 8 v AND 0xFF), ucast (v AND 0xFF)]"

definition sha256 :: "bytes \<Rightarrow> bytes" where
  "sha256 data =
    (case sha256_blocks sha256_init (sha256_message data) of (a, b, c, d, e, f, g, h) \<Rightarrow>
       concat (map be_u32 [a, b, c, d, e, f, g, h]))"

definition hex_char :: "u8 \<Rightarrow> char" where
  "hex_char n = ''0123456789abcdef'' ! unat n"

definition sha256_hex_of :: "bytes \<Rightarrow> string" where
  "sha256_hex_of digest =
    concat (map (\<lambda>b. [hex_char (drop_bit 4 b AND 0xF), hex_char (b AND 0xF)]) digest)"

definition sha256_hex :: "bytes \<Rightarrow> string" where
  "sha256_hex data = sha256_hex_of (sha256 data)"

section \<open>Shape of the digest\<close>

lemma sha256_length [simp]: "length (sha256 data) = 32"
  by (simp add: sha256_def be_u32_def split: prod.split)

lemma sha256_hex_length: "length (sha256_hex data) = 64"
proof -
  have "length (sha256_hex_of d) = 2 * length d" for d
    by (induction d) (simp_all add: sha256_hex_of_def)
  then show ?thesis by (simp add: sha256_hex_def)
qed

end
