(* ===== verification/RR_Persistence.thy ===== *)
theory RR_Persistence
  imports RR_Records RR_Sha256 RR_Authority
begin

text \<open>
  The persistent form of a registry (\<^verbatim>\<open>persistence.hpp\<close> and the functions
  \<^verbatim>\<open>serialize_to\<close>, \<^verbatim>\<open>semantic_digest\<close> and
  \<^verbatim>\<open>load_from\<close> of \<^verbatim>\<open>persistence.cpp\<close>): magic and version, the
  generations and counters, the number of records of each kind, the records in the order of their
  identities, the histories, a CRC-32 and a SHA-256 digest.

  Loading checks the checksums, the magic, the version and the counts before it touches the
  registry. From then on it writes into the registry while it parses, so a malformed record leaves
  a registry that holds neither the old records nor the new ones.
\<close>

section \<open>Writing\<close>

definition kPersistMagic :: u32 where "kPersistMagic = 0x52525031"
definition kPersistVersion :: u8 where "kPersistVersion = 1"
definition kMaxRecordsPerMap :: nat where "kMaxRecordsPerMap = 10000000"

text \<open>The values of a map, in the order of the keys.\<close>

definition sorted_records :: "('tag Id, 'v) hmap \<Rightarrow> 'v list" where
  "sorted_records m = map (\<lambda>k. the (hm_find m k)) (sort_key id_value (hm_keys m))"

definition serialize_sorted :: "('v \<Rightarrow> bytes) \<Rightarrow> ('tag Id, 'v) hmap \<Rightarrow> bytes" where
  "serialize_sorted put m = concat (map put (sorted_records m))"

text \<open>The fixed part of the header: the seventeen generations and the two counters.\<close>

definition persisted_counters :: "Registry \<Rightarrow> u64 list" where
  "persisted_counters r =
    (let a = r_authority r in
      [gen_value (ra_epoch a), gen_value (ra_registry_generation a),
       gen_value (ra_record_generation a), gen_value (ra_service_gen a),
       gen_value (ra_instance_gen a), gen_value (ra_runtime_gen a),
       gen_value (ra_runtime_instance_gen a), gen_value (ra_endpoint_gen a),
       gen_value (ra_protocol_gen a), gen_value (ra_backend_gen a), gen_value (ra_device_gen a),
       gen_value (ra_capability_gen a), gen_value (ra_lease_gen a), gen_value (ra_node_gen a),
       gen_value (ra_compat_gen a), gen_value (ra_trust_gen a), gen_value (ra_authority_gen a),
       r_next_boot r, r_next_id r])"

definition persisted_sizes :: "Registry \<Rightarrow> nat list" where
  "persisted_sizes r =
    [length (r_services r), length (r_instances r), length (r_runtimes r),
     length (r_runtime_instances r), length (r_endpoints r), length (r_protocols r),
     length (r_backends r), length (r_devices r), length (r_capabilities r), length (r_nodes r),
     length (r_leases r), length (r_tombstones r), length (r_compat_records r),
     length (r_invalidations r), length (r_instance_history r), length (r_runtime_history r),
     length (r_endpoint_history r), length (r_capability_history r)]"

definition persisted_records :: "Registry \<Rightarrow> bytes" where
  "persisted_records r =
    serialize_sorted put_servicedesc (r_services r)
     @ serialize_sorted put_instance (r_instances r)
     @ serialize_sorted put_runtime (r_runtimes r)
     @ serialize_sorted put_runtime (r_runtime_instances r)
     @ serialize_sorted put_endpoint (r_endpoints r)
     @ serialize_sorted put_protocol (r_protocols r)
     @ serialize_sorted put_backend (r_backends r)
     @ serialize_sorted put_device (r_devices r)
     @ serialize_sorted put_capability (r_capabilities r)
     @ serialize_sorted put_node (r_nodes r)
     @ serialize_sorted put_lease (r_leases r)
     @ serialize_sorted put_tombstone (r_tombstones r)
     @ serialize_sorted put_compat (r_compat_records r)
     @ concat (map put_invalidation (r_invalidations r))
     @ concat (map put_instance (r_instance_history r))
     @ concat (map put_runtime (r_runtime_history r))
     @ concat (map put_endpoint (r_endpoint_history r))
     @ concat (map put_capability (r_capability_history r))"

definition persisted_content :: "Registry \<Rightarrow> bytes" where
  "persisted_content r =
    put_u32 kPersistMagic @ put_u8 kPersistVersion
     @ concat (map put_u64 (persisted_counters r))
     @ concat (map (\<lambda>n. put_u32 (of_nat n)) (persisted_sizes r))
     @ persisted_records r"

definition serialize :: "Registry \<Rightarrow> bytes" where
  "serialize r =
    (let out = persisted_content r in out @ put_u32 (crc32 out 0) @ sha256 out)"

definition semantic_digest :: "Registry \<Rightarrow> string" where
  "semantic_digest r = sha256_hex (serialize r)"

section \<open>Reading records into the registry\<close>

definition malformed :: "string \<Rightarrow> (RegistryError, unit) outcome" where
  "malformed msg = Throw (RegistryError MALFORMED msg)"

fun load_services ::
  "nat \<Rightarrow> (ServiceId, ServiceDescriptor) hmap \<Rightarrow> Reader \<Rightarrow>
    (RegistryError, unit) outcome \<times> (ServiceId, ServiceDescriptor) hmap \<times> Reader" where
  "load_services 0 m rd = (Return (), m, rd)"
| "load_services (Suc n) m rd =
    (case run_state get_servicedesc rd of
       ((kind, s), rd') \<Rightarrow>
         if \<not> rd_ok rd' then (malformed ''malformed service record'', m, rd')
         else if hm_find m (svc_service_id s) \<noteq> None
         then (malformed ''duplicate service identity'', m, rd')
         else if kind > 16 then (malformed ''invalid service kind'', m, rd')
         else load_services n (hm_put (svc_service_id s) s m) rd')"

text \<open>The loop of the other maps, with the name of the record in its messages.\<close>

fun load_map ::
  "'v reader \<Rightarrow> ('v \<Rightarrow> 'k) \<Rightarrow> string \<Rightarrow> nat \<Rightarrow> ('k, 'v) hmap \<Rightarrow> Reader \<Rightarrow>
    (RegistryError, unit) outcome \<times> ('k, 'v) hmap \<times> Reader" where
  "load_map get key what 0 m rd = (Return (), m, rd)"
| "load_map get key what (Suc n) m rd =
    (case run_state get rd of
       (x, rd') \<Rightarrow>
         if \<not> rd_ok rd' then (malformed (''malformed '' @ what @ '' record''), m, rd')
         else if hm_find m (key x) \<noteq> None
         then (malformed (''duplicate '' @ what @ '' identity''), m, rd')
         else load_map get key what n (hm_put (key x) x m) rd')"

fun load_list ::
  "'v reader \<Rightarrow> string \<Rightarrow> nat \<Rightarrow> 'v list \<Rightarrow> Reader \<Rightarrow>
    (RegistryError, unit) outcome \<times> 'v list \<times> Reader" where
  "load_list get msg 0 xs rd = (Return (), xs, rd)"
| "load_list get msg (Suc n) xs rd =
    (case run_state get rd of
       (x, rd') \<Rightarrow>
         if \<not> rd_ok rd' then (malformed msg, xs, rd')
         else load_list get msg n (xs @ [x]) rd')"

text \<open>The loops run one after the other on the cursor and the registry; a throw ends them all.\<close>

type_synonym loader =
  "Reader \<times> Registry \<Rightarrow> (RegistryError, unit) outcome \<times> Reader \<times> Registry"

definition store ::
  "(Registry \<Rightarrow> 'm) \<Rightarrow> (('m \<Rightarrow> 'm) \<Rightarrow> Registry \<Rightarrow> Registry) \<Rightarrow>
    ('m \<Rightarrow> Reader \<Rightarrow> (RegistryError, unit) outcome \<times> 'm \<times> Reader) \<Rightarrow> loader" where
  "store member update loop =
    (\<lambda>(rd, r). case loop (member r) rd of (res, m, rd') \<Rightarrow> (res, rd', update (\<lambda>_. m) r))"

fun in_turn :: "loader list \<Rightarrow> loader" where
  "in_turn [] s = (Return (), s)"
| "in_turn (l # ls) s =
    (case l s of (Return _, s') \<Rightarrow> in_turn ls s' | (Throw e, s') \<Rightarrow> (Throw e, s'))"

definition load_records :: "nat list \<Rightarrow> loader" where
  "load_records n = in_turn
    [store r_services r_services_update (load_services (n ! 0)),
     store r_instances r_instances_update
       (load_map get_instance si_instance_id ''instance'' (n ! 1)),
     store r_runtimes r_runtimes_update (load_map get_runtime rt_runtime_id ''runtime'' (n ! 2)),
     store r_runtime_instances r_runtime_instances_update
       (load_map get_runtime rt_runtime_instance ''runtime instance'' (n ! 3)),
     store r_endpoints r_endpoints_update
       (load_map get_endpoint ep_endpoint_id ''endpoint'' (n ! 4)),
     store r_protocols r_protocols_update
       (load_map get_protocol pd_protocol_id ''protocol'' (n ! 5)),
     store r_backends r_backends_update (load_map get_backend bd_backend_id ''backend'' (n ! 6)),
     store r_devices r_devices_update (load_map get_device dd_device_id ''device'' (n ! 7)),
     store r_capabilities r_capabilities_update
       (load_map get_capability cap_capability_id ''capability'' (n ! 8)),
     store r_nodes r_nodes_update (load_map get_node nd_node_id ''node'' (n ! 9)),
     store r_leases r_leases_update (load_map get_lease ls_lease_id ''lease'' (n ! 10)),
     store r_tombstones r_tombstones_update
       (load_map get_tombstone tb_tombstone_id ''tombstone'' (n ! 11)),
     store r_compat_records r_compat_records_update
       (load_map get_compat cr_compatibility_id ''compatibility'' (n ! 12)),
     store r_invalidations r_invalidations_update
       (load_list get_invalidation ''malformed invalidation record'' (n ! 13)),
     store r_instance_history r_instance_history_update
       (load_list get_instance ''malformed history instance'' (n ! 14)),
     store r_runtime_history r_runtime_history_update
       (load_list get_runtime ''malformed history runtime'' (n ! 15)),
     store r_endpoint_history r_endpoint_history_update
       (load_list get_endpoint ''malformed history endpoint'' (n ! 16)),
     store r_capability_history r_capability_history_update
       (load_list get_capability ''malformed history capability'' (n ! 17))]"

section \<open>Loading\<close>

definition clear_records :: "Registry \<Rightarrow> Registry" where
  "clear_records r =
    r\<lparr>r_services := [], r_instances := [], r_runtimes := [], r_runtime_instances := [],
      r_endpoints := [], r_protocols := [], r_backends := [], r_devices := [],
      r_capabilities := [], r_nodes := [], r_leases := [], r_tombstones := [],
      r_compat_records := [], r_invalidations := [], r_instance_history := [],
      r_runtime_history := [], r_endpoint_history := [], r_capability_history := []\<rparr>"

definition restore_counters :: "u64 list \<Rightarrow> Registry \<Rightarrow> Registry" where
  "restore_counters g r =
    r\<lparr>r_authority := (r_authority r)
        \<lparr>ra_epoch := MkGen (g ! 0), ra_registry_generation := MkGen (g ! 1),
         ra_record_generation := MkGen (g ! 2), ra_service_gen := MkGen (g ! 3),
         ra_instance_gen := MkGen (g ! 4), ra_runtime_gen := MkGen (g ! 5),
         ra_runtime_instance_gen := MkGen (g ! 6), ra_endpoint_gen := MkGen (g ! 7),
         ra_protocol_gen := MkGen (g ! 8), ra_backend_gen := MkGen (g ! 9),
         ra_device_gen := MkGen (g ! 10), ra_capability_gen := MkGen (g ! 11),
         ra_lease_gen := MkGen (g ! 12), ra_node_gen := MkGen (g ! 13),
         ra_compat_gen := MkGen (g ! 14), ra_trust_gen := MkGen (g ! 15),
         ra_authority_gen := MkGen (g ! 16)\<rparr>,
      r_next_boot := g ! 17, r_next_id := g ! 18\<rparr>"

text \<open>Recovery: no process is known to live, so whatever claims to be reachable is revalidated.\<close>

definition revalidate_all :: "Registry \<Rightarrow> Registry" where
  "revalidate_all r =
    r\<lparr>r_authority := (r_authority r)
        \<lparr>ra_live_boots := [], ra_current_boot := [], ra_boot_worker := []\<rparr>,
      r_instances := hm_map revalidate_instance (r_instances r),
      r_endpoints := hm_map revalidate_endpoint (r_endpoints r),
      r_capabilities := hm_map revalidate_capability (r_capabilities r),
      r_leases := hm_map revalidate_lease (r_leases r)\<rparr>"

definition count_lifecycle :: "Lifecycle \<Rightarrow> Registry \<Rightarrow> int" where
  "count_lifecycle l r =
    int (length (filter (\<lambda>(_, inst). si_lifecycle inst = l) (r_instances r)))"

definition rebuild_accounting :: "Registry \<Rightarrow> Registry" where
  "rebuild_accounting r =
    r\<lparr>r_accounting := default_Accounting
        \<lparr>ac_services := int (length (r_services r)),
         ac_service_instances := int (length (r_instances r)),
         ac_runtimes := int (length (r_runtimes r)),
         ac_runtime_instances := int (length (r_runtime_instances r)),
         ac_nodes := int (length (r_nodes r)),
         ac_endpoints := int (length (r_endpoints r)),
         ac_protocols := int (length (r_protocols r)),
         ac_backends := int (length (r_backends r)),
         ac_devices := int (length (r_devices r)),
         ac_capabilities := int (length (r_capabilities r)),
         ac_leases := int (length (r_leases r)),
         ac_available_instances := count_lifecycle Lifecycle.AVAILABLE r,
         ac_stale_instances := count_lifecycle Lifecycle.STALE r,
         ac_unreachable_instances := count_lifecycle Lifecycle.UNREACHABLE r\<rparr>\<rparr>"

definition recover :: "Registry \<Rightarrow> Registry" where
  "recover r = rebuild_accounting (rebuild_indexes (revalidate_all r))"

definition rd_count :: "u32 reader" where
  "rd_count = do {
     c \<leftarrow> rd_u32;
     (if unat c > kMaxRecordsPerMap then rd_fail else State_Monad.return ());
     State_Monad.return c
   }"

text \<open>Everything after the header has been read.\<close>

definition load_body ::
  "u64 list \<Rightarrow> nat list \<Rightarrow> Reader \<Rightarrow> Registry \<Rightarrow> ((RegistryError, unit) outcome \<times> Registry) option"
where
  "load_body gens counts rd r =
    (case load_records counts (rd, clear_records r) of
       (res, rd', r') \<Rightarrow>
         if rd_wild rd' then None
         else case res of
           Throw e \<Rightarrow> Some (Throw e, r')
         | Return _ \<Rightarrow>
             if \<not> rd_ok rd'
             then Some (throw MALFORMED ''truncated/malformed persistence record'' r')
             else if rd_rest rd' \<noteq> []
             then Some (throw MALFORMED ''trailing garbage in persistence'' r')
             else Some (Return (), recover (restore_counters gens r')))"

definition load_content ::
  "bytes \<Rightarrow> Registry \<Rightarrow> ((RegistryError, unit) outcome \<times> Registry) option" where
  "load_content content r =
    (let (magic, rd1) = run_state rd_u32 (reader content)
     in if magic \<noteq> kPersistMagic then Some (throw MALFORMED ''persistence bad magic'' r)
        else
          let (version, rd2) = run_state rd_u8 rd1
          in if version \<noteq> kPersistVersion
             then Some (throw MALFORMED ''persistence unsupported version'' r)
             else
               let (gens, rd3) = run_state (rd_times 19 rd_u64) rd2;
                   (counts, rd4) = run_state (rd_times 18 rd_count) rd3
               in if \<not> rd_ok rd4 then Some (throw MALFORMED ''impossible counts'' r)
                  else load_body gens (map unat counts) rd4 r)"

definition load_from ::
  "bytes option \<Rightarrow> Registry \<Rightarrow> ((RegistryError, unit) outcome \<times> Registry) option" where
  "load_from buffer r =
    (case buffer of
       None \<Rightarrow> Some (throw MALFORMED ''persistence too short'' r)
     | Some data \<Rightarrow>
         if length data < 46 then Some (throw MALFORMED ''persistence too short'' r)
         else
           let content_len = length data - 36;
               content = take content_len data;
               stored_crc = get_u32 data content_len;
               stored_sha = take 32 (drop (content_len + 4) data)
           in if crc32 content 0 \<noteq> stored_crc
              then Some (throw MALFORMED ''persistence CRC mismatch'' r)
              else if sha256 content \<noteq> stored_sha
              then Some (throw MALFORMED ''persistence semantic digest mismatch'' r)
              else load_content content r)"

end
