(* ===== verification/RR_Recovery.thy ===== *)
theory RR_Recovery
  imports RR_Persistence RR_Invariants
begin

text \<open>
  What persistence promises: the bytes do not depend on the iteration order of the maps, loading
  them gives the persisted records back with every liveness claim withdrawn, whatever loads is
  a consistent registry in which no worker has authority, and a changed byte is rejected.
\<close>

section \<open>Sorted maps\<close>

lemma inj_id_value: "inj id_value"
  by (rule injI) (rule Id.expand)

lemma sort_ids_unique:
  fixes xs ys :: "'tag Id list"
  assumes "distinct xs" "distinct ys" "set xs = set ys"
  shows "sort_key id_value xs = sort_key id_value ys"
proof (rule map_injective [where f = id_value])
  show "map id_value (sort_key id_value xs) = map id_value (sort_key id_value ys)"
    by (rule sorted_distinct_set_unique)
      (use assms in \<open>simp_all add: distinct_map inj_on_subset [OF inj_id_value]\<close>)
qed (rule inj_id_value)

text \<open>Two containers with the same entries; only their iteration order may differ.\<close>

definition same_map :: "('k, 'v) hmap \<Rightarrow> ('k, 'v) hmap \<Rightarrow> bool" where
  "same_map m m' \<longleftrightarrow> hm_wf m \<and> hm_wf m' \<and> set m = set m'"

lemma same_map_find: "same_map m m' \<Longrightarrow> hm_find m k = hm_find m' k"
  by (metis hm_find_iff not_None_eq same_map_def)

lemma same_map_length: "same_map m m' \<Longrightarrow> length m = length m'"
  by (metis distinct_card distinct_map hm_wf_def same_map_def)

lemma sorted_records_same: "same_map m m' \<Longrightarrow> sorted_records m = sorted_records m'"
proof -
  assume same: "same_map m m'"
  then have "sort_key id_value (hm_keys m) = sort_key id_value (hm_keys m')"
    by (intro sort_ids_unique) (auto simp: same_map_def hm_wf_def hm_keys_def image_def)
  then show ?thesis by (simp add: sorted_records_def same_map_find [OF same])
qed

lemma length_sorted_records [simp]: "length (sorted_records m) = length m"
  by (simp add: sorted_records_def hm_keys_def)

text \<open>A map whose entries sit under their own identity, as a reader of the records can rebuild it.\<close>

definition map_ok :: "('v \<Rightarrow> bool) \<Rightarrow> ('v \<Rightarrow> 'tag Id) \<Rightarrow> ('tag Id, 'v) hmap \<Rightarrow> bool" where
  "map_ok ok key m \<longleftrightarrow>
    hm_wf m \<and> length m \<le> kMaxRecordsPerMap \<and> list_all (\<lambda>(k, v). key v = k \<and> ok v) m"

definition sorted_map :: "('v \<Rightarrow> 'tag Id) \<Rightarrow> ('tag Id, 'v) hmap \<Rightarrow> ('tag Id, 'v) hmap" where
  "sorted_map key m = map (\<lambda>v. (key v, v)) (sorted_records m)"

lemma map_ok_entry: "map_ok ok key m \<Longrightarrow> hm_find m k = Some v \<Longrightarrow> key v = k \<and> ok v"
  by (auto simp: map_ok_def list_all_iff dest: hm_find_in_set)

lemma hm_key_find: "k \<in> set (hm_keys m) \<Longrightarrow> \<exists>v. hm_find m k = Some v"
  by (metis hm_find_None_iff hm_keys_def list.set_map not_None_eq)

lemma sorted_records_ok: "map_ok ok key m \<Longrightarrow> list_all ok (sorted_records m)"
  by (auto simp: sorted_records_def list_all_iff dest!: hm_key_find dest: map_ok_entry)

lemma sorted_map_alt:
  assumes "map_ok ok key m"
  shows "sorted_map key m =
    map (\<lambda>k. (k, the (hm_find m k))) (sort_key id_value (hm_keys m))"
proof -
  have "key (the (hm_find m k)) = k" if "k \<in> set (hm_keys m)" for k
    using hm_key_find [OF that] map_ok_entry [OF assms] by auto
  then show ?thesis by (simp add: sorted_map_def sorted_records_def)
qed

lemma sorted_map_same:
  assumes ok: "map_ok ok key m"
  shows "same_map (sorted_map key m) m"
proof -
  have wf: "hm_wf m" using ok by (simp add: map_ok_def)
  have "hm_wf (sorted_map key m)"
    using wf by (simp add: sorted_map_alt [OF ok] hm_wf_def hm_keys_def comp_def)
  moreover have "(k, the (hm_find m k)) = (k, v)" if "(k, v) \<in> set m" for k v
    using that wf by (simp add: hm_find_iff [symmetric])
  then have "(\<lambda>k. (k, the (hm_find m k))) ` fst ` set m = set m"
    by (force simp: image_image image_iff)
  then have "set (sorted_map key m) = set m"
    by (simp add: sorted_map_alt [OF ok] hm_keys_def)
  ultimately show ?thesis using wf by (simp add: same_map_def)
qed

section \<open>Parsing what was written\<close>

lemma reader_flags [simp]: "rd_ok (reader data)" "\<not> rd_wild (reader data)" "rd_rest (reader data) = data"
  by (simp_all add: reader_def)

lemma hm_put_new: "hm_find m k = None \<Longrightarrow> hm_put k v m = m @ [(k, v)]"
  by (induction m) (auto split: if_splits)

lemma hm_find_append:
  "hm_find (m @ m') k = (case hm_find m k of None \<Rightarrow> hm_find m' k | Some v \<Rightarrow> Some v)"
  by (induction m) auto

text \<open>The identities a loop has not seen yet.\<close>

definition fresh_keys :: "('v \<Rightarrow> 'k) \<Rightarrow> 'v list \<Rightarrow> ('k, 'v) hmap \<Rightarrow> bool" where
  "fresh_keys key xs m \<longleftrightarrow> distinct (map key xs) \<and> (\<forall>x \<in> set xs. hm_find m (key x) = None)"

lemma fresh_keys_Cons:
  "fresh_keys key (x # xs) m \<longleftrightarrow>
    hm_find m (key x) = None \<and> fresh_keys key xs (m @ [(key x, x)])"
proof -
  have absent: "hm_find (m @ [(key x, x)]) k = None \<longleftrightarrow> hm_find m k = None \<and> k \<noteq> key x" for k
    by (simp add: hm_find_append split: option.split)
  have "key x \<notin> key ` set xs \<longleftrightarrow> (\<forall>y \<in> set xs. key y \<noteq> key x)"
    unfolding image_iff by metis
  then show ?thesis
    unfolding fresh_keys_def absent by simp blast
qed

context codec begin

lemma load_map_put:
  "list_all ok xs \<Longrightarrow> fresh_keys key xs m \<Longrightarrow>
    load_map get key what (length xs) m (reader (concat (map put xs) @ rest)) =
      (Return (), m @ map (\<lambda>x. (key x, x)) xs, reader rest)"
  by (induction xs arbitrary: m) (simp_all add: fresh_keys_Cons get_put hm_put_new)

lemma load_sorted:
  assumes "map_ok ok key m"
  shows "load_map get key what (length m) [] (reader (serialize_sorted put m @ rest)) =
    (Return (), sorted_map key m, reader rest)"
proof -
  have "hm_wf (sorted_map key m)" using sorted_map_same [OF assms] by (simp add: same_map_def)
  then have "fresh_keys key (sorted_records m) []"
    by (simp add: fresh_keys_def hm_wf_def sorted_map_def comp_def)
  from load_map_put [OF sorted_records_ok [OF assms] this]
  show ?thesis by (simp add: serialize_sorted_def sorted_map_def)
qed

lemma load_list_put:
  "list_all ok xs \<Longrightarrow>
    load_list get msg (length xs) ys (reader (concat (map put xs) @ rest)) =
      (Return (), ys @ xs, reader rest)"
  by (induction xs arbitrary: ys) (simp_all add: get_put)

end

lemma kind_code_small: "\<not> enum_code enum_ServiceKind k > 16"
  using ServiceKind_enum.enum_code(1) [of k] by (simp add: enum_ServiceKind_def word_less_nat_alt)

lemma load_services_put:
  "list_all servicedesc_ok xs \<Longrightarrow> fresh_keys svc_service_id xs m \<Longrightarrow>
    load_services (length xs) m (reader (concat (map put_servicedesc xs) @ rest)) =
      (Return (), m @ map (\<lambda>x. (svc_service_id x, x)) xs, reader rest)"
  by (induction xs arbitrary: m)
    (simp_all add: fresh_keys_Cons get_put_servicedesc hm_put_new kind_code_small)

lemma load_sorted_services:
  assumes "map_ok servicedesc_ok svc_service_id m"
  shows "load_services (length m) [] (reader (serialize_sorted put_servicedesc m @ rest)) =
    (Return (), sorted_map svc_service_id m, reader rest)"
proof -
  have "hm_wf (sorted_map svc_service_id m)"
    using sorted_map_same [OF assms] by (simp add: same_map_def)
  then have "fresh_keys svc_service_id (sorted_records m) []"
    by (simp add: fresh_keys_def hm_wf_def sorted_map_def comp_def)
  from load_services_put [OF sorted_records_ok [OF assms] this]
  show ?thesis by (simp add: serialize_sorted_def sorted_map_def)
qed

definition list_ok :: "('v \<Rightarrow> bool) \<Rightarrow> 'v list \<Rightarrow> bool" where
  "list_ok ok xs \<longleftrightarrow> length xs \<le> kMaxRecordsPerMap \<and> list_all ok xs"

text \<open>Every record within the caps of the readers, under its own identity.\<close>

definition persistable :: "Registry \<Rightarrow> bool" where
  "persistable r \<longleftrightarrow>
    map_ok servicedesc_ok svc_service_id (r_services r) \<and>
    map_ok instance_ok si_instance_id (r_instances r) \<and>
    map_ok runtime_ok rt_runtime_id (r_runtimes r) \<and>
    map_ok runtime_ok rt_runtime_instance (r_runtime_instances r) \<and>
    map_ok endpoint_ok ep_endpoint_id (r_endpoints r) \<and>
    map_ok protocol_ok pd_protocol_id (r_protocols r) \<and>
    map_ok backend_ok bd_backend_id (r_backends r) \<and>
    map_ok device_ok dd_device_id (r_devices r) \<and>
    map_ok capability_ok cap_capability_id (r_capabilities r) \<and>
    map_ok node_ok nd_node_id (r_nodes r) \<and>
    map_ok lease_ok ls_lease_id (r_leases r) \<and>
    map_ok tombstone_ok tb_tombstone_id (r_tombstones r) \<and>
    map_ok compat_ok cr_compatibility_id (r_compat_records r) \<and>
    list_ok invalidation_ok (r_invalidations r) \<and>
    list_ok instance_ok (r_instance_history r) \<and>
    list_ok runtime_ok (r_runtime_history r) \<and>
    list_ok endpoint_ok (r_endpoint_history r) \<and>
    list_ok capability_ok (r_capability_history r)"

text \<open>The registry that the loops build from the bytes of \<open>r\<close>.\<close>

definition reloaded :: "Registry \<Rightarrow> Registry \<Rightarrow> Registry" where
  "reloaded r r0 = r0\<lparr>
     r_services := sorted_map svc_service_id (r_services r),
     r_instances := sorted_map si_instance_id (r_instances r),
     r_runtimes := sorted_map rt_runtime_id (r_runtimes r),
     r_runtime_instances := sorted_map rt_runtime_instance (r_runtime_instances r),
     r_endpoints := sorted_map ep_endpoint_id (r_endpoints r),
     r_protocols := sorted_map pd_protocol_id (r_protocols r),
     r_backends := sorted_map bd_backend_id (r_backends r),
     r_devices := sorted_map dd_device_id (r_devices r),
     r_capabilities := sorted_map cap_capability_id (r_capabilities r),
     r_nodes := sorted_map nd_node_id (r_nodes r),
     r_leases := sorted_map ls_lease_id (r_leases r),
     r_tombstones := sorted_map tb_tombstone_id (r_tombstones r),
     r_compat_records := sorted_map cr_compatibility_id (r_compat_records r),
     r_invalidations := r_invalidations r,
     r_instance_history := r_instance_history r,
     r_runtime_history := r_runtime_history r,
     r_endpoint_history := r_endpoint_history r,
     r_capability_history := r_capability_history r\<rparr>"

lemmas record_loads =
  load_sorted_services instance_codec.load_sorted runtime_codec.load_sorted
  endpoint_codec.load_sorted protocol_codec.load_sorted backend_codec.load_sorted
  device_codec.load_sorted capability_codec.load_sorted node_codec.load_sorted
  lease_codec.load_sorted tombstone_codec.load_sorted compat_codec.load_sorted
  invalidation_codec.load_list_put instance_codec.load_list_put runtime_codec.load_list_put
  endpoint_codec.load_list_put capability_codec.load_list_put

lemma load_records_put:
  assumes "persistable r"
  shows "load_records (persisted_sizes r) (reader (persisted_records r @ rest), clear_records r0) =
    (Return (), reader rest, reloaded r r0)"
  using assms
  by (simp add: load_records_def persisted_sizes_def persisted_records_def store_def
      persistable_def list_ok_def record_loads clear_records_def reloaded_def)

section \<open>Loading what was written\<close>

context codec begin

lemma times_put:
  "list_all ok xs \<Longrightarrow>
    run_state (rd_times (length xs) get) (reader (concat (map put xs) @ rest)) = (xs, reader rest)"
  by (induction xs) (simp_all add: get_put)

end

interpretation counters_codec: codec put_u64 rd_u64 "\<lambda>_. True"
  by unfold_locales (rule get_put_u64)

interpretation sizes_codec: codec put_u32 rd_count "\<lambda>c. unat c \<le> kMaxRecordsPerMap"
  by unfold_locales (simp add: rd_count_def codec_simps)

lemma length_counters: "length (persisted_counters r) = 19"
  by (simp add: persisted_counters_def Let_def)

lemma length_sizes: "length (persisted_sizes r) = 18"
  by (simp add: persisted_sizes_def)

lemma counters_put:
  "run_state (rd_times 19 rd_u64) (reader (concat (map put_u64 (persisted_counters r)) @ rest)) =
    (persisted_counters r, reader rest)"
  using counters_codec.times_put [of "persisted_counters r" rest]
  by (simp only: length_counters list.pred_True)

lemma sizes_small: "persistable r \<Longrightarrow> n \<in> set (persisted_sizes r) \<Longrightarrow> n \<le> kMaxRecordsPerMap"
  by (auto simp: persistable_def persisted_sizes_def map_ok_def list_ok_def)

lemma unat_size: "n \<le> kMaxRecordsPerMap \<Longrightarrow> unat (of_nat n :: u32) = n"
  by (simp add: kMaxRecordsPerMap_def unsigned_of_nat take_bit_nat_eq_self)

lemma sizes_put:
  assumes "persistable r"
  shows "run_state (rd_times 18 rd_count)
      (reader (concat (map (\<lambda>n. put_u32 (of_nat n)) (persisted_sizes r)) @ rest)) =
    (map of_nat (persisted_sizes r), reader rest)"
proof -
  have "list_all (\<lambda>c. unat c \<le> kMaxRecordsPerMap) (map of_nat (persisted_sizes r) :: u32 list)"
    using sizes_small [OF assms] by (auto simp: list_all_iff unat_size)
  from sizes_codec.times_put [OF this, of rest] show ?thesis
    by (simp only: length_map length_sizes map_map comp_def)
qed

lemma sizes_back:
  "persistable r \<Longrightarrow> map unat (map of_nat (persisted_sizes r) :: u32 list) = persisted_sizes r"
  unfolding map_map comp_def by (rule map_idI) (simp add: unat_size sizes_small)

lemma load_content_put:
  assumes "persistable r"
  shows "load_content (persisted_content r) r0 =
    Some (Return (), recover (restore_counters (persisted_counters r) (reloaded r r0)))"
proof -
  have "load_body (persisted_counters r) (persisted_sizes r) (reader (persisted_records r)) r0 =
      Some (Return (), recover (restore_counters (persisted_counters r) (reloaded r r0)))"
    using load_records_put [OF assms, of "[]" r0] by (simp add: load_body_def)
  then show ?thesis
    using sizes_back [OF assms]
    by (simp add: load_content_def persisted_content_def codec_simps counters_put sizes_put assms)
qed

text \<open>The checksums of a buffer: the content, its CRC-32 and its digest.\<close>

definition seal :: "bytes \<Rightarrow> bytes" where
  "seal content = content @ put_u32 (crc32 content 0) @ sha256 content"

lemma serialize_seal: "serialize r = seal (persisted_content r)"
  by (simp add: serialize_def seal_def Let_def)

lemma load_sealed:
  assumes "10 \<le> length content"
  shows "load_from (Some (seal content)) r0 = load_content content r0"
proof -
  have "get_u32 (seal content) (length content) = crc32 content 0"
    unfolding seal_def by (rule get_u32_at)
  then show ?thesis
    using assms by (simp add: load_from_def Let_def seal_def)
qed

lemma length_persisted_content: "10 \<le> length (persisted_content r)"
  by (simp add: persisted_content_def persisted_counters_def Let_def put_u64_def)

lemma load_serialized:
  "persistable r \<Longrightarrow> load_from (Some (serialize r)) r0 =
    Some (Return (), recover (restore_counters (persisted_counters r) (reloaded r r0)))"
  by (simp add: serialize_seal load_sealed length_persisted_content load_content_put)

text \<open>
  Only sealed content of at least ten bytes gets past the checksums; anything else is rejected with
  the registry as it was.
\<close>

lemma load_from_cases:
  "(\<exists>content. data = seal content \<and> 10 \<le> length content \<and>
      load_from (Some data) r = load_content content r)
   \<or> (\<exists>msg. load_from (Some data) r = Some (throw MALFORMED msg r))"
proof (cases "length data < 46")
  case False
  define content where "content = take (length data - 36) data"
  have parts: "data = content @ take 4 (drop (length data - 36) data)
      @ take 32 (drop (length data - 32) data)"
  proof -
    have "drop (length data - 36) data = take 4 (drop (length data - 36) data)
        @ drop 4 (drop (length data - 36) data)" by (rule append_take_drop_id [symmetric])
    moreover have "drop 4 (drop (length data - 36) data) = take 32 (drop (length data - 32) data)"
      using False by (simp add: Suc_diff_le)
    ultimately show ?thesis by (metis append_take_drop_id content_def)
  qed
  show ?thesis
  proof (cases "crc32 content 0 = get_u32 data (length data - 36)
      \<and> sha256 content = take 32 (drop (length data - 32) data)")
    case True
    moreover have "put_u32 (get_u32 data (length data - 36)) = take 4 (drop (length data - 36) data)"
      using False by (intro put_u32_at) simp
    ultimately have "data = seal content" using parts by (simp add: seal_def)
    moreover have "10 \<le> length content" using False by (simp add: content_def)
    ultimately show ?thesis using load_sealed by metis
  next
    case mismatch: False
    have "length data - 36 + 4 = length data - 32" using False by simp
    then show ?thesis using False mismatch
      by (auto simp: load_from_def Let_def content_def)
  qed
qed (auto simp: load_from_def)

section \<open>The loaded registry\<close>

text \<open>What recovery keeps, member by member.\<close>

lemma rebuild_indexes_more [simp]:
  "r_options (rebuild_indexes r) = r_options r"
  "r_compat_records (rebuild_indexes r) = r_compat_records r"
  "r_invalidations (rebuild_indexes r) = r_invalidations r"
  "r_instance_history (rebuild_indexes r) = r_instance_history r"
  "r_runtime_history (rebuild_indexes r) = r_runtime_history r"
  "r_endpoint_history (rebuild_indexes r) = r_endpoint_history r"
  "r_capability_history (rebuild_indexes r) = r_capability_history r"
  by (simp_all add: rebuild_indexes_def split: prod.splits)

lemma recover_simps [simp]:
  "r_options (recover r) = r_options r"
  "r_authority (recover r) =
    (r_authority r)\<lparr>ra_live_boots := [], ra_current_boot := [], ra_boot_worker := []\<rparr>"
  "r_services (recover r) = r_services r"
  "r_instances (recover r) = hm_map revalidate_instance (r_instances r)"
  "r_runtimes (recover r) = r_runtimes r"
  "r_runtime_instances (recover r) = r_runtime_instances r"
  "r_endpoints (recover r) = hm_map revalidate_endpoint (r_endpoints r)"
  "r_protocols (recover r) = r_protocols r"
  "r_backends (recover r) = r_backends r"
  "r_devices (recover r) = r_devices r"
  "r_capabilities (recover r) = hm_map revalidate_capability (r_capabilities r)"
  "r_nodes (recover r) = r_nodes r"
  "r_leases (recover r) = hm_map revalidate_lease (r_leases r)"
  "r_tombstones (recover r) = r_tombstones r"
  "r_compat_records (recover r) = r_compat_records r"
  "r_invalidations (recover r) = r_invalidations r"
  "r_instance_history (recover r) = r_instance_history r"
  "r_runtime_history (recover r) = r_runtime_history r"
  "r_endpoint_history (recover r) = r_endpoint_history r"
  "r_capability_history (recover r) = r_capability_history r"
  "r_next_boot (recover r) = r_next_boot r"
  "r_next_id (recover r) = r_next_id r"
  by (simp_all add: recover_def revalidate_all_def rebuild_accounting_def)

text \<open>Two registries with the same persistent contents.\<close>

definition same_contents :: "Registry \<Rightarrow> Registry \<Rightarrow> bool" where
  "same_contents r r' \<longleftrightarrow>
    persisted_counters r = persisted_counters r' \<and>
    same_map (r_services r) (r_services r') \<and>
    same_map (r_instances r) (r_instances r') \<and>
    same_map (r_runtimes r) (r_runtimes r') \<and>
    same_map (r_runtime_instances r) (r_runtime_instances r') \<and>
    same_map (r_endpoints r) (r_endpoints r') \<and>
    same_map (r_protocols r) (r_protocols r') \<and>
    same_map (r_backends r) (r_backends r') \<and>
    same_map (r_devices r) (r_devices r') \<and>
    same_map (r_capabilities r) (r_capabilities r') \<and>
    same_map (r_nodes r) (r_nodes r') \<and>
    same_map (r_leases r) (r_leases r') \<and>
    same_map (r_tombstones r) (r_tombstones r') \<and>
    same_map (r_compat_records r) (r_compat_records r') \<and>
    r_invalidations r = r_invalidations r' \<and>
    r_instance_history r = r_instance_history r' \<and>
    r_runtime_history r = r_runtime_history r' \<and>
    r_endpoint_history r = r_endpoint_history r' \<and>
    r_capability_history r = r_capability_history r'"

lemma serialize_same:
  assumes "same_contents r r'"
  shows "serialize r = serialize r'"
proof -
  have "persisted_sizes r = persisted_sizes r'"
    using assms unfolding same_contents_def persisted_sizes_def
    by (auto dest!: same_map_length)
  moreover have "persisted_records r = persisted_records r'"
    using assms unfolding same_contents_def persisted_records_def serialize_sorted_def
    by (auto dest!: sorted_records_same)
  ultimately show ?thesis
    using assms by (simp add: serialize_seal persisted_content_def same_contents_def)
qed

text \<open>
  What recovery makes of contents: the records that claim liveness are revalidated, the others
  are kept.
\<close>

definition revalidated :: "Registry \<Rightarrow> Registry" where
  "revalidated r = r\<lparr>
     r_instances := hm_map revalidate_instance (r_instances r),
     r_endpoints := hm_map revalidate_endpoint (r_endpoints r),
     r_capabilities := hm_map revalidate_capability (r_capabilities r),
     r_leases := hm_map revalidate_lease (r_leases r)\<rparr>"

lemma revalidated_simps [simp]:
  "persisted_counters (revalidated r) = persisted_counters r"
  "r_services (revalidated r) = r_services r"
  "r_runtimes (revalidated r) = r_runtimes r"
  "r_runtime_instances (revalidated r) = r_runtime_instances r"
  "r_protocols (revalidated r) = r_protocols r"
  "r_backends (revalidated r) = r_backends r"
  "r_devices (revalidated r) = r_devices r"
  "r_nodes (revalidated r) = r_nodes r"
  "r_tombstones (revalidated r) = r_tombstones r"
  "r_compat_records (revalidated r) = r_compat_records r"
  "r_invalidations (revalidated r) = r_invalidations r"
  "r_instance_history (revalidated r) = r_instance_history r"
  "r_runtime_history (revalidated r) = r_runtime_history r"
  "r_endpoint_history (revalidated r) = r_endpoint_history r"
  "r_capability_history (revalidated r) = r_capability_history r"
  "r_instances (revalidated r) = hm_map revalidate_instance (r_instances r)"
  "r_endpoints (revalidated r) = hm_map revalidate_endpoint (r_endpoints r)"
  "r_capabilities (revalidated r) = hm_map revalidate_capability (r_capabilities r)"
  "r_leases (revalidated r) = hm_map revalidate_lease (r_leases r)"
  by (simp_all add: revalidated_def persisted_counters_def)

lemma same_map_hm_map: "same_map m m' \<Longrightarrow> same_map (hm_map f m) (hm_map f m')"
  by (simp add: same_map_def) (simp add: hm_map_def)

lemma same_map_trans: "same_map a b \<Longrightarrow> same_map b c \<Longrightarrow> same_map a c"
  by (simp add: same_map_def)

lemma persisted_counters_recovered [simp]:
  "persisted_counters (recover (restore_counters (persisted_counters r) r')) = persisted_counters r"
  by (simp add: persisted_counters_def restore_counters_def Let_def)

lemma restore_simps [simp]:
  "r_services (restore_counters g x) = r_services x"
  "r_instances (restore_counters g x) = r_instances x"
  "r_runtimes (restore_counters g x) = r_runtimes x"
  "r_runtime_instances (restore_counters g x) = r_runtime_instances x"
  "r_endpoints (restore_counters g x) = r_endpoints x"
  "r_protocols (restore_counters g x) = r_protocols x"
  "r_backends (restore_counters g x) = r_backends x"
  "r_devices (restore_counters g x) = r_devices x"
  "r_capabilities (restore_counters g x) = r_capabilities x"
  "r_nodes (restore_counters g x) = r_nodes x"
  "r_leases (restore_counters g x) = r_leases x"
  "r_tombstones (restore_counters g x) = r_tombstones x"
  "r_compat_records (restore_counters g x) = r_compat_records x"
  "r_invalidations (restore_counters g x) = r_invalidations x"
  "r_instance_history (restore_counters g x) = r_instance_history x"
  "r_runtime_history (restore_counters g x) = r_runtime_history x"
  "r_endpoint_history (restore_counters g x) = r_endpoint_history x"
  "r_capability_history (restore_counters g x) = r_capability_history x"
  by (simp_all add: restore_counters_def)

lemma recovered_contents:
  "persistable r \<Longrightarrow> same_contents
    (recover (restore_counters (persisted_counters r) (reloaded r r0))) (revalidated r)"
  by (auto simp: same_contents_def persistable_def reloaded_def intro!: same_map_hm_map
      dest!: sorted_map_same)

section \<open>Recovering again\<close>

lemma revalidate_idem [simp]:
  "revalidate_instance (revalidate_instance i) = revalidate_instance i"
  "revalidate_endpoint (revalidate_endpoint e) = revalidate_endpoint e"
  "revalidate_capability (revalidate_capability c) = revalidate_capability c"
  "revalidate_lease (revalidate_lease l) = revalidate_lease l"
  by (simp_all add: revalidate_instance_def revalidate_endpoint_def revalidate_capability_def
      revalidate_lease_def Let_def)

lemma revalidate_ok [simp]:
  "instance_ok (revalidate_instance i) = instance_ok i"
  "endpoint_ok (revalidate_endpoint e) = endpoint_ok e"
  "capability_ok (revalidate_capability c) = capability_ok c"
  "lease_ok (revalidate_lease l) = lease_ok l"
  by (simp_all add: revalidate_instance_def revalidate_endpoint_def revalidate_capability_def
      revalidate_lease_def instance_ok_def endpoint_ok_def capability_ok_def lease_ok_def Let_def)

lemma revalidate_keys [simp]:
  "ep_endpoint_id (revalidate_endpoint e) = ep_endpoint_id e"
  "cap_capability_id (revalidate_capability c) = cap_capability_id c"
  "ls_lease_id (revalidate_lease l) = ls_lease_id l"
  by (simp_all add: revalidate_endpoint_def revalidate_capability_def revalidate_lease_def)

lemma hm_map_idem: "(\<And>v. f (f v) = f v) \<Longrightarrow> hm_map f (hm_map f m) = hm_map f m"
  by (simp add: hm_map_def split_beta)

lemma map_ok_same: "same_map m m' \<Longrightarrow> map_ok ok key m' \<Longrightarrow> map_ok ok key m"
  using same_map_length [of m m'] by (simp add: map_ok_def list_all_iff same_map_def)

lemma map_ok_hm_map:
  "(\<And>v. ok (f v) = ok v) \<Longrightarrow> (\<And>v. key (f v) = key v) \<Longrightarrow>
    map_ok ok key m \<Longrightarrow> map_ok ok key (hm_map f m)"
  by (auto simp: map_ok_def list_all_iff) (auto simp: hm_map_def)

lemma persistable_revalidated: "persistable r \<Longrightarrow> persistable (revalidated r)"
  by (simp add: persistable_def map_ok_hm_map)

lemma persistable_same: "same_contents r r' \<Longrightarrow> persistable r' \<Longrightarrow> persistable r"
  unfolding same_contents_def persistable_def by (auto elim!: map_ok_same)

lemma same_contents_revalidated:
  "same_contents r r' \<Longrightarrow> same_contents (revalidated r) (revalidated r')"
  by (auto simp: same_contents_def intro: same_map_hm_map)

lemma same_contents_trans: "same_contents a b \<Longrightarrow> same_contents b c \<Longrightarrow> same_contents a c"
  unfolding same_contents_def by (auto elim: same_map_trans)

lemma same_contents_sym: "same_contents a b \<Longrightarrow> same_contents b a"
  by (auto simp: same_contents_def same_map_def)

lemma revalidated_idem: "revalidated (revalidated r) = revalidated r"
  by (simp add: revalidated_def hm_map_idem)

text \<open>Saving a recovered registry and recovering it again gives the same bytes.\<close>

lemma recovery_stable:
  assumes "persistable r" "load_from (Some (serialize r)) r0 = Some (Return (), r1)"
  shows "persistable r1 \<and>
    (\<exists>r2. load_from (Some (serialize r1)) r0' = Some (Return (), r2) \<and> serialize r2 = serialize r1)"
proof -
  have r1: "same_contents r1 (revalidated r)"
    using assms load_serialized [of r r0] recovered_contents [of r r0] by simp
  then have ok: "persistable r1"
    using persistable_same persistable_revalidated assms(1) by blast
  obtain r2 where r2: "load_from (Some (serialize r1)) r0' = Some (Return (), r2)"
    "same_contents r2 (revalidated r1)"
    using load_serialized [OF ok, of r0'] recovered_contents [OF ok, of r0'] by blast
  have "same_contents (revalidated r1) r1"
    using same_contents_revalidated [OF r1] same_contents_sym [OF r1]
    by (auto simp: revalidated_idem elim: same_contents_trans)
  then have "serialize r2 = serialize r1"
    using r2(2) same_contents_trans serialize_same by blast
  then show ?thesis using ok r2(1) by blast
qed

section \<open>Changed bytes\<close>

lemma length_seal [simp]: "length (seal content) = length content + 36"
  by (simp add: seal_def)

lemma seal_changed:
  assumes i: "i < length (seal content)" and b: "b \<noteq> seal content ! i"
  shows "(seal content)[i := b] \<noteq> seal content'"
proof
  assume eq: "(seal content)[i := b] = seal content'"
  have same: "length content' = length content"
    using arg_cong [where f = length, OF eq] by simp
  show False
  proof (cases "i < length content")
    case True
    then have "content' = content[i := b] \<and> put_u32 (crc32 content' 0) = put_u32 (crc32 content 0)"
      using eq same by (auto simp: seal_def list_update_append)
    moreover have "crc32 (content[i := b]) 0 \<noteq> crc32 content 0"
      using True b by (intro crc32_detects) (simp_all add: seal_def nth_append)
    ultimately show False using get_u32_of_put by metis
  next
    case False
    then have "content' = content"
      using eq same by (auto simp: seal_def list_update_append split: if_splits)
    then show False using eq i b by (simp add: list_update_same)
  qed
qed

lemma changed_byte_rejected:
  assumes "load_from (Some data) r0 = Some (Return (), r1)"
    and "i < length data" "b \<noteq> data ! i"
  shows "\<exists>msg. load_from (Some (data[i := b])) r = Some (throw MALFORMED msg r)"
proof -
  obtain content where "data = seal content"
    using load_from_cases [of data r0] assms(1) by (auto simp: throw_def)
  then have "data[i := b] \<noteq> seal content'" for content'
    using seal_changed assms(2,3) by metis
  then show ?thesis using load_from_cases [of "data[i := b]" r] by auto
qed

section \<open>Whatever loads is consistent\<close>

lemma store_simps [simp]:
  "snd (snd (store member update loop s)) =
    update (\<lambda>_. fst (snd (loop (member (snd s)) (fst s)))) (snd s)"
  by (simp add: store_def split: prod.split)

text \<open>What every loop keeps, the whole sequence keeps.\<close>

lemma in_turn_keeps:
  "list_all (\<lambda>l. \<forall>s. P (snd s) \<longrightarrow> P (snd (snd (l s)))) ls \<Longrightarrow> P (snd s0) \<Longrightarrow>
    P (snd (snd (in_turn ls s0)))"
proof (induction ls arbitrary: s0)
  case (Cons l ls)
  obtain res s1 where l: "l s0 = (res, s1)" by (metis surj_pair)
  have "P (snd (snd (l s0)))" using Cons.prems by (cases s0) simp
  then have "P (snd s1)" by (simp add: l)
  then show ?case using Cons by (simp add: l split: outcome.split)
qed simp

text \<open>The loops write the record members and nothing else.\<close>

lemma load_records_frame:
  "clear_records (snd (snd (load_records n (rd, r)))) = clear_records r"
  unfolding load_records_def
  by (rule in_turn_keeps [where P = "\<lambda>r'. clear_records r' = clear_records r"])
    (simp_all add: clear_records_def)

lemma load_map_keyed:
  "keyed m \<Longrightarrow> keyed (fst (snd (load_map get si_instance_id what n m rd)))"
  by (induction n arbitrary: m rd) (simp_all add: keyed_put malformed_def split: prod.split)

lemma load_records_keyed: "keyed (r_instances (snd (snd (load_records n (rd, clear_records r)))))"
  unfolding load_records_def
  by (rule in_turn_keeps [where P = "\<lambda>r'. keyed (r_instances r')"])
    (simp_all add: load_map_keyed, simp add: clear_records_def keyed_def)

text \<open>A successful load ends with a recovery.\<close>

lemma load_from_returns:
  assumes "load_from buffer r0 = Some (Return (), r1)"
  shows "\<exists>gens r'. r1 = recover (restore_counters gens r') \<and> keyed (r_instances r')"
proof -
  obtain data where "buffer = Some data"
    using assms by (cases buffer) (auto simp: load_from_def throw_def)
  then obtain content where "load_content content r0 = Some (Return (), r1)"
    using assms load_from_cases [of data r0] by (auto simp: throw_def)
  then obtain gens n rd where "load_body gens n rd r0 = Some (Return (), r1)"
    by (auto simp: load_content_def throw_def Let_def split: prod.splits if_splits)
  then obtain rd' r' where "load_records n (rd, clear_records r0) = (Return (), rd', r')"
    "r1 = recover (restore_counters gens r')"
    by (auto simp: load_body_def throw_def split: prod.splits if_splits outcome.splits)
  then show ?thesis using load_records_keyed [of n rd r0] by force
qed

lemma revalidate_not_live: "si_lifecycle (revalidate_instance i) \<noteq> Lifecycle.AVAILABLE"
  by (simp add: revalidate_instance_def Let_def)

lemma recover_consistent:
  assumes "keyed (r_instances r)"
  shows "structure_ok (recover r)" "available_ok (recover r)" "acc_ok (recover r)"
proof -
  define x where "x = revalidate_all r"
  have "keyed (r_instances x)"
    using assms by (auto simp: x_def revalidate_all_def keyed_def)
  then have x: "keys_ok x" by (simp add: keys_ok_def)
  have "keys_ok (recover r)" using x by (simp add: recover_def rebuild_accounting_def keys_ok_def x_def)
  moreover have "index_ok (recover r)"
    using rebuild_index_ok [OF x] index_ok_cong [of "recover r" "rebuild_indexes x"]
    by (simp add: recover_def rebuild_accounting_def placement_def fun_eq_iff x_def)
  ultimately show "structure_ok (recover r)" by (simp add: structure_ok_def)
  show "available_ok (recover r)"
    by (auto simp: available_ok_def backed_def revalidate_not_live)
  show "acc_ok (recover r)"
    by (simp add: acc_ok_def counters_def recover_def rebuild_accounting_def default_Accounting_def
        count_lifecycle_def)
qed

lemma loaded_consistent:
  assumes "load_from buffer r0 = Some (Return (), r1)"
  shows "structure_ok r1 \<and> available_ok r1 \<and> acc_ok r1 \<and> ra_live_boots (r_authority r1) = []"
proof -
  obtain gens r' where r1: "r1 = recover (restore_counters gens r')" "keyed (r_instances r')"
    using load_from_returns [OF assms] by blast
  then have "keyed (r_instances (restore_counters gens r'))" by simp
  from recover_consistent [OF this] show ?thesis by (simp add: r1(1))
qed

text \<open>A failing load reports malformed data, and only the record members can have changed.\<close>

lemma load_map_malformed:
  "fst (load_map get key what n m rd) = Throw e \<Longrightarrow> err_kind e = MALFORMED"
  by (induction n arbitrary: m rd) (auto simp: malformed_def split: prod.splits if_splits)

lemma load_list_malformed:
  "fst (load_list get msg n xs rd) = Throw e \<Longrightarrow> err_kind e = MALFORMED"
  by (induction n arbitrary: xs rd) (auto simp: malformed_def split: prod.splits if_splits)

lemma load_services_malformed:
  "fst (load_services n m rd) = Throw e \<Longrightarrow> err_kind e = MALFORMED"
  by (induction n arbitrary: m rd) (auto simp: malformed_def split: prod.splits if_splits)

lemma in_turn_throws:
  "fst (in_turn ls s) = Throw e \<Longrightarrow> \<exists>l \<in> set ls. \<exists>s. fst (l s) = Throw e"
proof (induction ls arbitrary: s)
  case (Cons l ls)
  show ?case
  proof -
    obtain res s1 where Pair: "l s = (res, s1)" by (metis surj_pair)
    then show ?thesis
    proof (cases res)
      case (Return u)
      then show ?thesis using Cons Pair by simp
    next
      case (Throw e')
      then have "fst (l s) = Throw e" using Cons.prems Pair by simp
      then show ?thesis by (meson list.set_intros(1))
    qed
  qed
qed simp

lemma store_result [simp]:
  "fst (store member update loop s) = fst (loop (member (snd s)) (fst s))"
  by (simp add: store_def split: prod.split)

lemma load_records_malformed:
  "fst (load_records n s) = Throw e \<Longrightarrow> err_kind e = MALFORMED"
  unfolding load_records_def
  by (drule in_turn_throws)
    (auto dest: load_map_malformed load_list_malformed load_services_malformed)

lemma load_from_throws:
  assumes "load_from buffer r = Some (Throw e, r')"
  shows "err_kind e = MALFORMED \<and> clear_records r' = clear_records r"
proof (cases buffer)
  case None
  then show ?thesis using assms by (auto simp: load_from_def throw_def)
next
  case (Some data)
  then consider (early) "\<exists>msg. load_from buffer r = Some (throw MALFORMED msg r)"
    | (content) content where "load_content content r = Some (Throw e, r')"
    using assms load_from_cases [of data r] by auto
  then show ?thesis
  proof cases
    case early
    then show ?thesis using assms by (auto simp: throw_def)
  next
    case content
    then consider (header) "err_kind e = MALFORMED" "r' = r"
      | (body) gens n rd where "load_body gens n rd r = Some (Throw e, r')"
      by (auto simp: load_content_def throw_def Let_def split: prod.splits if_splits)
    then show ?thesis
    proof cases
      case body
      then show ?thesis
        using load_records_frame [of n rd "clear_records r"]
          load_records_malformed [of n "(rd, clear_records r)"]
        by (auto simp: load_body_def throw_def clear_records_def split: prod.splits if_splits outcome.splits)
    qed simp
  qed
qed

end
