(* ===== verification/RR_Sha256_Vector.thy ===== *)
theory RR_Sha256_Vector
  imports RR_Sha256
begin

text \<open>
  The test vector of FIPS 180-4 for the one-block message \<open>abc\<close>, evaluated by the kernel:
  first the padded block and its schedule, then the sixty-four rounds in four quarters.
\<close>

definition abc_block :: bytes where
  "abc_block = [97, 98, 99, 0x80] @ replicate 59 0 @ [24]"

definition abc_schedule :: "u32 list" where
  "abc_schedule =
    [0x61626380, 0x00000000, 0x00000000, 0x00000000, 0x00000000, 0x00000000,
     0x00000000, 0x00000000, 0x00000000, 0x00000000, 0x00000000, 0x00000000,
     0x00000000, 0x00000000, 0x00000000, 0x00000018, 0x61626380, 0x000f0000,
     0x7da86405, 0x600003c6, 0x3e9d7b78, 0x0183fc00, 0x12dcbfdb, 0xe2e2c38e,
     0xc8215c1a, 0xb73679a2, 0xe5bc3909, 0x32663c5b, 0x9d209d67, 0xec8726cb,
     0x702138a4, 0xd3b7973b, 0x93f5997f, 0x3b68ba73, 0xaff4ffc1, 0xf10a5c62,
     0x0a8b3996, 0x72af830a, 0x9409e33e, 0x24641522, 0x9f47bf94, 0xf0a64f5a,
     0x3e246a79, 0x27333ba3, 0x0c4763f2, 0x840abf27, 0x7a290d5d, 0x065c43da,
     0xfb3e89cb, 0xcc7617db, 0xb9e66c34, 0xa9993667, 0x84badedd, 0xc21462bc,
     0x1487472c, 0xb20f7a99, 0xef57b9cd, 0xebe6b238, 0x9fe3095e, 0x78bc8d4b,
     0xa43fcf15, 0x668b2ff8, 0xeeaba2cc, 0x12b1edeb]"

text \<open>The states after a quarter, a half, three quarters and all of the rounds.\<close>

definition abc_quarter :: sha_state where
  "abc_quarter =
     (0xb0fa238e, 0xc0645fde, 0xd932eb16, 0x87912990,
      0x07590dcd, 0x0b92f20c, 0x745a48de, 0x1e578218)"

definition abc_half :: sha_state where
  "abc_half =
     (0x73b33bf5, 0xea992a22, 0xa0060b30, 0x363482c9,
      0xba591112, 0x0109ab3a, 0xade79437, 0x6112a3b7)"

definition abc_three_quarters :: sha_state where
  "abc_three_quarters =
     (0x4172328d, 0xa14c14b0, 0x72ab4b91, 0x26628815,
      0xfecf0bc6, 0xd57b94a9, 0xb7755da1, 0xa80f11f0)"

lemma abc_message: "sha256_message [97, 98, 99] = abc_block"
  by code_simp

definition abc_words :: "u32 list" where
  "abc_words = foldl schedule_word
    (map (\<lambda>i. push_bit 24 (ucast (abc_block ! (i * 4))) OR push_bit 16 (ucast (abc_block ! (i * 4 + 1)))
       OR push_bit 8 (ucast (abc_block ! (i * 4 + 2))) OR ucast (abc_block ! (i * 4 + 3))) [0..<16])
    [16..<40]"

lemma abc_words: "abc_words = take 40 abc_schedule"
  by code_simp

lemma abc_more_words: "foldl schedule_word (take 40 abc_schedule) [40..<64] = abc_schedule"
  by code_simp

lemma abc_schedule: "schedule abc_block = abc_schedule"
proof -
  have "[16..<64] = [16..<40] @ [40..<64]"
    using upt_add_eq_append [of 16 40 24] by simp
  then show ?thesis
    by (simp only: schedule_def foldl_append abc_words_def [symmetric] abc_words abc_more_words)
qed

lemma abc_rounds_1: "foldl (sha256_round abc_schedule) sha256_init [0..<16] = abc_quarter"
  by code_simp

lemma abc_rounds_2: "foldl (sha256_round abc_schedule) abc_quarter [16..<32] = abc_half"
  by code_simp

lemma abc_rounds_3: "foldl (sha256_round abc_schedule) abc_half [32..<48] = abc_three_quarters"
  by code_simp

lemma abc_rounds_4: "foldl (sha256_round abc_schedule) abc_three_quarters [48..<64] =
     (0x506e3058, 0xd39a2165, 0x04d24d6c, 0xb85e2ce9,
      0x5ef50f24, 0xfb121210, 0x948d25b6, 0x961f4894)"
  by code_simp

lemma abc_rounds: "foldl (sha256_round (schedule abc_block)) sha256_init [0..<64] =
     (0x506e3058, 0xd39a2165, 0x04d24d6c, 0xb85e2ce9,
      0x5ef50f24, 0xfb121210, 0x948d25b6, 0x961f4894)"
proof -
  have "[0..<64] = [0..<16] @ [16..<32] @ [32..<48] @ [48..<64]"
    using upt_add_eq_append [of 0 16 48] upt_add_eq_append [of 16 32 32] upt_add_eq_append [of 32 48 16]
    by simp
  then show ?thesis
    by (simp only: foldl_append abc_schedule abc_rounds_1 abc_rounds_2 abc_rounds_3 abc_rounds_4)
qed

lemma abc_digest:
  "sha256_hex [97, 98, 99] = ''ba7816bf8f01cfea414140de5dae2223b00361a396177a9cb410ff61f20015ad''"
proof -
  have "take 64 abc_block = abc_block" "drop 64 abc_block = []" "abc_block \<noteq> []"
    by (simp_all add: abc_block_def)
  then have blocks: "sha256_blocks sha256_init abc_block = sha256_block sha256_init abc_block"
    by (simp add: sha256_blocks.simps)
  show ?thesis
    unfolding sha256_hex_def sha256_def abc_message blocks sha256_block_def abc_rounds
    unfolding sha256_init_def prod.case
    by (simp add: be_u32_def sha256_hex_of_def hex_char_def)
qed

end
