(* ===== verification/RR_Durability.thy ===== *)
theory RR_Durability
  imports RR_Recovery RR_Scenario RR_Sha256_Vector
begin

text \<open>
  The properties of the byte formats: frames and checksums, and saving and recovering a registry.
\<close>

section \<open>Frames and checksums\<close>

definition hello_frame :: Frame where
  "hello_frame = \<lparr>fr_kind = HELLO, fr_payload = [72, 73]\<rparr>"

text \<open>
  C31. A buffer decodes to a frame exactly when it is the encoding of that frame and the payload is
  within the bound. So a frame survives encoding and decoding, every frame has one encoding, and
  truncated, extended or oversized buffers do not decode. A frame in which one byte has been changed,
  wherever it is, does not decode either.
\<close>

theorem frame_roundtrip:
  "(decode_frame (Some data) = Some f \<longleftrightarrow>
      length (fr_payload f) \<le> unat kMaxPayload \<and> data = encode_frame f)
    \<and> (length (fr_payload f) \<le> unat kMaxPayload \<and> i < length (encode_frame f)
          \<and> b \<noteq> encode_frame f ! i
        \<longrightarrow> decode_frame (Some ((encode_frame f)[i := b])) = None)"
  using decode_iff corruption_detected by blast

theorem frame_roundtrip_witness:
  "decode_frame (Some (encode_frame hello_frame)) = Some hello_frame
    \<and> decode_frame (Some ((encode_frame hello_frame)[4 := 2])) = None"
proof -
  have fits: "length (fr_payload hello_frame) \<le> unat kMaxPayload"
    by (simp add: hello_frame_def kMaxPayload_def)
  moreover have "4 < length (encode_frame hello_frame)" "2 \<noteq> encode_frame hello_frame ! 4"
    using fits by (simp_all add: encode_frame_layout)
      (simp add: frame_layout_def put_u32_def kFrameVersion_def)
  ultimately show ?thesis
    using frame_roundtrip [of "encode_frame hello_frame" hello_frame 4 2] by blast
qed

text \<open>
  C32. The table-driven step of the CRC-32 computes the eight bitwise rounds of the reflected
  polynomial, and the combined checksum of several parts is the checksum of their concatenation. The
  checksum of the digits from one to nine in ASCII is the published check value of CRC-32.
\<close>

theorem checksum_reference:
  "crc_step crc ch = (crc_round ^^ 8) (crc XOR ucast ch)
    \<and> crc32_combine parts = crc32 (concat parts) 0
    \<and> crc32 [49, 50, 51, 52, 53, 54, 55, 56, 57] 0 = 0xCBF43926"
  using crc32_check_value
  by (simp add: crc_step_eq_bitwise crc_step_bitwise_def crc32_combine_def crc32_concat)

text \<open>
  C33. The padding loop of SHA-256 ends after fewer than sixty-four rounds; the padded message
  starts with the data and is a whole number of blocks, so the block loop ends as well, with a
  digest of thirty-two bytes. The digest of the test message of FIPS 180-4 is the published one.
\<close>

theorem digest_terminates:
  "\<exists>n < 64. pad_zeros (data @ [0x80]) = data @ [0x80] @ replicate n 0
     \<and> length (sha256_message data) mod 64 = 0
     \<and> take (length data) (sha256_message data) = data
     \<and> length (sha256 data) = 32 \<and> length (sha256_hex data) = 64
     \<and> sha256_hex [97, 98, 99] =
         ''ba7816bf8f01cfea414140de5dae2223b00361a396177a9cb410ff61f20015ad''"
  using pad_zeros_bound [of "data @ [0x80]"]
  by (simp add: sha256_message_blocks sha256_message_prefix sha256_hex_length abc_digest)

section \<open>Saving and recovering\<close>

text \<open>
  C9. Loading the bytes of a registry whose records are within the caps of the readers succeeds,
  whatever registry they are loaded into. The result has the generations, counters, histories and
  invalidations of the saved registry and all of its records, and no boot is live. Four kinds of
  record are revalidated: instances that were available, degraded or unready, endpoints in the
  process, over local channels or over TCP, current physical capabilities, and active leases. All
  other records come back exactly as they were saved, so a device or backend whose observations were
  current when it was saved is current when it is loaded, and so is an endpoint in shared memory.
\<close>

theorem persistence_roundtrip:
  assumes "persistable r"
  shows "\<exists>r'. load_from (Some (serialize r)) r0 = Some (Return (), r')
    \<and> persisted_counters r' = persisted_counters r
    \<and> hm_find (r_services r') = hm_find (r_services r)
    \<and> hm_find (r_instances r') = map_option revalidate_instance \<circ> hm_find (r_instances r)
    \<and> hm_find (r_runtimes r') = hm_find (r_runtimes r)
    \<and> hm_find (r_runtime_instances r') = hm_find (r_runtime_instances r)
    \<and> hm_find (r_endpoints r') = map_option revalidate_endpoint \<circ> hm_find (r_endpoints r)
    \<and> hm_find (r_protocols r') = hm_find (r_protocols r)
    \<and> hm_find (r_backends r') = hm_find (r_backends r)
    \<and> hm_find (r_devices r') = hm_find (r_devices r)
    \<and> hm_find (r_capabilities r') = map_option revalidate_capability \<circ> hm_find (r_capabilities r)
    \<and> hm_find (r_nodes r') = hm_find (r_nodes r)
    \<and> hm_find (r_leases r') = map_option revalidate_lease \<circ> hm_find (r_leases r)
    \<and> hm_find (r_tombstones r') = hm_find (r_tombstones r)
    \<and> hm_find (r_compat_records r') = hm_find (r_compat_records r)
    \<and> r_invalidations r' = r_invalidations r
    \<and> r_instance_history r' = r_instance_history r
    \<and> r_runtime_history r' = r_runtime_history r
    \<and> r_endpoint_history r' = r_endpoint_history r
    \<and> r_capability_history r' = r_capability_history r
    \<and> r_options r' = r_options r0 \<and> ra_live_boots (r_authority r') = []"
proof -
  obtain r' where r': "load_from (Some (serialize r)) r0 = Some (Return (), r')"
    "r' = recover (restore_counters (persisted_counters r) (reloaded r r0))"
    using load_serialized [OF assms] by blast
  have "same_contents r' (revalidated r)"
    using recovered_contents [OF assms] r'(2) by simp
  then show ?thesis
    using r' by (intro exI [of _ r'])
      (auto simp: same_contents_def fun_eq_iff same_map_find restore_counters_def reloaded_def
        dest: same_map_find)
qed

definition snapshot_demo :: Registry where
  "snapshot_demo = (new_registry default_RegistryOptions)
     \<lparr>r_services := [(MkId 1, service)], r_instances := [(MkId 20, stored_instance)],
      r_leases := [(MkId 30, lease1)], r_next_boot := 101\<rparr>"

lemmas record_oks = str_ok_def max_string_def version_ok_def prov_ok_def servicedesc_ok_def
  instance_ok_def lease_ok_def

lemma snapshot_persistable: "persistable snapshot_demo"
  by (simp add: persistable_def map_ok_def list_ok_def kMaxRecordsPerMap_def hm_wf_def record_oks
      snapshot_demo_def new_registry_def rebuild_indexes_def service_def default_ServiceDescriptor_def
      stored_instance_def instance1_def default_ServiceInstance_def lease1_def
      default_LeaseDescriptor_def default_SemanticVersion_def default_Provenance_def)

theorem persistence_roundtrip_witness:
  "\<exists>r'. load_from (Some (serialize snapshot_demo)) demo = Some (Return (), r')
    \<and> hm_find (r_instances r') (MkId 20) = Some (revalidate_instance stored_instance)"
proof -
  have "hm_find (r_instances snapshot_demo) (MkId 20) = Some stored_instance"
    by (simp add: snapshot_demo_def)
  then show ?thesis using persistence_roundtrip [OF snapshot_persistable, of demo] by fastforce
qed

text \<open>
  C34. The bytes are a function of the contents: registries with the same records, in whatever
  iteration order, are written as the same bytes and have the same semantic digest. And recovery is
  stable: a recovered registry can be saved and loaded again, anywhere, and is written as the same
  bytes ever after.
\<close>

theorem recovery_deterministic:
  "(same_contents r r' \<longrightarrow> serialize r = serialize r' \<and> semantic_digest r = semantic_digest r')
    \<and> (persistable r \<and> load_from (Some (serialize r)) r0 = Some (Return (), r1) \<longrightarrow>
        (\<exists>r2. load_from (Some (serialize r1)) r0' = Some (Return (), r2)
          \<and> serialize r2 = serialize r1 \<and> semantic_digest r2 = semantic_digest r1))"
  using serialize_same [of r r'] recovery_stable [of r r0 r1 r0']
  by (auto simp: semantic_digest_def)

theorem recovery_deterministic_witness:
  "\<exists>r1 r2. load_from (Some (serialize snapshot_demo)) demo = Some (Return (), r1)
    \<and> load_from (Some (serialize r1)) demo = Some (Return (), r2)
    \<and> semantic_digest r2 = semantic_digest r1"
proof -
  obtain r1 where "load_from (Some (serialize snapshot_demo)) demo = Some (Return (), r1)"
    using load_serialized [OF snapshot_persistable] by blast
  then show ?thesis
    using recovery_deterministic [of snapshot_demo _ demo r1 demo] snapshot_persistable by blast
qed

text \<open>
  C35. If a buffer loads, the same buffer with one byte changed, wherever it is, is rejected as
  malformed, and the registry it was to be loaded into is left exactly as it was.
\<close>

theorem snapshot_corruption:
  assumes "load_from (Some data) r0 = Some (Return (), r1)"
    and "i < length data" "b \<noteq> data ! i"
  shows "\<exists>msg. load_from (Some (data[i := b])) r = Some (Throw (RegistryError MALFORMED msg), r)"
  using changed_byte_rejected [OF assms] by (simp add: throw_def)

theorem snapshot_corruption_witness:
  "\<exists>msg. load_from (Some ((serialize snapshot_demo)[0 := 0])) demo =
    Some (Throw (RegistryError MALFORMED msg), demo)"
proof -
  obtain r1 where "load_from (Some (serialize snapshot_demo)) demo = Some (Return (), r1)"
    using load_serialized [OF snapshot_persistable] by blast
  moreover have "serialize snapshot_demo ! 0 = 0x31" "0 < length (serialize snapshot_demo)"
    by (simp_all add: serialize_seal seal_def persisted_content_def put_u32_def kPersistMagic_def)
  ultimately show ?thesis using snapshot_corruption [of "serialize snapshot_demo" demo r1 0 0] by simp
qed

text \<open>
  C36. Whatever buffer loads, into whatever registry: the result has consistent indexes, no
  available instance without support, and counters that are not negative, and so has every registry
  that further commands lead to. Before a worker is adopted no envelope is accepted.
\<close>

theorem loaded_consistent_forever:
  assumes "load_from buffer r0 = Some (Return (), r1)" "leads n r1 r2"
  shows "structure_ok r2 \<and> available_ok r2 \<and> acc_ok r2
    \<and> \<not> av_accept (validate_envelope r1 env)"
  using loaded_consistent [OF assms(1)] consistent.leads_holds [OF assms(2)]
  by (simp add: accept_iff is_boot_live_def)

theorem loaded_consistent_forever_witness:
  "\<exists>r1. load_from (Some (serialize snapshot_demo)) demo = Some (Return (), r1)
    \<and> structure_ok (run [AdoptWorker worker] r1)"
proof -
  obtain r1 where "load_from (Some (serialize snapshot_demo)) demo = Some (Return (), r1)"
    using load_serialized [OF snapshot_persistable] by blast
  then show ?thesis
    using loaded_consistent_forever [OF _ leads_run, of _ demo r1 "[AdoptWorker worker]"] by blast
qed

text \<open>A snapshot that announces one service and ends there.\<close>

definition header_only :: bytes where
  "header_only = put_u32 kPersistMagic @ put_u8 kPersistVersion
     @ concat (map put_u64 (replicate 19 0)) @ concat (map put_u32 (1 # replicate 17 0))"

text \<open>A cursor at the end of its buffer yields zeros and raises the flag.\<close>

definition spent :: Reader where
  "spent = \<lparr>rd_rest = [], rd_ok = False, rd_wild = False\<rparr>"

lemma spent_reads [simp]:
  "run_state rd_u8 spent = (0, spent)" "run_state rd_u32 spent = (0, spent)"
  "run_state rd_u64 spent = (0, spent)" "run_state rd_str spent = ([], spent)"
  "run_state get_Id spent = (MkId 0, spent)" "run_state get_Gen spent = (MkGen 0, spent)"
  "run_state get_sv spent = (StructuredVersion 0 0 0, spent)"
  "es \<noteq> [] \<Longrightarrow> run_state (get_enum es) spent = (es ! 0, spent)"
  "run_state (get_vec cap get) spent = ([], spent)"
  by (simp_all add: spent_def rd_u8_def rd_u32_def rd_u64_def rd_str_def get_Id_def get_Gen_def
      get_id_def get_sv_def get_enum_def get_vec_def)

lemma end_of_buffer: "run_state get_Id (reader []) = (MkId 0, spent)"
  by (simp add: get_Id_def get_id_def rd_u64_def rd_u32_def reader_def spent_def)

lemma service_missing:
  "\<exists>x. run_state get_servicedesc (reader []) = (x, spent)"
  by (simp add: get_servicedesc_def get_version_def get_prov_def end_of_buffer
      enum_Lifecycle_def enum_EvidenceKind_def)

lemma header_only_fails:
  "load_from (Some (seal header_only)) r =
    Some (Throw (RegistryError MALFORMED ''malformed service record''), clear_records r)"
proof -
  have gens: "run_state (rd_times 19 rd_u64) (reader (concat (map put_u64 (replicate 19 0)) @ rest))
      = (replicate 19 0, reader rest)" for rest
    using counters_codec.times_put [of "replicate 19 0" rest]
    by (simp only: list.pred_True length_replicate)
  have "list_all (\<lambda>c. unat c \<le> kMaxRecordsPerMap) (1 # replicate 17 0 :: u32 list)"
    by (simp add: kMaxRecordsPerMap_def list_all_iff)
  from sizes_codec.times_put [OF this, of "[]"]
  have counts: "run_state (rd_times 18 rd_count) (reader (concat (map put_u32 (1 # replicate 17 0))))
      = (1 # replicate 17 0, reader [])"
    by (simp only: length_Cons length_replicate append_Nil2) simp
  obtain x where x: "run_state get_servicedesc (reader []) = (x, spent)"
    using service_missing by blast
  have "load_records (map unat (1 # replicate 17 0 :: u32 list)) (reader [], clear_records r) =
      (malformed ''malformed service record'', spent, clear_records r)"
    by (cases x) (simp add: load_records_def store_def x spent_def malformed_def clear_records_def)
  then have body: "load_body (replicate 19 0) (map unat (1 # replicate 17 0 :: u32 list)) (reader []) r =
      Some (malformed ''malformed service record'', clear_records r)"
    by (simp add: load_body_def spent_def malformed_def)
  have "10 \<le> length header_only"
    by (simp add: header_only_def put_u64_def length_concat sum_list_replicate)
  then have "load_from (Some (seal header_only)) r = load_content header_only r"
    by (rule load_sealed)
  also have "\<dots> = Some (malformed ''malformed service record'', clear_records r)"
    unfolding load_content_def header_only_def
    by (simp only: get_put_u32 get_put_u8 gens counts prod.case Let_def body reader_flags) simp
  finally show ?thesis by (simp add: malformed_def)
qed

text \<open>
  C37. A load that fails reports malformed data and has written at most the record members. It may
  have written those: a buffer with valid checksums, magic, version and counts whose first record is
  missing fails and leaves any registry without all of its records, with the indexes and counters
  of the lost ones.
\<close>

theorem failed_load:
  "(load_from buffer r = Some (Throw e, r') \<longrightarrow>
      err_kind e = MALFORMED \<and> clear_records r' = clear_records r)
    \<and> (\<exists>data e r'. load_from (Some data) r = Some (Throw e, r')
      \<and> r_services r' = [] \<and> r_instances r' = [] \<and> r_leases r' = [] \<and> r_tombstones r' = []
      \<and> r_index_by_service r' = r_index_by_service r \<and> r_accounting r' = r_accounting r)"
proof -
  have "r_services (clear_records r) = []" "r_instances (clear_records r) = []"
    "r_leases (clear_records r) = []" "r_tombstones (clear_records r) = []"
    "r_index_by_service (clear_records r) = r_index_by_service r"
    "r_accounting (clear_records r) = r_accounting r"
    by (simp_all add: clear_records_def)
  then show ?thesis using load_from_throws [of buffer r e r'] header_only_fails [of r] by blast
qed

theorem failed_load_witness:
  "\<exists>data e r'. load_from (Some data) demo = Some (Throw e, r') \<and> r_instances r' = []"
  using failed_load [of None demo] by blast

text \<open>
  C38. Recovery restores the epoch and the boot counter of the snapshot. The boot that was issued
  after the snapshot was taken is issued again after it has been loaded, to whichever worker asks
  first, and the envelope of the earlier incarnation is accepted in its name.
\<close>

theorem recovery_reissues_boot:
  assumes "persistable r" "load_from (Some (serialize r)) r0 = Some (Return (), r1)"
    and "adopt_worker w r = (b, r2)" "env_boot env = b" "env_epoch env = ra_epoch (r_authority r)"
  shows "fst (adopt_worker w' r1) = b
    \<and> av_accept (validate_envelope (snd (adopt_worker w' r1)) env)
    \<and> boot_owner (r_authority (snd (adopt_worker w' r1))) b = w'"
proof -
  have r1: "r1 = recover (restore_counters (persisted_counters r) (reloaded r r0))"
    using load_serialized [OF assms(1), of r0] assms(2) by simp
  have "r_next_boot r1 = r_next_boot r" "ra_epoch (r_authority r1) = ra_epoch (r_authority r)"
    "ra_current_boot (r_authority r1) = []" "ra_live_boots (r_authority r1) = []"
    by (simp_all add: r1 restore_counters_def persisted_counters_def Let_def)
  moreover have "b = MkId (r_next_boot r + 1)"
    using assms(3) by (auto simp: adopt_worker_eq Let_def)
  ultimately show ?thesis
    using assms(4,5)
    by (simp add: adopt_worker_def Let_def accept_iff is_boot_live_def boot_owner_def)
qed

theorem recovery_reissues_boot_witness:
  "\<exists>r1. load_from (Some (serialize snapshot_demo)) demo = Some (Return (), r1)
    \<and> fst (adopt_worker (MkId 8) r1) = fst (adopt_worker worker snapshot_demo)"
proof -
  obtain r1 where "load_from (Some (serialize snapshot_demo)) demo = Some (Return (), r1)"
    using load_serialized [OF snapshot_persistable] by blast
  then show ?thesis
    using recovery_reissues_boot [OF snapshot_persistable, of demo r1 worker
        "fst (adopt_worker worker snapshot_demo)" "snd (adopt_worker worker snapshot_demo)"
        "default_AuthorityEnvelope\<lparr>env_boot := fst (adopt_worker worker snapshot_demo),
           env_epoch := ra_epoch (r_authority snapshot_demo)\<rparr>" "MkId 8"]
    by auto
qed

end
