(* ===== verification/RR_Explanation.thy ===== *)
theory RR_Explanation
  imports RR_Scenario
begin

text \<open>
  The explanations of \<^verbatim>\<open>explanation.cpp\<close> and the rendering of capability values in
  \<^verbatim>\<open>capability.cpp\<close>, whose doubles go through \<^verbatim>\<open>operator<<\<close>. The
  lemmas show when a double is rendered exactly, that the text of a candidate determines its
  observations, and that a query explains every candidate it leaves out.
\<close>

section \<open>Doubles as text\<close>

text \<open>
  \<^verbatim>\<open>operator<<\<close> prints a \<^verbatim>\<open>double\<close> with the conversion
  \<^verbatim>\<open>%g\<close>: the exact value, rounded to \<open>prec\<close> significant digits with ties to even, in
  positional notation if its decimal exponent is at least \<open>-4\<close> and below \<open>prec\<close>, and without
  trailing zeros. The magnitude of a finite double is a fraction.
\<close>

definition f64_fraction :: "f64 \<Rightarrow> nat \<times> nat" where
  "f64_fraction b =
    (let e = unat (take_bit 11 (drop_bit 52 b)); m = unat (take_bit 52 b);
         sig = (if e = 0 then m else 2 ^ 52 + m); ex = (if e = 0 then 1 else e)
     in if ex \<ge> 1075 then (sig * 2 ^ (ex - 1075), 1) else (sig, 2 ^ (1075 - ex)))"

definition round_div :: "nat \<Rightarrow> nat \<Rightarrow> nat" where
  "round_div n d =
    (let q = n div d; r = n mod d in if 2 * r > d \<or> (2 * r = d \<and> odd q) then q + 1 else q)"

text \<open>The exponent of the leading decimal digit of \<open>n / d\<close>, for a positive \<open>n\<close>.\<close>

definition decimal_exponent :: "nat \<Rightarrow> nat \<Rightarrow> int" where
  "decimal_exponent n d =
    (if n \<ge> d then int (length (show_nat (n div d))) - 1
     else - int (length (show_nat ((d - 1) div n))))"

definition significant :: "nat \<Rightarrow> nat \<Rightarrow> nat \<Rightarrow> nat \<times> int" where
  "significant prec n d =
    (let x = decimal_exponent n d; s = int prec - 1 - x;
         digits = (if s \<ge> 0 then round_div (n * 10 ^ nat s) d else round_div n (d * 10 ^ nat (- s)))
     in if digits \<ge> 10 ^ prec then (10 ^ (prec - 1), x + 1) else (digits, x))"

definition strip_zeros :: "string \<Rightarrow> string" where
  "strip_zeros s = rev (dropWhile (\<lambda>c. c = CHR ''0'') (rev s))"

definition fraction_part :: "string \<Rightarrow> string" where
  "fraction_part s = (if strip_zeros s = [] then [] else CHR ''.'' # strip_zeros s)"

definition show_exponent :: "int \<Rightarrow> string" where
  "show_exponent x =
    ''e'' @ (if x < 0 then ''-'' else ''+'')
    @ (let t = show_nat (nat \<bar>x\<bar>) in if length t < 2 then CHR ''0'' # t else t)"

definition show_magnitude :: "nat \<Rightarrow> nat \<Rightarrow> nat \<Rightarrow> string" where
  "show_magnitude prec n d =
    (if n = 0 then ''0''
     else case significant prec n d of
       (digits, x) \<Rightarrow>
         let t = show_nat digits in
         if x < - 4 \<or> x \<ge> int prec then take 1 t @ fraction_part (drop 1 t) @ show_exponent x
         else if x \<ge> 0 then take (nat x + 1) t @ fraction_part (drop (nat x + 1) t)
         else ''0.'' @ replicate (nat (- x) - 1) CHR ''0'' @ strip_zeros t)"

definition show_f64 :: "nat \<Rightarrow> f64 \<Rightarrow> string" where
  "show_f64 prec b =
    (if bit b 63 then ''-'' else [])
    @ (if f64_nan b then ''nan''
       else if take_bit 63 b = 0x7FF0000000000000 then ''inf''
       else case f64_fraction b of (n, d) \<Rightarrow> show_magnitude prec n d)"

section \<open>Capability values\<close>

text \<open>A stream starts with six digits; only the case \<^verbatim>\<open>REAL\<close> sets twelve.\<close>

fun render :: "CapabilityValue \<Rightarrow> string"
  and render_fields :: "bool \<Rightarrow> (string \<times> CapabilityValue) list \<Rightarrow> string"
where
  "render (CapabilityValue kind b i r s has_min has_max lo hi st) =
    (case kind of
       CapabilityValueKind.BOOLEAN \<Rightarrow> if b then ''true'' else ''false''
     | CapabilityValueKind.INTEGER \<Rightarrow> show_i64 i
     | CapabilityValueKind.REAL \<Rightarrow> show_f64 12 r
     | CapabilityValueKind.RANGE \<Rightarrow>
         ''['' @ (if has_min then show_f64 6 lo else []) @ '',''
         @ (if has_max then show_f64 6 hi else []) @ '']''
     | CapabilityValueKind.STRING \<Rightarrow> s
     | CapabilityValueKind.STRUCTURED \<Rightarrow> ''{'' @ render_fields True st @ ''}''
     | CapabilityValueKind.UNKNOWN \<Rightarrow> ''UNKNOWN'')"
| "render_fields first [] = []"
| "render_fields first ((name, v) # st) =
    (if first then [] else '','') @ name @ ''='' @ render v @ render_fields False st"

section \<open>Explanations\<close>

definition render_health :: "Health \<Rightarrow> string" where
  "render_health h = to_string_Health h"

definition render_readiness :: "Readiness \<Rightarrow> string" where
  "render_readiness rd = to_string_Readiness rd"

definition show_id :: "'tag Id \<Rightarrow> string" where
  "show_id i = show_u64 (id_value i)"

definition explain_query :: "Registry \<Rightarrow> RegistryQuery \<Rightarrow> string" where
  "explain_query r q = ''query outcome '' @ to_string_QueryOutcome (rr_outcome (query r q))"

definition explain_candidate :: "Registry \<Rightarrow> ServiceInstanceId \<Rightarrow> string" where
  "explain_candidate r iid =
    (case hm_find (r_instances r) iid of
       None \<Rightarrow> ''unknown instance''
     | Some i \<Rightarrow>
         ''ServiceInstanceId '' @ show_id iid @ '' health='' @ to_string_Health (si_health i)
         @ '' readiness='' @ to_string_Readiness (si_readiness i)
         @ '' reachability='' @ to_string_Reachability (si_reachability i)
         @ '' freshness='' @ to_string_Freshness (si_freshness i)
         @ '' lifecycle='' @ to_string_Lifecycle (si_lifecycle i))"

definition explain_rejection :: "Registry \<Rightarrow> ServiceInstanceId \<Rightarrow> RegistryQuery \<Rightarrow> string" where
  "explain_rejection r iid q =
    (case find (\<lambda>j. cj_instance_id j = iid) (rr_rejected (query r q)) of
       None \<Rightarrow> ''instance not rejected by query''
     | Some j \<Rightarrow> cj_reason j @ '': '' @ cj_detail j)"

definition explain_service :: "Registry \<Rightarrow> ServiceId \<Rightarrow> string" where
  "explain_service r sid =
    (case hm_find (r_services r) sid of
       None \<Rightarrow> ''unknown service''
     | Some s \<Rightarrow>
         ''ServiceId '' @ show_id sid @ '' kind='' @ to_string_ServiceKind (svc_kind s)
         @ '' api='' @ ver_str (svc_api_version s) @ '' abi='' @ ver_str (svc_abi_version s))"

definition explain_runtime :: "Registry \<Rightarrow> RuntimeId \<Rightarrow> string" where
  "explain_runtime r rid =
    (case hm_find (r_runtimes r) rid of
       None \<Rightarrow> ''unknown runtime''
     | Some t \<Rightarrow>
         ''RuntimeId '' @ show_id rid @ '' kind='' @ to_string_RuntimeKind (rt_kind t)
         @ '' family='' @ rt_family t @ '' version='' @ semver_str (rt_version t))"

definition explain_endpoint :: "Registry \<Rightarrow> EndpointId \<Rightarrow> string" where
  "explain_endpoint r eid =
    (case hm_find (r_endpoints r) eid of
       None \<Rightarrow> ''unknown endpoint''
     | Some e \<Rightarrow>
         ''EndpointId '' @ show_id eid @ '' transport='' @ to_string_TransportKind (ep_transport e)
         @ '' locator='' @ loc_text (ep_locator e)
         @ '' reachability='' @ to_string_Reachability (ep_reachability e))"

definition explain_capability :: "Registry \<Rightarrow> CapabilityId \<Rightarrow> string" where
  "explain_capability r cid =
    (case hm_find (r_capabilities r) cid of
       None \<Rightarrow> ''unknown capability''
     | Some c \<Rightarrow>
         ''CapabilityId '' @ show_id cid @ '' kind='' @ to_string_CapabilityKind (cap_kind c)
         @ '' freshness='' @ to_string_Freshness (cap_freshness c)
         @ '' value='' @ render (cap_value c))"

definition explain_version :: "Registry \<Rightarrow> RegistryQuery \<Rightarrow> ServiceInstanceId \<Rightarrow> string" where
  "explain_version r q iid =
    (case hm_find (r_instances r) iid of
       None \<Rightarrow> ''unknown instance''
     | Some i \<Rightarrow> ''ServiceInstanceId '' @ show_id iid @ '' version='' @ semver_str (si_version i))"

definition explain_protocol :: "Registry \<Rightarrow> ServiceInstanceId \<Rightarrow> ProtocolId \<Rightarrow> string" where
  "explain_protocol r iid p = ''ServiceInstanceId '' @ show_id iid @ '' protocol '' @ show_id p"

definition explain_readiness :: "Registry \<Rightarrow> ServiceInstanceId \<Rightarrow> string" where
  "explain_readiness r iid =
    (case hm_find (r_instances r) iid of
       None \<Rightarrow> ''unknown instance''
     | Some i \<Rightarrow>
         ''ServiceInstanceId '' @ show_id iid @ '' readiness='' @ to_string_Readiness (si_readiness i))"

definition explain_reachability :: "Registry \<Rightarrow> ServiceInstanceId \<Rightarrow> string" where
  "explain_reachability r iid =
    (case hm_find (r_instances r) iid of
       None \<Rightarrow> ''unknown instance''
     | Some i \<Rightarrow>
         ''ServiceInstanceId '' @ show_id iid
         @ '' reachability='' @ to_string_Reachability (si_reachability i))"

definition explain_lease :: "Registry \<Rightarrow> LeaseId \<Rightarrow> string" where
  "explain_lease r lid =
    (case hm_find (r_leases r) lid of
       None \<Rightarrow> ''unknown lease''
     | Some l \<Rightarrow> ''LeaseId '' @ show_id lid @ '' state='' @ to_string_LeaseState (ls_state l))"

definition explain_invalidation :: "Registry \<Rightarrow> ServiceInstanceId \<Rightarrow> string" where
  "explain_invalidation r iid = ''ServiceInstanceId '' @ show_id iid @ '' invalidation recorded''"

definition explain_tombstone :: "Registry \<Rightarrow> string \<Rightarrow> string \<Rightarrow> string" where
  "explain_tombstone r target_kind target_text =
    target_kind @ '' '' @ target_text @ '' covered by tombstone''"

definition explain_recovery :: "Registry \<Rightarrow> string" where
  "explain_recovery r =
    ''Recovered registry requires revalidation of live-process, process-local, and dynamic physical observations.''"

section \<open>Texts of values\<close>

lemmas show_f64_defs =
  show_f64_def f64_nan_def f64_fraction_def show_magnitude_def significant_def decimal_exponent_def
  round_div_def strip_zeros_def fraction_part_def show_exponent_def show_nat.simps Let_def

lemma show_f64_samples:
  "show_f64 12 0x3FF0000000000000 = ''1''"
  "show_f64 12 0x3FB999999999999A = ''0.1''"
  "show_f64 6 0x40FE240CA1B22F3A = ''123457''"
  "show_f64 6 0xC132D687E3D70A3D = ''-1.23457e+06''"
  "show_f64 6 0x3EE4F8B588E368F1 = ''1e-05''"
  "show_f64 12 0x7FF0000000000000 = ''inf''"
  by (simp_all add: show_f64_defs)

text \<open>A double that holds a positive integer of at most \<open>prec\<close> digits is printed as that integer.\<close>

lemma show_nat_ten: "n > 0 \<Longrightarrow> show_nat (n * 10) = show_nat n @ ''0''"
  by (subst show_nat.simps) simp

lemma show_nat_shift: "n > 0 \<Longrightarrow> show_nat (n * 10 ^ k) = show_nat n @ replicate k CHR ''0''"
proof (induction k)
  case (Suc k)
  have "show_nat (n * 10 ^ k * 10) = show_nat (n * 10 ^ k) @ ''0''"
    using Suc.prems by (intro show_nat_ten) simp
  then show ?case
    using Suc by (simp add: mult.assoc mult.commute [of 10] replicate_append_same)
qed simp

lemma length_show_nat: "n > 0 \<Longrightarrow> n < 10 ^ length (show_nat n) \<and> 10 ^ (length (show_nat n) - 1) \<le> n"
proof (induction n rule: show_nat.induct)
  case (1 n)
  show ?case
  proof (cases "n < 10")
    case True
    then show ?thesis using "1.prems" by (simp add: show_nat.simps [of n])
  next
    case False
    let ?q = "n div 10"
    obtain l where l: "length (show_nat ?q) = Suc l"
      using show_nat_nonempty [of ?q] by (cases "show_nat ?q") auto
    have IH: "?q < 10 ^ Suc l" "10 ^ l \<le> ?q" using "1.IH" False l by auto
    have "length (show_nat n) = Suc (Suc l)" using False l by (simp add: show_nat.simps [of n])
    moreover have "n < 10 ^ Suc l * 10" using IH(1) by linarith
    moreover have "10 ^ l * 10 \<le> n" using IH(2) by linarith
    ultimately show ?thesis by (simp add: mult.commute)
  qed
qed

lemma length_show_nat_le: "0 < n \<Longrightarrow> n < 10 ^ k \<Longrightarrow> length (show_nat n) \<le> k"
proof (rule ccontr)
  assume n: "0 < n" "n < 10 ^ k" and "\<not> length (show_nat n) \<le> k"
  then have "(10 :: nat) ^ k \<le> 10 ^ (length (show_nat n) - 1)" by (intro power_increasing) simp_all
  with n length_show_nat [OF n(1)] show False by simp
qed

lemma strip_zeros_only: "strip_zeros (replicate k CHR ''0'') = []"
  by (simp add: strip_zeros_def dropWhile_eq_Nil_conv)

lemma show_magnitude_integer:
  assumes "0 < n" "n < 10 ^ prec" "0 < d"
  shows "show_magnitude prec (n * d) d = show_nat n"
proof -
  let ?l = "length (show_nat n)"
  have l: "0 < ?l" "?l \<le> prec" using assms(1,2) length_show_nat_le by simp_all
  have x: "decimal_exponent (n * d) d = int ?l - 1"
    using assms(1,3) by (simp add: decimal_exponent_def)
  have "n * d * 10 ^ (prec - ?l) = n * 10 ^ (prec - ?l) * d" by simp
  then have "round_div (n * d * 10 ^ (prec - ?l)) d = n * 10 ^ (prec - ?l)"
    using assms(3) by (simp add: round_div_def)
  moreover have "n * 10 ^ (prec - ?l) < 10 ^ ?l * 10 ^ (prec - ?l)"
    using length_show_nat [OF assms(1)] by (intro mult_strict_right_mono) simp_all
  then have "n * 10 ^ (prec - ?l) < 10 ^ prec"
    using l by (simp add: power_add [symmetric])
  moreover have "nat (int prec - 1 - (int ?l - 1)) = prec - ?l" "int prec - 1 - (int ?l - 1) \<ge> 0"
    using l by linarith+
  ultimately have "significant prec (n * d) d = (n * 10 ^ (prec - ?l), int ?l - 1)"
    unfolding significant_def x Let_def by simp
  moreover have "\<not> (int ?l - 1 < - 4 \<or> int ?l - 1 \<ge> int prec)" "int ?l - 1 \<ge> 0" "nat (int ?l - 1) + 1 = ?l"
    using l by linarith+
  ultimately show ?thesis
    using assms(1,3)
    by (simp add: show_magnitude_def show_nat_shift [OF assms(1)] fraction_part_def strip_zeros_only)
qed

section \<open>What the explanations say\<close>

text \<open>Words without a space can be read off a text.\<close>

lemma word_prefix:
  assumes "CHR '' '' \<notin> set a" "CHR '' '' \<notin> set b"
  shows "a @ CHR '' '' # s = b @ CHR '' '' # t \<longleftrightarrow> a = b \<and> s = t"
  using assms by (induction a arbitrary: b) (case_tac b; auto)+

lemma words_plain [simp]:
  "CHR '' '' \<notin> set (to_string_Health h)" "CHR '' '' \<notin> set (to_string_Readiness rd)"
  "CHR '' '' \<notin> set (to_string_Reachability rc)" "CHR '' '' \<notin> set (to_string_Freshness f)"
proof -
  show "CHR '' '' \<notin> set (to_string_Health h)" by (cases h) simp_all
  show "CHR '' '' \<notin> set (to_string_Readiness rd)" by (cases rd) simp_all
  show "CHR '' '' \<notin> set (to_string_Reachability rc)" by (cases rc) simp_all
  show "CHR '' '' \<notin> set (to_string_Freshness f)" by (cases f) simp_all
qed

lemma words_inject [simp]:
  "to_string_Health h = to_string_Health h' \<longleftrightarrow> h = h'"
  "to_string_Readiness rd = to_string_Readiness rd' \<longleftrightarrow> rd = rd'"
  "to_string_Reachability rc = to_string_Reachability rc' \<longleftrightarrow> rc = rc'"
  "to_string_Freshness f = to_string_Freshness f' \<longleftrightarrow> f = f'"
  "to_string_Lifecycle l = to_string_Lifecycle l' \<longleftrightarrow> l = l'"
proof -
  show "to_string_Health h = to_string_Health h' \<longleftrightarrow> h = h'" by (cases h; cases h') simp_all
  show "to_string_Readiness rd = to_string_Readiness rd' \<longleftrightarrow> rd = rd'" by (cases rd; cases rd') simp_all
  show "to_string_Reachability rc = to_string_Reachability rc' \<longleftrightarrow> rc = rc'"
    by (cases rc; cases rc') simp_all
  show "to_string_Freshness f = to_string_Freshness f' \<longleftrightarrow> f = f'" by (cases f; cases f') simp_all
  show "to_string_Lifecycle l = to_string_Lifecycle l' \<longleftrightarrow> l = l'" by (cases l; cases l') simp_all
qed

lemma explain_candidate_observations:
  assumes "hm_find (r_instances r) iid = Some i" "hm_find (r_instances r') iid = Some i'"
  shows "explain_candidate r iid = explain_candidate r' iid \<longleftrightarrow>
    si_health i = si_health i' \<and> si_readiness i = si_readiness i'
    \<and> si_reachability i = si_reachability i' \<and> si_freshness i = si_freshness i'
    \<and> si_lifecycle i = si_lifecycle i'"
  using assms by (simp add: explain_candidate_def word_prefix)

lemma explain_candidate_unknown:
  "explain_candidate r iid = ''unknown instance'' \<longleftrightarrow> hm_find (r_instances r) iid = None"
  by (simp add: explain_candidate_def split: option.split)

text \<open>Two of the explanations claim what they have not looked up.\<close>

lemma explain_constant:
  "explain_invalidation r iid = explain_invalidation r' iid"
  "explain_tombstone r kind target = explain_tombstone r' kind target"
  by (simp_all add: explain_invalidation_def explain_tombstone_def)

text \<open>A candidate that a query leaves out has a rejection.\<close>

lemma inspect_explains: "fst (inspect r q svc inst) = [] \<Longrightarrow> eligible r q svc inst"
proof -
  assume none: "fst (inspect r q svc inst) = []"
  have stop: "protocol_filter r q inst \<noteq> ([], True)"
    by (auto simp: protocol_filter_def split: prod.splits bool.splits if_splits)
  have "snd (inspect r q svc inst) \<noteq> None"
    using none stop by (auto simp: inspect_def split: option.splits prod.splits bool.splits)
  then show ?thesis by (simp add: inspect_score split: if_splits)
qed

lemma reason_not_default: "reject_detail c @ t \<noteq> ''instance not rejected by query''"
  by (cases c) auto

lemma explain_rejection_none:
  "explain_rejection r iid q = ''instance not rejected by query'' \<longleftrightarrow>
    iid \<notin> set (map cj_instance_id (rr_rejected (query r q)))"
proof (cases "find (\<lambda>j. cj_instance_id j = iid) (rr_rejected (query r q))")
  case None
  then have "iid \<notin> set (map cj_instance_id (rr_rejected (query r q)))"
    by (auto simp: find_None_iff)
  with None show ?thesis by (simp add: explain_rejection_def)
next
  case (Some j)
  then have j: "j \<in> set (rr_rejected (query r q))" "cj_instance_id j = iid"
    by (auto simp: find_Some_iff)
  then obtain i c where "cj_reason j = reject_detail c"
    by (auto simp: query_def Let_def scan_parts rejected_of_def rejection_of_def split: option.splits)
  then have "explain_rejection r iid q \<noteq> ''instance not rejected by query''"
    using Some reason_not_default by (simp add: explain_rejection_def)
  then show ?thesis using j by auto
qed

lemma rejected_listed:
  assumes "hm_find (r_instances r) k = Some inst" "considered r q inst = Some svc"
    and "si_instance_id inst \<notin> set (map cj_instance_id (rr_rejected (query r q)))"
  shows "eligible r q svc inst"
proof -
  have listed: "rejection_of inst j \<in> set (rr_rejected (query r q))" if "j \<in> set (fst (inspect r q svc inst))" for j
    using hm_find_in_set [OF assms(1)] assms(2) that
    by (auto simp: query_def Let_def scan_parts rejected_of_def intro!: bexI)
  have "j \<notin> set (fst (inspect r q svc inst))" for j
    using listed [of j, THEN imageI [where f = cj_instance_id]] assms(3) by (auto simp: rejection_of_def)
  then have "fst (inspect r q svc inst) = []" by (cases "fst (inspect r q svc inst)") auto
  then show ?thesis by (rule inspect_explains)
qed

text \<open>
  C40. No candidate is left out silently: if a query considers an instance and does not rank it, then
  the explanation of its rejection is not the default text, but the reason and the detail of a
  rejection that the query reports for it.
\<close>

theorem omission_explained:
  assumes "reach n r" "hm_find (r_instances r) k = Some i" "considered r q i \<noteq> None"
    and "k \<notin> set (map cs_instance_id (rr_ranked (query r q)))"
  shows "explain_rejection r k q \<noteq> ''instance not rejected by query''
    \<and> list_ex (\<lambda>j. cj_instance_id j = k \<and> explain_rejection r k q = cj_reason j @ '': '' @ cj_detail j)
        (rr_rejected (query r q))"
proof -
  have keys: "keys_ok r"
    using consistent.reach_holds [OF assms(1)] by (simp add: structure_ok_def)
  then have id: "si_instance_id i = k"
    using assms(2) by (simp add: keys_ok_def keyed_def)
  obtain svc where svc: "considered r q i = Some svc" using assms(3) by auto
  have "\<not> eligible r q svc i"
    using ranked_iff [OF keys, of k q] assms(2,4) svc by auto
  then have listed: "k \<in> set (map cj_instance_id (rr_rejected (query r q)))"
    using rejected_listed [OF assms(2) svc] id by auto
  then obtain j where j: "find (\<lambda>j. cj_instance_id j = k) (rr_rejected (query r q)) = Some j"
    by (cases "find (\<lambda>j. cj_instance_id j = k) (rr_rejected (query r q))") (auto simp: find_None_iff)
  then have "j \<in> set (rr_rejected (query r q))" "cj_instance_id j = k"
    by (auto simp: find_Some_iff)
  moreover have "explain_rejection r k q = cj_reason j @ '': '' @ cj_detail j"
    using j by (simp add: explain_rejection_def)
  ultimately show ?thesis
    using listed explain_rejection_none [of r k q] by (auto simp: list_ex_iff)
qed

definition cuda_query :: RegistryQuery where
  "cuda_query = default_RegistryQuery\<lparr>q_required_capabilities := [CapabilityKind.CUDA_AVAILABLE]\<rparr>"

lemma cuda_query_omits:
  "considered demo cuda_query stored_instance = Some service"
  "MkId 20 \<notin> set (map cs_instance_id (rr_ranked (query demo cuda_query)))"
proof -
  show c: "considered demo cuda_query stored_instance = Some service"
    by (simp add: considered_def demo_parts cuda_query_def default_RegistryQuery_def id_set_def)
  have "\<not> eligible demo cuda_query service stored_instance"
    by (simp add: eligible_def cuda_query_def has_current_capability_def demo_parts)
  moreover have "keys_ok demo"
    using consistent.reach_holds [OF demo_reach] by (simp add: structure_ok_def)
  ultimately show "MkId 20 \<notin> set (map cs_instance_id (rr_ranked (query demo cuda_query)))"
    using ranked_iff [of demo "MkId 20" cuda_query] demo_instance c by auto
qed

lemma omission_explained_witness:
  "explain_rejection demo (MkId 20) cuda_query \<noteq> ''instance not rejected by query''
    \<and> list_ex (\<lambda>j. cj_instance_id j = MkId 20
          \<and> explain_rejection demo (MkId 20) cuda_query = cj_reason j @ '': '' @ cj_detail j)
        (rr_rejected (query demo cuda_query))"
  by (rule omission_explained [OF demo_reach demo_instance])
    (simp_all add: cuda_query_omits del: set_map)

end
