(* ===== verification/RR_Sockets.thy ===== *)
theory RR_Sockets
  imports RR_Wire "HOL-Library.Multiset"
begin

text \<open>
  The loopback transport (\<^verbatim>\<open>tcp.hpp\<close>, \<^verbatim>\<open>tcp.cpp\<close>): sockets that own a
  handle of the operating system, the listening server and the client connection.

  The state holds the socket objects that are alive with the handle of each, and the sockets that are
  open in the operating system. What the operating system answers to \<^verbatim>\<open>socket\<close>,
  \<^verbatim>\<open>bind\<close>, \<^verbatim>\<open>listen\<close>, \<^verbatim>\<open>accept\<close>,
  \<^verbatim>\<open>connect\<close> and \<^verbatim>\<open>send\<close> is an argument. A
  \<^verbatim>\<open>SOCKET\<close> is an unsigned 64-bit number; the objects keep it as an
  \<^verbatim>\<open>int\<close>, and a call extends that with its sign again.
\<close>

section \<open>Objects and handles\<close>

type_synonym i32 = "32 word"

definition kInvalid :: i32 where "kInvalid = - 1"
definition INVALID_SOCKET :: u64 where "INVALID_SOCKET = - 1"

definition to_handle :: "u64 \<Rightarrow> i32" where "to_handle s = ucast s"
definition to_socket :: "i32 \<Rightarrow> u64" where "to_socket h = scast h"

text \<open>A socket object is a variable, the listener of a server, or the temporary of an expression.\<close>

datatype SocketRef = Variable nat | Listener nat | Temporary

record Sockets =
  sk_handles :: "(SocketRef, i32) hmap"
  sk_ports :: "(nat, u16) hmap"
  sk_started :: nat
  sk_open :: "u64 list"
  sk_bad_close :: bool

definition no_sockets :: Sockets where
  "no_sockets = \<lparr>sk_handles = [], sk_ports = [], sk_started = 0, sk_open = [], sk_bad_close = False\<rparr>"

definition raw :: "SocketRef \<Rightarrow> Sockets \<Rightarrow> i32" where
  "raw x st = (case hm_find (sk_handles st) x of None \<Rightarrow> kInvalid | Some h \<Rightarrow> h)"

definition valid :: "SocketRef \<Rightarrow> Sockets \<Rightarrow> bool" where
  "valid x st \<longleftrightarrow> raw x st \<noteq> kInvalid"

definition set_handle :: "SocketRef \<Rightarrow> i32 \<Rightarrow> Sockets \<Rightarrow> Sockets" where
  "set_handle x h st = st\<lparr>sk_handles := hm_put x h (sk_handles st)\<rparr>"

text \<open>
  The sockets that are open are ghost state: no result of the program depends on them. They record
  which sockets the operating system has handed out and which have been passed to
  \<^verbatim>\<open>closesocket\<close> since, and whether one was passed that was not open.
\<close>

definition note_open :: "u64 \<Rightarrow> Sockets \<Rightarrow> Sockets" where
  "note_open s st = (if s = INVALID_SOCKET then st else st\<lparr>sk_open := s # sk_open st\<rparr>)"

definition note_close :: "u64 \<Rightarrow> Sockets \<Rightarrow> Sockets" where
  "note_close s st =
    (if s \<in> set (sk_open st) then st\<lparr>sk_open := remove1 s (sk_open st)\<rparr>
     else st\<lparr>sk_bad_close := True\<rparr>)"

text \<open>
  The socket library counts its users, in the ghost state too. As documented, the last
  \<^verbatim>\<open>WSACleanup\<close> closes whatever is still open.
\<close>

definition startup :: "Sockets \<Rightarrow> Sockets" where
  "startup st = st\<lparr>sk_started := sk_started st + 1\<rparr>"

definition cleanup :: "Sockets \<Rightarrow> Sockets" where
  "cleanup st =
    (if sk_started st = 0 then st
     else if sk_started st = 1 then st\<lparr>sk_started := 0, sk_open := []\<rparr>
     else st\<lparr>sk_started := sk_started st - 1\<rparr>)"

section \<open>Operations of a socket\<close>

definition socket_default :: "SocketRef \<Rightarrow> Sockets \<Rightarrow> Sockets" where
  "socket_default x st = set_handle x kInvalid st"

definition socket_reset :: "SocketRef \<Rightarrow> Sockets \<Rightarrow> Sockets" where
  "socket_reset x st =
    (if valid x st then set_handle x kInvalid (note_close (to_socket (raw x st)) st) else st)"

definition socket_destroy :: "SocketRef \<Rightarrow> Sockets \<Rightarrow> Sockets" where
  "socket_destroy x st =
    (let st1 = socket_reset x st in st1\<lparr>sk_handles := hm_erase x (sk_handles st1)\<rparr>)"

definition socket_move_construct :: "SocketRef \<Rightarrow> SocketRef \<Rightarrow> Sockets \<Rightarrow> Sockets" where
  "socket_move_construct x other st = set_handle other kInvalid (set_handle x (raw other st) st)"

definition socket_move_assign :: "SocketRef \<Rightarrow> SocketRef \<Rightarrow> Sockets \<Rightarrow> Sockets" where
  "socket_move_assign x other st =
    (if x \<noteq> other then
       let st1 = socket_reset x st
       in set_handle other kInvalid (set_handle x (raw other st1) st1)
     else st)"

definition from_raw :: "SocketRef \<Rightarrow> i32 \<Rightarrow> Sockets \<Rightarrow> Sockets" where
  "from_raw x h st = set_handle x h (socket_default x st)"

text \<open>\<^verbatim>\<open>x = TcpSocket::from_raw(h)\<close>: the temporary dies at the end of the statement.\<close>

definition assign_raw :: "SocketRef \<Rightarrow> i32 \<Rightarrow> Sockets \<Rightarrow> Sockets" where
  "assign_raw x h st =
    socket_destroy Temporary (socket_move_assign x Temporary (from_raw Temporary h st))"

section \<open>Servers and clients\<close>

definition server_default :: "nat \<Rightarrow> Sockets \<Rightarrow> Sockets" where
  "server_default n st =
    (let st1 = socket_default (Listener n) st in st1\<lparr>sk_ports := hm_put n 0 (sk_ports st1)\<rparr>)"

text \<open>The destructor resets the listener; then the member is destroyed.\<close>

definition server_destroy :: "nat \<Rightarrow> Sockets \<Rightarrow> Sockets" where
  "server_destroy n st =
    (let st1 = socket_destroy (Listener n) (socket_reset (Listener n) st)
     in st1\<lparr>sk_ports := hm_erase n (sk_ports st1)\<rparr>)"

definition server_listen ::
  "nat \<Rightarrow> u16 \<Rightarrow> u64 \<Rightarrow> int \<Rightarrow> int \<Rightarrow> Sockets \<Rightarrow> bool \<times> Sockets" where
  "server_listen n port s bound listening st =
    (let st1 = note_open s (socket_reset (Listener n) st)
     in if s = INVALID_SOCKET then (False, st1)
        else
          let st2 = assign_raw (Listener n) (to_handle s) st1
          in if bound \<noteq> 0 then (False, socket_reset (Listener n) st2)
             else if listening \<noteq> 0 then (False, socket_reset (Listener n) st2)
             else (True, st2\<lparr>sk_ports := hm_put n port (sk_ports st2)\<rparr>))"

text \<open>
  The result of \<^verbatim>\<open>accept\<close> initialises the variable \<open>x\<close>. The address and port of a
  server and of a client only go to the operating system, whose answers are the arguments; the timeout
  of a client is ignored.
\<close>

definition server_accept :: "nat \<Rightarrow> SocketRef \<Rightarrow> u64 \<Rightarrow> Sockets \<Rightarrow> Sockets" where
  "server_accept n x s st =
    (if raw (Listener n) st = - 1 then socket_default x st
     else
       let st1 = note_open s st
       in if s = INVALID_SOCKET then socket_default x st1 else from_raw x (to_handle s) st1)"

definition tcp_connect :: "SocketRef \<Rightarrow> u64 \<Rightarrow> int \<Rightarrow> Sockets \<Rightarrow> bool \<times> Sockets" where
  "tcp_connect out s r st =
    (let st1 = note_open s st
     in if s = INVALID_SOCKET then (False, st1)
        else if r \<noteq> 0 then (False, note_close s st1)
        else (True, assign_raw out (to_handle s) st1))"

section \<open>Sending\<close>

text \<open>
  \<^verbatim>\<open>send\<close> repeats the call of the operating system until the buffer is out. The
  answers are what the calls return, and the end of their list is a failed call. The result says
  whether everything was sent; the second part is what each call passed on.
\<close>

fun send_loop :: "bytes \<Rightarrow> nat \<Rightarrow> int list \<Rightarrow> bool \<times> bytes list" where
  "send_loop buf sent [] = (\<not> sent < length buf, [])"
| "send_loop buf sent (n # ns) =
    (if sent < length buf then
       if n \<le> 0 then (False, [])
       else case send_loop buf (sent + nat n) ns of
         (ok, chunks) \<Rightarrow> (ok, take (nat n) (drop sent buf) # chunks)
     else (True, []))"

definition socket_send :: "SocketRef \<Rightarrow> bytes \<Rightarrow> int list \<Rightarrow> Sockets \<Rightarrow> bool \<times> bytes list" where
  "socket_send x buf answers st =
    (if raw x st = kInvalid then (False, []) else send_loop buf 0 answers)"

lemma send_loop_prefix:
  "send_loop buf sent ns = (ok, chunks) \<Longrightarrow>
    (\<exists>rest. drop sent buf = concat chunks @ rest \<and> (ok \<longleftrightarrow> rest = [])) \<and> list_all (\<lambda>c. c \<noteq> []) chunks"
proof (induction buf sent ns arbitrary: ok chunks rule: send_loop.induct)
  case (2 buf sent n ns)
  show ?case
  proof (cases "sent < length buf \<and> \<not> n \<le> 0")
    case True
    obtain chunks' where chunks: "send_loop buf (sent + nat n) ns = (ok, chunks')"
      "chunks = take (nat n) (drop sent buf) # chunks'"
      using "2.prems" True by (auto split: prod.splits)
    then obtain rest where "drop (sent + nat n) buf = concat chunks' @ rest" "ok \<longleftrightarrow> rest = []"
      "list_all (\<lambda>c. c \<noteq> []) chunks'"
      using "2.IH" True by blast
    moreover have "drop sent buf = take (nat n) (drop sent buf) @ drop (sent + nat n) buf"
      using append_take_drop_id [of "nat n" "drop sent buf"] by (simp add: add.commute)
    ultimately show ?thesis using chunks(2) True by auto
  qed (use "2.prems" in \<open>auto split: if_splits\<close>)
qed auto

text \<open>What has been sent is a beginning of the buffer, and the whole of it exactly on success.\<close>

lemma socket_send_prefix:
  assumes "socket_send x buf answers st = (ok, chunks)" "buf \<noteq> []"
  shows "\<exists>rest. buf = concat chunks @ rest \<and> (ok \<longleftrightarrow> rest = [])" "list_all (\<lambda>c. c \<noteq> []) chunks"
  using assms send_loop_prefix [of buf 0 answers ok chunks]
  by (auto simp: socket_send_def split: if_splits)

section \<open>Programs over sockets\<close>

datatype SocketOp =
    Declare nat | Reset nat | Destroy nat | MoveConstruct nat nat | MoveAssign nat nat
  | DeclareServer nat | Listen nat u16 u64 int int | Accept nat nat u64 | Connect nat u64 int
  | DestroyServer nat | Startup | Cleanup

fun socket_step :: "SocketOp \<Rightarrow> Sockets \<Rightarrow> Sockets" where
  "socket_step (Declare x) st = socket_default (Variable x) st"
| "socket_step (Reset x) st = socket_reset (Variable x) st"
| "socket_step (Destroy x) st = socket_destroy (Variable x) st"
| "socket_step (MoveConstruct x y) st = socket_move_construct (Variable x) (Variable y) st"
| "socket_step (MoveAssign x y) st = socket_move_assign (Variable x) (Variable y) st"
| "socket_step (DeclareServer n) st = server_default n st"
| "socket_step (Listen n port s b l) st = snd (server_listen n port s b l st)"
| "socket_step (Accept n x s) st = server_accept n (Variable x) s st"
| "socket_step (Connect x s r) st = snd (tcp_connect (Variable x) s r st)"
| "socket_step (DestroyServer n) st = server_destroy n st"
| "socket_step Startup st = startup st"
| "socket_step Cleanup st = cleanup st"

definition alive :: "SocketRef \<Rightarrow> Sockets \<Rightarrow> bool" where
  "alive x st \<longleftrightarrow> hm_find (sk_handles st) x \<noteq> None"

text \<open>
  What the operating system promises of a socket it opens: the library has been started, the socket is
  not open already, and it has no more than 32 significant bits, so that the conversion to a handle and
  back keeps it.
\<close>

definition os_answer :: "u64 \<Rightarrow> Sockets \<Rightarrow> bool" where
  "os_answer s st \<longleftrightarrow>
    s = INVALID_SOCKET \<or> (0 < sk_started st \<and> s \<notin> set (sk_open st) \<and> to_socket (to_handle s) = s)"

text \<open>The lifetimes that the language enforces, the promise of the operating system, and the duty not to
  leave the library while sockets are open.\<close>

fun step_ok :: "SocketOp \<Rightarrow> Sockets \<Rightarrow> bool" where
  "step_ok (Declare x) st \<longleftrightarrow> \<not> alive (Variable x) st"
| "step_ok (Reset x) st \<longleftrightarrow> alive (Variable x) st"
| "step_ok (Destroy x) st \<longleftrightarrow> alive (Variable x) st"
| "step_ok (MoveConstruct x y) st \<longleftrightarrow> \<not> alive (Variable x) st \<and> alive (Variable y) st"
| "step_ok (MoveAssign x y) st \<longleftrightarrow> alive (Variable x) st \<and> alive (Variable y) st"
| "step_ok (DeclareServer n) st \<longleftrightarrow> \<not> alive (Listener n) st"
| "step_ok (Listen n port s b l) st \<longleftrightarrow>
     alive (Listener n) st \<and> os_answer s (socket_reset (Listener n) st)"
| "step_ok (Accept n x s) st \<longleftrightarrow>
     alive (Listener n) st \<and> \<not> alive (Variable x) st \<and> os_answer s st"
| "step_ok (Connect x s r) st \<longleftrightarrow> alive (Variable x) st \<and> os_answer s st"
| "step_ok (DestroyServer n) st \<longleftrightarrow> alive (Listener n) st"
| "step_ok Startup st \<longleftrightarrow> True"
| "step_ok Cleanup st \<longleftrightarrow> sk_open st = [] \<or> 1 < sk_started st"

fun socket_run :: "SocketOp list \<Rightarrow> Sockets \<Rightarrow> Sockets" where
  "socket_run [] st = st"
| "socket_run (op # ops) st = socket_run ops (socket_step op st)"

fun run_ok :: "SocketOp list \<Rightarrow> Sockets \<Rightarrow> bool" where
  "run_ok [] st \<longleftrightarrow> True"
| "run_ok (op # ops) st \<longleftrightarrow> step_ok op st \<and> run_ok ops (socket_step op st)"

section \<open>Ownership\<close>

text \<open>The sockets that the objects hold, with their multiplicity.\<close>

definition holds :: "i32 \<Rightarrow> u64 multiset" where
  "holds h = (if h = kInvalid then {#} else {#to_socket h#})"

definition held :: "(SocketRef, i32) hmap \<Rightarrow> u64 multiset" where
  "held m = sum_list (map (\<lambda>(x, h). holds h) m)"

definition owned :: "Sockets \<Rightarrow> bool" where
  "owned st \<longleftrightarrow> held (sk_handles st) = mset (sk_open st) \<and> distinct (sk_open st)
     \<and> hm_wf (sk_handles st) \<and> \<not> sk_bad_close st"

lemma held_simps [simp]: "held [] = {#}" "held ((x, h) # m) = holds h + held m"
  by (simp_all add: held_def)

lemma holds_simps [simp]: "holds kInvalid = {#}" "h \<noteq> kInvalid \<Longrightarrow> holds h = {#to_socket h#}"
  by (simp_all add: holds_def)

definition entry :: "(SocketRef, i32) hmap \<Rightarrow> SocketRef \<Rightarrow> i32" where
  "entry m x = (case hm_find m x of None \<Rightarrow> kInvalid | Some h \<Rightarrow> h)"

lemma raw_entry: "raw x st = entry (sk_handles st) x"
  by (simp add: raw_def entry_def)

lemma entry_simps [simp]:
  "entry [] x = kInvalid"
  "entry ((y, h) # m) x = (if x = y then h else entry m x)"
  "entry (hm_put y h m) x = (if x = y then h else entry m x)"
  "entry (hm_erase y m) x = (if x = y then kInvalid else entry m x)"
  by (simp_all add: entry_def)

lemma entry_absent: "x \<notin> fst ` set m \<Longrightarrow> entry m x = kInvalid"
  by (simp add: entry_def hm_find_None_iff [symmetric])

lemma held_put: "hm_wf m \<Longrightarrow> held (hm_put x h m) + holds (entry m x) = held m + holds h"
  by (induction m) (auto simp: hm_wf_def entry_absent)

lemma held_erase: "hm_wf m \<Longrightarrow> held (hm_erase x m) + holds (entry m x) = held m"
  by (induction m) (auto simp: hm_wf_def hm_erase_def entry_absent delete_id)

text \<open>
  The books while an operation is under way: \<open>b\<close> are the sockets that no object holds yet or any
  more, \<open>c\<close> those that are held once too often.
\<close>

definition books :: "u64 multiset \<Rightarrow> u64 multiset \<Rightarrow> Sockets \<Rightarrow> bool" where
  "books b c st \<longleftrightarrow> held (sk_handles st) + b = mset (sk_open st) + c \<and> distinct (sk_open st)
     \<and> hm_wf (sk_handles st) \<and> \<not> sk_bad_close st"

lemma owned_books: "owned st \<longleftrightarrow> books {#} {#} st"
  by (simp add: owned_def books_def)

lemma books_cancel: "books (b + d) (c + d) st \<longleftrightarrow> books b c st"
  by (simp add: books_def add.assoc [symmetric])

lemma books_set_handle:
  "books b c st \<Longrightarrow> books (b + holds (raw x st)) (c + holds h) (set_handle x h st)"
  using held_put [of "sk_handles st" x h]
  by (simp add: books_def set_handle_def raw_entry) (metis add.assoc add.commute)

lemma books_close: "books b c st \<Longrightarrow> s \<in> set (sk_open st) \<Longrightarrow> books b (c + {#s#}) (note_close s st)"
  by (simp add: books_def note_close_def)

lemma books_open:
  "books b c st \<Longrightarrow> s \<noteq> INVALID_SOCKET \<Longrightarrow> s \<notin> set (sk_open st) \<Longrightarrow> books (b + {#s#}) c (note_open s st)"
  by (simp add: books_def note_open_def)

lemma held_entry: "entry m x \<noteq> kInvalid \<Longrightarrow> to_socket (entry m x) \<in># held m"
  by (induction m) (auto split: if_splits)

lemma raw_simps [simp]:
  "raw x (set_handle y h st) = (if x = y then h else raw x st)"
  "raw x (note_open s st) = raw x st" "raw x (note_close s st) = raw x st"
  by (simp_all add: raw_entry set_handle_def note_open_def note_close_def)

lemma raw_reset [simp]: "raw x (socket_reset y st) = (if x = y then kInvalid else raw x st)"
  by (auto simp: socket_reset_def valid_def)

lemma books_reset:
  assumes "books b {#} st"
  shows "books b {#} (socket_reset x st)"
proof (cases "valid x st")
  case True
  let ?s = "to_socket (raw x st)"
  have raw: "raw x st \<noteq> kInvalid" using True by (simp add: valid_def)
  then have "?s \<in># mset (sk_open st)"
    using assms held_entry [of "sk_handles st" x]
    by (simp add: books_def raw_entry) (metis union_iff set_mset_mset)
  then have "books b ({#} + {#?s#}) (note_close ?s st)" using assms books_close by simp
  from books_set_handle [OF this, of x kInvalid]
  have "books (b + {#?s#}) ({#} + {#?s#}) (set_handle x kInvalid (note_close ?s st))"
    using raw by simp
  then show ?thesis using True unfolding books_cancel by (simp add: socket_reset_def)
qed (use assms in \<open>simp add: socket_reset_def\<close>)

lemma books_erase:
  assumes "books b c st" "raw x st = kInvalid"
  shows "books b c (st\<lparr>sk_handles := hm_erase x (sk_handles st)\<rparr>)"
  using assms held_erase [of "sk_handles st" x] by (simp add: books_def raw_entry)

lemma books_destroy: "books b {#} st \<Longrightarrow> books b {#} (socket_destroy x st)"
  using books_erase [OF books_reset, of b st x x] by (simp add: socket_destroy_def Let_def)

lemma books_move:
  assumes "books b c st" "raw x st = kInvalid" "x \<noteq> y"
  shows "books b c (set_handle y kInvalid (set_handle x (raw y st) st))"
proof -
  let ?h = "holds (raw y st)"
  have "books b (c + ?h) (set_handle x (raw y st) st)"
    using books_set_handle [OF assms(1), of x "raw y st"] assms(2) by simp
  from books_set_handle [OF this, of y kInvalid]
  have "books (b + ?h) (c + ?h) (set_handle y kInvalid (set_handle x (raw y st) st))"
    using assms(3) by simp
  then show ?thesis by (simp only: books_cancel)
qed

lemma books_move_assign: "books b {#} st \<Longrightarrow> books b {#} (socket_move_assign x y st)"
  using books_move [OF books_reset, of b st x x y] by (simp add: socket_move_assign_def Let_def)

text \<open>An object that does not exist yet is given the socket that no object holds.\<close>

lemma books_from_raw:
  assumes "books (b + holds h) c st" "raw x st = kInvalid"
  shows "books b c (from_raw x h st)"
proof -
  have "books (b + holds h) c (socket_default x st)"
    using books_set_handle [OF assms(1), of x kInvalid] assms(2) by (simp add: socket_default_def)
  from books_set_handle [OF this, of x h]
  have "books (b + holds h) (c + holds h) (from_raw x h st)"
    by (simp add: from_raw_def socket_default_def)
  then show ?thesis by (simp only: books_cancel)
qed

lemma books_assign_raw:
  "books (holds h) {#} st \<Longrightarrow> raw Temporary st = kInvalid \<Longrightarrow> books {#} {#} (assign_raw x h st)"
  unfolding assign_raw_def
  by (intro books_destroy books_move_assign books_from_raw) simp_all

lemma holds_answer:
  assumes "s \<noteq> INVALID_SOCKET" "to_socket (to_handle s) = s"
  shows "holds (to_handle s) = {#s#}"
proof -
  have "to_handle s \<noteq> kInvalid"
    using assms by (auto simp: to_socket_def kInvalid_def INVALID_SOCKET_def)
  then show ?thesis using assms by simp
qed

lemma alive_simps [simp]:
  "alive x (set_handle y h st) \<longleftrightarrow> x = y \<or> alive x st"
  "alive x (note_open s st) \<longleftrightarrow> alive x st" "alive x (note_close s st) \<longleftrightarrow> alive x st"
  "alive x (st\<lparr>sk_ports := ports\<rparr>) \<longleftrightarrow> alive x st"
  "alive x (st\<lparr>sk_started := n\<rparr>) \<longleftrightarrow> alive x st"
  "alive x (st\<lparr>sk_handles := hm_erase y (sk_handles st)\<rparr>) \<longleftrightarrow> x \<noteq> y \<and> alive x st"
  by (simp_all add: alive_def set_handle_def note_open_def note_close_def)

lemma alive_reset [simp]: "alive y st \<Longrightarrow> alive x (socket_reset y st) \<longleftrightarrow> alive x st"
  by (auto simp: socket_reset_def)

lemma alive_destroy [simp]: "alive x (socket_destroy y st) \<longleftrightarrow> x \<noteq> y \<and> alive x st"
  by (auto simp: socket_destroy_def socket_reset_def Let_def)

lemma alive_default [simp]: "alive x (socket_default y st) \<longleftrightarrow> x = y \<or> alive x st"
  by (simp add: socket_default_def)

lemma alive_move_assign [simp]:
  "alive x (socket_move_assign y z st) \<longleftrightarrow> alive x st \<or> y \<noteq> z \<and> (x = y \<or> x = z)"
  by (auto simp: socket_move_assign_def socket_reset_def Let_def)

lemma alive_assign_raw [simp]:
  "alive x (assign_raw y h st) \<longleftrightarrow> x \<noteq> Temporary \<and> (alive x st \<or> x = y)"
  by (auto simp: assign_raw_def from_raw_def)

lemma books_ports [simp]: "books b c (st\<lparr>sk_ports := ports\<rparr>) = books b c st"
  "books b c (st\<lparr>sk_started := n\<rparr>) = books b c st"
  by (simp_all add: books_def)

lemma raw_dead: "\<not> alive x st \<Longrightarrow> raw x st = kInvalid"
  by (simp add: alive_def raw_def)

lemma owned_default: "owned st \<Longrightarrow> \<not> alive x st \<Longrightarrow> owned (socket_default x st)"
  using books_set_handle [of "{#}" "{#}" st x kInvalid]
  by (simp add: owned_books socket_default_def raw_dead)

text \<open>A socket that the operating system has opened and an object adopts.\<close>

lemma books_answer:
  assumes "owned st" "os_answer s st" "s \<noteq> INVALID_SOCKET"
  shows "books (holds (to_handle s)) {#} (note_open s st)"
  using books_open [of "{#}" "{#}" st s] assms by (simp add: owned_books os_answer_def holds_answer)

lemma note_open_invalid [simp]: "note_open INVALID_SOCKET st = st"
  by (simp add: note_open_def)

lemma owned_connect:
  assumes "owned st" "os_answer s st" "\<not> alive Temporary st"
  shows "owned (snd (tcp_connect x s r st))"
proof (cases "s = INVALID_SOCKET")
  case False
  note opened = books_answer [OF assms(1,2) False]
  have "note_close s (note_open s st) = st"
    using False by (simp add: note_close_def note_open_def)
  moreover have "owned (assign_raw x (to_handle s) (note_open s st))"
    unfolding owned_books using opened assms(3) by (intro books_assign_raw) (simp_all add: raw_dead)
  ultimately show ?thesis using assms(1) False by (simp add: tcp_connect_def Let_def)
qed (use assms(1) in \<open>simp add: tcp_connect_def\<close>)

lemma owned_accept:
  assumes "owned st" "os_answer s st" "\<not> alive x st"
  shows "owned (server_accept n x s st)"
proof (cases "raw (Listener n) st = - 1 \<or> s = INVALID_SOCKET")
  case False
  have "owned (from_raw x (to_handle s) (note_open s st))"
    unfolding owned_books using books_answer [OF assms(1,2)] False assms(3)
    by (intro books_from_raw) (simp_all add: raw_dead)
  then show ?thesis using False by (simp add: server_accept_def Let_def)
qed (use owned_default assms in \<open>auto simp: server_accept_def Let_def\<close>)

lemma owned_listen:
  assumes "owned st" "os_answer s (socket_reset (Listener n) st)" "alive (Listener n) st"
    "\<not> alive Temporary st"
  shows "owned (snd (server_listen n port s b l st))"
proof (cases "s = INVALID_SOCKET")
  case True
  then show ?thesis
    using assms(1) books_reset by (simp add: server_listen_def Let_def owned_books)
next
  case False
  have reset: "owned (socket_reset (Listener n) st)"
    using assms(1) books_reset by (simp add: owned_books)
  let ?st = "assign_raw (Listener n) (to_handle s) (note_open s (socket_reset (Listener n) st))"
  have "books {#} {#} ?st"
    using books_answer [OF reset assms(2) False] assms(3,4)
    by (intro books_assign_raw) (simp_all add: raw_dead)
  then show ?thesis
    using False books_reset by (simp add: server_listen_def Let_def owned_books)
qed

definition tidy :: "Sockets \<Rightarrow> bool" where
  "tidy st \<longleftrightarrow> owned st \<and> \<not> alive Temporary st"

lemma tidy_step: "tidy st \<Longrightarrow> step_ok op st \<Longrightarrow> tidy (socket_step op st)"
proof (cases op)
  case (MoveConstruct x y)
  assume "tidy st" "step_ok op st"
  then show ?thesis
    using MoveConstruct books_move [of "{#}" "{#}" st "Variable x" "Variable y"]
    by (auto simp: tidy_def owned_books socket_move_construct_def raw_dead)
next
  case (Listen n port s b l)
  assume "tidy st" "step_ok op st"
  then show ?thesis
    using Listen by (auto simp: tidy_def owned_listen, auto simp: server_listen_def Let_def split: if_splits)
next
  case (Accept n x s)
  assume "tidy st" "step_ok op st"
  then show ?thesis
    using Accept by (auto simp: tidy_def owned_accept, auto simp: server_accept_def from_raw_def Let_def split: if_splits)
next
  case (Connect x s r)
  assume "tidy st" "step_ok op st"
  then show ?thesis
    using Connect by (auto simp: tidy_def owned_connect, auto simp: tcp_connect_def Let_def split: if_splits)
next
  case Cleanup
  assume "tidy st" "step_ok op st"
  then show ?thesis
    using Cleanup by (auto simp: tidy_def owned_def cleanup_def alive_def)
qed (auto simp: tidy_def owned_books books_reset books_destroy books_move_assign server_default_def
    server_destroy_def startup_def Let_def owned_default [unfolded owned_books])

lemma tidy_run: "tidy st \<Longrightarrow> run_ok ops st \<Longrightarrow> tidy (socket_run ops st)"
  by (induction ops arbitrary: st) (simp_all add: tidy_step)

lemma tidy_start: "tidy no_sockets"
  by (simp add: tidy_def owned_def no_sockets_def alive_def)

lemma held_twice:
  assumes "hm_wf m" "x \<noteq> y" "entry m x \<noteq> kInvalid" "entry m y \<noteq> kInvalid"
    and "to_socket (entry m x) = s" "to_socket (entry m y) = s"
  shows "count (held m) s > 1"
proof -
  have "to_socket (entry (hm_erase x m) y) \<in># held (hm_erase x m)"
    using assms(2,4) by (intro held_entry) simp
  then have "s \<in># held (hm_erase x m)" using assms(2,6) by simp
  moreover have "held m = held (hm_erase x m) + {#s#}"
    using held_erase [OF assms(1), of x] assms(3,5) by simp
  ultimately show ?thesis by (simp add: count_greater_zero_iff)
qed

lemma held_by_some: "s \<in># held m \<Longrightarrow> hm_wf m \<Longrightarrow> \<exists>x. entry m x \<noteq> kInvalid \<and> to_socket (entry m x) = s"
proof (induction m)
  case (Cons p m)
  obtain y h where p: "p = (y, h)" by fastforce
  show ?case
  proof (cases "s \<in># holds h")
    case True
    then show ?thesis using p by (auto simp: holds_def split: if_splits)
  next
    case False
    then obtain x where x: "entry m x \<noteq> kInvalid" "to_socket (entry m x) = s"
      using Cons p by (auto simp: hm_wf_def)
    then have "x \<noteq> y" using Cons.prems(2) p entry_absent [of y m] by (auto simp: hm_wf_def)
    with x p show ?thesis by auto
  qed
qed simp

text \<open>Every open socket has one owner, and every owner holds an open socket.\<close>

lemma owned_once:
  assumes "owned st"
  shows "s \<in> set (sk_open st) \<longleftrightarrow> (\<exists>!x. valid x st \<and> to_socket (raw x st) = s)"
proof
  have books: "held (sk_handles st) = mset (sk_open st)" "distinct (sk_open st)" "hm_wf (sk_handles st)"
    using assms by (simp_all add: owned_def)
  assume "s \<in> set (sk_open st)"
  then obtain x where x: "valid x st" "to_socket (raw x st) = s"
    using held_by_some [of s "sk_handles st"] books by (auto simp: valid_def raw_entry)
  moreover have "y = x" if "valid y st" "to_socket (raw y st) = s" for y
  proof (rule ccontr)
    assume "y \<noteq> x"
    then have "count (mset (sk_open st)) s > 1"
      using held_twice [OF books(3), of y x s] that x books(1) by (simp add: valid_def raw_entry)
    then show False using books(2) by (metis distinct_count_atmost_1 less_numeral_extra(4) not_one_less_zero)
  qed
  ultimately show "\<exists>!x. valid x st \<and> to_socket (raw x st) = s" by blast
next
  assume "\<exists>!x. valid x st \<and> to_socket (raw x st) = s"
  then obtain x where "valid x st" "to_socket (raw x st) = s" by blast
  then have "s \<in># held (sk_handles st)"
    using held_entry [of "sk_handles st" x] by (auto simp: valid_def raw_entry)
  then show "s \<in> set (sk_open st)" using assms by (simp add: owned_def)
qed

text \<open>
  C39. As long as the operating system hands out fresh sockets, no sequence of declarations, moves,
  assignments, connections and destructions leaks or doubly closes one: every open socket is held by
  exactly one object, an object that says it is valid holds an open socket, and when the last object
  has gone nothing is open.
\<close>

theorem sockets_owned:
  assumes "run_ok ops no_sockets"
  shows "\<not> sk_bad_close (socket_run ops no_sockets)
    \<and> (s \<in> set (sk_open (socket_run ops no_sockets)) \<longleftrightarrow>
        (\<exists>!x. valid x (socket_run ops no_sockets) \<and> to_socket (raw x (socket_run ops no_sockets)) = s))
    \<and> (valid x (socket_run ops no_sockets) \<longrightarrow>
        to_socket (raw x (socket_run ops no_sockets)) \<in> set (sk_open (socket_run ops no_sockets)))
    \<and> (sk_handles (socket_run ops no_sockets) = [] \<longrightarrow> sk_open (socket_run ops no_sockets) = [])"
proof -
  have "owned (socket_run ops no_sockets)"
    using tidy_run [OF tidy_start assms] by (simp add: tidy_def)
  then show ?thesis
    using owned_once [of "socket_run ops no_sockets" s] held_entry [of "sk_handles (socket_run ops no_sockets)" x]
    by (auto simp: owned_def valid_def raw_entry)
qed

text \<open>
  A server with one connection, as the coordinator has it: the accepted socket moves into the closure
  of the thread and on into its argument.
\<close>

definition one_client :: "SocketOp list" where
  "one_client =
    [Startup, DeclareServer 0, Listen 0 41817 4 0 0, Accept 0 0 8, MoveConstruct 1 0, Destroy 0, MoveConstruct 2 1]"

lemmas socket_defs =
  kInvalid_def INVALID_SOCKET_def to_handle_def to_socket_def raw_def valid_def set_handle_def note_open_def
  note_close_def startup_def cleanup_def socket_default_def socket_reset_def socket_destroy_def
  socket_move_construct_def socket_move_assign_def from_raw_def assign_raw_def server_default_def
  server_destroy_def server_listen_def server_accept_def no_sockets_def hm_erase_def

lemma one_client_sockets:
  "socket_run one_client no_sockets =
    \<lparr>sk_handles = [(Listener 0, 4), (Variable 1, - 1), (Variable 2, 8)], sk_ports = [(0, 41817)],
     sk_started = 1, sk_open = [8, 4], sk_bad_close = False\<rparr>"
  by (simp add: one_client_def socket_defs)

lemma one_client_ok: "run_ok one_client no_sockets"
  by (simp add: one_client_def socket_defs os_answer_def alive_def)

lemma one_client_ends:
  "sk_open (socket_run (one_client @ [Destroy 2, Destroy 1, DestroyServer 0, Cleanup]) no_sockets) = []"
  by (simp add: one_client_def socket_defs)

lemma sockets_owned_witness:
  "\<not> sk_bad_close (socket_run one_client no_sockets)
    \<and> sk_open (socket_run one_client no_sockets) = [8, 4]
    \<and> (\<exists>!x. valid x (socket_run one_client no_sockets)
        \<and> to_socket (raw x (socket_run one_client no_sockets)) = 8)"
  using sockets_owned [OF one_client_ok, of 8] by (simp add: one_client_sockets)

text \<open>
  The coordinator leaves its accept loop when \<^verbatim>\<open>accept\<close> fails. It then cleans the library
  up while its listener is still open, so the destructor of the server closes a socket that is gone.
\<close>

definition coordinator_shutdown :: "SocketOp list" where
  "coordinator_shutdown =
    [Startup, DeclareServer 0, Listen 0 41817 4 0 0, Accept 0 0 INVALID_SOCKET, Destroy 0, Cleanup,
     DestroyServer 0]"

lemma shutdown_closes_late: "sk_bad_close (socket_run coordinator_shutdown no_sockets)"
  by (simp add: coordinator_shutdown_def socket_defs)

text \<open>A server that cannot bind its port is left without a listener, and its port is unchanged.\<close>

lemma ports_simps [simp]:
  "sk_ports (set_handle x h st) = sk_ports st" "sk_ports (note_close s st) = sk_ports st"
  "sk_ports (note_open s st) = sk_ports st"
  by (simp_all add: set_handle_def note_close_def note_open_def)

lemma ports_reset [simp]: "sk_ports (socket_reset x st) = sk_ports st"
  by (simp add: socket_reset_def)

lemma ports_assign_raw [simp]: "sk_ports (assign_raw x h st) = sk_ports st"
  by (simp add: assign_raw_def socket_destroy_def socket_move_assign_def from_raw_def socket_default_def
      Let_def)

lemma listen_fails:
  "server_listen n port s b l st = (False, st') \<Longrightarrow>
    raw (Listener n) st' = kInvalid \<and> sk_ports st' = sk_ports st"
  by (auto simp: server_listen_def Let_def split: if_splits)

end
