(* ===== verification/RR_Coordinator.thy ===== *)
theory RR_Coordinator
  imports RR_Wire RR_Codec RR_Machine RR_Selection
begin

text \<open>
  The coordinator program (\<^verbatim>\<open>coordinator.cpp\<close>) and the texts of the requests of the worker
  program (\<^verbatim>\<open>worker.cpp\<close>). Each connection runs a session: it receives a frame, splits its payload
  at the commas, performs at most one operation on the shared registry and sends one frame back. The
  registry serialises the operations, so the threads of the connections interleave between requests.

  A socket is the list of the chunks that successive calls of \<^verbatim>\<open>recv\<close> find ready; the
  end of the list, an empty chunk, is a closed or failed connection. Two things end the process
  rather than the session: an exception that is not a \<^verbatim>\<open>RegistryError\<close> leaves the
  thread and calls \<^verbatim>\<open>std::terminate\<close>, and reading a field behind the last one is
  undefined behaviour.
\<close>

section \<open>Numbers of the standard library\<close>

definition is_space :: "char \<Rightarrow> bool" where
  "is_space c \<longleftrightarrow> c = CHR '' '' \<or> 9 \<le> (of_char c :: nat) \<and> (of_char c :: nat) \<le> 13"

text \<open>Optional white space and sign, then the digits up to the first other character.\<close>

definition scan_number :: "string \<Rightarrow> (bool \<times> nat) option" where
  "scan_number s =
    (let s1 = dropWhile is_space s;
         negative = (s1 \<noteq> [] \<and> hd s1 = CHR ''-'');
         s2 = (if s1 \<noteq> [] \<and> (hd s1 = CHR ''-'' \<or> hd s1 = CHR ''+'') then tl s1 else s1);
         digits = takeWhile is_digit s2
     in if digits = [] then None else Some (negative, digits_val digits))"

text \<open>
  \<^verbatim>\<open>std::stoull\<close> and \<^verbatim>\<open>std::stoi\<close>; \<open>None\<close> stands for
  \<^verbatim>\<open>invalid_argument\<close> and \<^verbatim>\<open>out_of_range\<close>. A minus sign negates
  modulo \<open>2 ^ 64\<close>, as \<^verbatim>\<open>strtoull\<close> does.
\<close>

definition stoull :: "string \<Rightarrow> u64 option" where
  "stoull s =
    (case scan_number s of
       None \<Rightarrow> None
     | Some (negative, v) \<Rightarrow>
         if v \<ge> 2 ^ 64 then None
         else Some (if negative then - of_nat v else of_nat v))"

definition stoi :: "string \<Rightarrow> int option" where
  "stoi s =
    (case scan_number s of
       None \<Rightarrow> None
     | Some (negative, v) \<Rightarrow>
         let i = (if negative then - int v else int v)
         in if i < - (2 ^ 31) \<or> i \<ge> 2 ^ 31 then None else Some i)"

section \<open>Frames on a socket\<close>

text \<open>One call of \<^verbatim>\<open>recv\<close> for at most \<open>n\<close> bytes.\<close>

fun recv :: "nat \<Rightarrow> bytes list \<Rightarrow> bytes \<times> bytes list" where
  "recv n [] = ([], [])"
| "recv n (c # cs) = (if length c \<le> n then (c, cs) else (take n c, drop n c # cs))"

lemma recv_length: "recv n s = (b, s') \<Longrightarrow> length b \<le> n"
  by (cases s) (auto split: if_splits)

text \<open>The loop that fills the buffer; \<open>None\<close> when the connection ends first.\<close>

function recv_rest :: "nat \<Rightarrow> bytes list \<Rightarrow> bytes option \<times> bytes list" where
  "recv_rest n s =
    (if n = 0 then (Some [], s)
     else case recv n s of
       (b, s') \<Rightarrow>
         if b = [] then (None, s')
         else case recv_rest (n - length b) s' of
           (None, s'') \<Rightarrow> (None, s'')
         | (Some rest, s'') \<Rightarrow> (Some (b @ rest), s''))"
  by pat_completeness auto
termination by (relation "measure fst") auto

declare recv_rest.simps [simp del]

definition text_of :: "bytes \<Rightarrow> string" where
  "text_of = map char_of_byte"

text \<open>The empty text stands for every failure.\<close>

definition recv_one :: "bytes list \<Rightarrow> string \<times> bytes list" where
  "recv_one s =
    (case recv 10 s of
       (hdr, s1) \<Rightarrow>
         if length hdr \<noteq> 10 then ([], s1)
         else
           let len = get_u32 hdr 6
           in if len > kMaxPayload then ([], s1)
              else case recv_rest (unat len + 4) s1 of
                (None, s2) \<Rightarrow> ([], s2)
              | (Some rest, s2) \<Rightarrow>
                  (case decode_frame (Some (hdr @ rest)) of
                     None \<Rightarrow> ([], s2)
                   | Some f \<Rightarrow> (text_of (fr_payload f), s2)))"

definition text_frame :: "MessageKind \<Rightarrow> string \<Rightarrow> Frame" where
  "text_frame kind payload = \<lparr>fr_kind = kind, fr_payload = map byte_of_char payload\<rparr>"

section \<open>Requests\<close>

fun split_loop :: "char \<Rightarrow> string list \<Rightarrow> string \<Rightarrow> string \<Rightarrow> string list" where
  "split_loop sep out cur [] = out @ [cur]"
| "split_loop sep out cur (c # s) =
    (if c = sep then split_loop sep (out @ [cur]) [] s else split_loop sep out (cur @ [c]) s)"

definition split_fields :: "string \<Rightarrow> char \<Rightarrow> string list" where
  "split_fields s sep = split_loop sep [] [] s"

datatype Fault = Undefined_Access | Uncaught_Exception

type_synonym 'a checked = "(Fault, 'a) outcome"

definition and_then :: "'a checked \<Rightarrow> ('a \<Rightarrow> 'b checked) \<Rightarrow> 'b checked" where
  "and_then x f = (case x of Return a \<Rightarrow> f a | Throw e \<Rightarrow> Throw e)"

definition field :: "string list \<Rightarrow> nat \<Rightarrow> string checked" where
  "field p i = (if i < length p then Return (p ! i) else Throw Undefined_Access)"

definition number :: "string list \<Rightarrow> nat \<Rightarrow> u64 checked" where
  "number p i = and_then (field p i)
    (\<lambda>s. case stoull s of None \<Rightarrow> Throw Uncaught_Exception | Some v \<Rightarrow> Return v)"

definition version_1_0_0 :: SemanticVersion where
  "version_1_0_0 = the (semver_parse ''1.0.0'')"

definition parse_runtime :: "string list \<Rightarrow> RuntimeDescriptor checked" where
  "parse_runtime p =
    and_then (number p 1) (\<lambda>rid. and_then (number p 2) (\<lambda>inst. and_then (number p 3) (\<lambda>gen.
    and_then (field p 4) (\<lambda>name. and_then (field p 5) (\<lambda>family. and_then (field p 6) (\<lambda>arch.
      Return (default_RuntimeDescriptor
        \<lparr>rt_runtime_id := MkId rid, rt_runtime_instance := MkId inst, rt_generation := MkGen gen,
         rt_kind := RuntimeKind.NATIVE_CPP, rt_name := name,
         rt_family := (if family = ''cuda'' then ''cuda'' else ''cpp''),
         rt_version := version_1_0_0, rt_api_version := StructuredVersion 1 0 0,
         rt_abi_version := StructuredVersion 1 0 0, rt_architecture := arch\<rparr>)))))))"

definition parse_service :: "string list \<Rightarrow> ServiceDescriptor checked" where
  "parse_service p =
    and_then (number p 1) (\<lambda>sid. and_then (number p 2) (\<lambda>gen. and_then (field p 3) (\<lambda>kind.
    and_then (field p 4) (\<lambda>name.
      Return (default_ServiceDescriptor
        \<lparr>svc_service_id := MkId sid, svc_generation := MkGen gen,
         svc_kind := service_kind_from_string kind, svc_name := name,
         svc_version := version_1_0_0, svc_api_version := StructuredVersion 1 0 0,
         svc_abi_version := StructuredVersion 1 0 0,
         svc_required_capabilities :=
           (if length p > 5 \<and> p ! 5 = ''CUDA'' then [CapabilityKind.CUDA_AVAILABLE] else [])\<rparr>)))))"

definition parse_endpoint :: "string list \<Rightarrow> EndpointDescriptor checked" where
  "parse_endpoint p =
    and_then (number p 1) (\<lambda>eid. and_then (number p 2) (\<lambda>gen. and_then (field p 3) (\<lambda>port.
      case stoi port of
        None \<Rightarrow> Throw Uncaught_Exception
      | Some n \<Rightarrow> Return (default_EndpointDescriptor
          \<lparr>ep_endpoint_id := MkId eid, ep_generation := MkGen gen, ep_protocol := MkId 1,
           ep_locator := \<lparr>loc_text = ''127.0.0.1:'' @ port\<rparr>, ep_transport := TransportKind.TCP,
           ep_port := word_of_int n, ep_health := Health.HEALTHY,
           ep_reachability := Reachability.REACHABLE, ep_freshness := Freshness.CURRENT,
           ep_provenance := make_provenance EvidenceKind.MEASURED ''probe'' 0 []\<rparr>))))"

definition parse_capability :: "string list \<Rightarrow> CapabilityDescriptor checked" where
  "parse_capability p =
    and_then (number p 1) (\<lambda>cid. and_then (field p 2) (\<lambda>kind.
      Return (default_CapabilityDescriptor
        \<lparr>cap_capability_id := MkId cid, cap_kind := capability_kind_from_string kind,
         cap_generation := MkGen 1, cap_version := version_1_0_0, cap_value := make_bool True,
         cap_freshness := Freshness.CURRENT,
         cap_provenance := make_provenance EvidenceKind.MEASURED ''dev'' 0 []\<rparr>)))"

definition parse_instance :: "WorkerId \<Rightarrow> WorkerBootId \<Rightarrow> string list \<Rightarrow> ServiceInstance checked" where
  "parse_instance worker boot p =
    and_then (number p 1) (\<lambda>sid. and_then (number p 2) (\<lambda>gen. and_then (number p 3) (\<lambda>node.
    and_then (number p 4) (\<lambda>rt. and_then (number p 5) (\<lambda>rti. and_then (number p 6) (\<lambda>ep.
    and_then (number p 7) (\<lambda>cap.
      Return (default_ServiceInstance
        \<lparr>si_service_id := MkId sid, si_service_generation := MkGen 1,
         si_instance_generation := MkGen gen, si_node := MkId node, si_worker := worker,
         si_boot := boot, si_runtime_id := MkId rt, si_runtime_instance := MkId rti,
         si_endpoints := [MkId ep], si_capabilities := [MkId cap], si_health := Health.HEALTHY,
         si_readiness := Readiness.READY, si_freshness := Freshness.CURRENT,
         si_reachability := Reachability.REACHABLE, si_version := version_1_0_0,
         si_provenance := make_provenance EvidenceKind.REPORTED ''worker'' 0 [],
         si_lifecycle := Lifecycle.REGISTERING\<rparr>))))))))"

section \<open>Sessions\<close>

record Session =
  ss_boot :: WorkerBootId
  ss_worker :: WorkerId
  ss_has_worker :: bool

definition new_session :: Session where
  "new_session = \<lparr>ss_boot = no_id, ss_worker = no_id, ss_has_worker = False\<rparr>"

definition session_envelope :: "CoordinatorEpoch \<Rightarrow> Session \<Rightarrow> AuthorityEnvelope" where
  "session_envelope epoch ss = default_AuthorityEnvelope\<lparr>env_epoch := epoch, env_boot := ss_boot ss\<rparr>"

text \<open>The try block around an operation: its result or the message of its error.\<close>

definition answer :: "'a operation \<Rightarrow> ('a \<Rightarrow> string) \<Rightarrow> Registry \<Rightarrow> Frame \<times> Registry" where
  "answer f ok r =
    (case f r of
       (Return x, r') \<Rightarrow> (text_frame ACK (ok x), r')
     | (Throw e, r') \<Rightarrow> (text_frame ERROR (err_what e), r'))"

definition perform ::
  "'d checked \<Rightarrow> ('d \<Rightarrow> 'a operation) \<Rightarrow> ('a \<Rightarrow> string) \<Rightarrow> Session \<Rightarrow> Registry \<Rightarrow>
    Frame checked \<times> Session \<times> Registry" where
  "perform parsed f ok ss r =
    (case parsed of
       Throw fault \<Rightarrow> (Throw fault, ss, r)
     | Return d \<Rightarrow> (case answer (f d) ok r of (reply, r') \<Rightarrow> (Return reply, ss, r')))"

definition update_request ::
  "CoordinatorEpoch \<Rightarrow> Session \<Rightarrow> string list \<Rightarrow>
    (ServiceInstanceId \<times> string \<times> AuthorityEnvelope) checked" where
  "update_request epoch ss p =
    and_then (number p 3) (\<lambda>gen. and_then (number p 1) (\<lambda>iid. and_then (field p 2) (\<lambda>state.
      Return (MkId iid, state,
        (session_envelope epoch ss)\<lparr>env_service_instance_generation := MkGen gen\<rparr>))))"

definition query_reply :: "Registry \<Rightarrow> string \<Rightarrow> string" where
  "query_reply r kind =
    (let res = query r (default_RegistryQuery\<lparr>q_service_kind := service_kind_from_string kind\<rparr>)
     in ''RESULT_'' @ to_string_QueryOutcome (rr_outcome res)
        @ concat (map (\<lambda>cs. '','' @ show_u64 (id_value (cs_instance_id cs))) (rr_ranked res)))"

definition handle_line ::
  "CoordinatorEpoch \<Rightarrow> string \<Rightarrow> Session \<Rightarrow> Registry \<Rightarrow> Frame checked \<times> Session \<times> Registry" where
  "handle_line epoch line ss r =
    (let p = split_fields line CHR '','';
         op = p ! 0;
         env = session_envelope epoch ss
     in if op = ''HELLO'' then
          (case number p 1 of
             Throw fault \<Rightarrow> (Throw fault, ss, r)
           | Return w \<Rightarrow>
               (case adopt_worker (MkId w) r of
                  (boot, r') \<Rightarrow>
                    (Return (text_frame ACK (''BOOT='' @ show_u64 (id_value boot))),
                     \<lparr>ss_boot = boot, ss_worker = MkId w, ss_has_worker = True\<rparr>, r')))
        else if op = ''PING'' then (Return (text_frame ACK ''PONG''), ss, r)
        else if op = ''QUERY'' then
          (case field p 1 of
             Throw fault \<Rightarrow> (Throw fault, ss, r)
           | Return kind \<Rightarrow> (Return (text_frame QUERY_RESULT (query_reply r kind)), ss, r))
        else if \<not> ss_has_worker ss then (Return (text_frame ERROR ''NO_WORKER''), ss, r)
        else if op = ''REG_RT'' then
          perform (parse_runtime p) (\<lambda>d. register_runtime d env) (\<lambda>_. ''OK'') ss r
        else if op = ''REG_SV'' then
          perform (parse_service p) (\<lambda>d. register_service d env) (\<lambda>_. ''OK'') ss r
        else if op = ''REG_EP'' then
          perform (parse_endpoint p) (\<lambda>d. register_endpoint d env) (\<lambda>_. ''OK'') ss r
        else if op = ''REG_CA'' then
          perform (parse_capability p) (\<lambda>d. register_capability d env) (\<lambda>_. ''OK'') ss r
        else if op = ''REG_IN'' then
          perform (parse_instance (ss_worker ss) (ss_boot ss) p) (\<lambda>d. register_instance d env)
            (\<lambda>i. ''ID='' @ show_u64 (id_value i)) ss r
        else if op = ''UH'' then
          perform (update_request epoch ss p)
            (\<lambda>(iid, state, env'). update_health iid
               (if state = ''HEALTHY'' then Health.HEALTHY else Health.DEGRADED) env')
            (\<lambda>_. ''OK'') ss r
        else if op = ''UR'' then
          perform (update_request epoch ss p)
            (\<lambda>(iid, state, env'). update_readiness iid
               (if state = ''READY'' then Readiness.READY else Readiness.NOT_READY) env')
            (\<lambda>_. ''OK'') ss r
        else (Return (text_frame ERROR ''UNKNOWN_OP''), ss, r))"

text \<open>The end of a connection.\<close>

definition end_session :: "Session \<Rightarrow> Registry \<Rightarrow> Registry" where
  "end_session ss r = (if ss_has_worker ss then mark_worker_died (ss_boot ss) r else r)"

section \<open>One connection\<close>

text \<open>
  The thread of a connection, run to its end: what it sends, the fault that ends the process if there
  is one, and the registry. Every round consumes bytes of the socket, so the loop ends.
\<close>

definition unread :: "bytes list \<Rightarrow> nat" where
  "unread s = sum_list (map length s)"

lemma recv_unread: "recv n s = (b, s') \<Longrightarrow> unread s = length b + unread s'"
  by (cases s) (auto simp: unread_def split: if_splits)

lemma recv_rest_unread: "recv_rest n s = (res, s') \<Longrightarrow> unread s' \<le> unread s"
proof (induction n s arbitrary: res s' rule: recv_rest.induct)
  case (1 n s)
  show ?case
  proof (cases "n = 0")
    case True
    then show ?thesis using "1.prems" by (simp add: recv_rest.simps)
  next
    case False
    obtain b s1 where b: "recv n s = (b, s1)" by fastforce
    show ?thesis
    proof (cases "b = []")
      case True
      then show ?thesis
        using "1.prems" False b recv_unread [OF b] by (subst (asm) recv_rest.simps) simp
    next
      case nonempty: False
      obtain res2 s2 where s2: "recv_rest (n - length b) s1 = (res2, s2)" by fastforce
      then have "unread s2 \<le> unread s1" using "1.IH" False b nonempty by simp
      moreover have "s' = s2"
        using "1.prems" False b nonempty s2 by (subst (asm) recv_rest.simps) (simp split: option.splits)
      ultimately show ?thesis using recv_unread [OF b] by simp
    qed
  qed
qed

lemma recv_one_unread: "recv_one s = (line, s') \<Longrightarrow> line \<noteq> [] \<Longrightarrow> unread s' < unread s"
  by (auto simp: recv_one_def Let_def split: prod.splits if_splits option.splits
      dest!: recv_rest_unread recv_unread)

function serve_connection ::
  "CoordinatorEpoch \<Rightarrow> bytes list \<Rightarrow> Session \<Rightarrow> Registry \<Rightarrow> bytes list \<times> Fault option \<times> Registry"
where
  "serve_connection epoch s ss r =
    (case recv_one s of
       (line, s') \<Rightarrow>
         if line = [] then ([], None, end_session ss r)
         else case handle_line epoch line ss r of
           (Throw fault, ss', r') \<Rightarrow> ([], Some fault, r')
         | (Return reply, ss', r') \<Rightarrow>
             (case serve_connection epoch s' ss' r' of
                (sent, fault, r'') \<Rightarrow> (encode_frame reply # sent, fault, r'')))"
  by pat_completeness auto
termination
  by (relation "measure (\<lambda>(_, s, _). unread s)") (use recv_one_unread in \<open>auto dest: sym\<close>)

declare serve_connection.simps [simp del]

section \<open>All connections\<close>

text \<open>
  The process: one registry, the epoch it was started with, and the sessions of the open connections.
  An event is a new connection, a line received on a connection or its end; the threads interleave
  in any order. A fault ends the process.
\<close>

record Coordinator =
  co_epoch :: CoordinatorEpoch
  co_registry :: Registry
  co_sessions :: "(nat, Session) hmap"
  co_fault :: "Fault option"

datatype Event = Connected nat | Received nat string | Closed nat

definition start_coordinator :: Coordinator where
  "start_coordinator =
    (let reg = begin_coordinator_epoch (new_registry default_RegistryOptions)
     in \<lparr>co_epoch = ra_epoch (r_authority reg), co_registry = reg, co_sessions = [],
         co_fault = None\<rparr>)"

definition serve_event :: "Event \<Rightarrow> Coordinator \<Rightarrow> Coordinator" where
  "serve_event ev co =
    (if co_fault co \<noteq> None then co
     else case ev of
       Connected c \<Rightarrow>
         (case hm_find (co_sessions co) c of
            None \<Rightarrow> co\<lparr>co_sessions := hm_put c new_session (co_sessions co)\<rparr>
          | Some _ \<Rightarrow> co)
     | Received c line \<Rightarrow>
         (case hm_find (co_sessions co) c of
            None \<Rightarrow> co
          | Some ss \<Rightarrow>
              (case handle_line (co_epoch co) line ss (co_registry co) of
                 (Throw fault, ss', r') \<Rightarrow> co\<lparr>co_fault := Some fault, co_registry := r'\<rparr>
               | (Return _, ss', r') \<Rightarrow>
                   co\<lparr>co_sessions := hm_put c ss' (co_sessions co), co_registry := r'\<rparr>))
     | Closed c \<Rightarrow>
         (case hm_find (co_sessions co) c of
            None \<Rightarrow> co
          | Some ss \<Rightarrow>
              co\<lparr>co_sessions := hm_erase c (co_sessions co),
                 co_registry := end_session ss (co_registry co)\<rparr>))"

definition serve :: "Event list \<Rightarrow> Coordinator" where
  "serve evs = foldl (\<lambda>co ev. serve_event ev co) start_coordinator evs"

section \<open>The requests of a worker\<close>

text \<open>
  What \<^verbatim>\<open>worker.cpp\<close> sends in the mode \<^verbatim>\<open>hold\<close> for an identity that is not
  negative and small enough for its sums not to overflow; \<open>RR_Worker\<close> has the program for any.
\<close>

definition worker_hello :: "nat \<Rightarrow> string" where
  "worker_hello w = ''HELLO,'' @ show_nat w"

definition worker_hold :: "nat \<Rightarrow> string \<Rightarrow> string list" where
  "worker_hold w gen =
    [''REG_RT,'' @ show_nat w @ '','' @ show_nat w @ '',1,native,cpp,x64'',
     ''REG_SV,'' @ show_nat (100 + w) @ '',1,MODEL_SERVER,svc,CUDA'',
     ''REG_EP,'' @ show_nat w @ '','' @ gen @ '','' @ show_nat (41000 + w),
     ''REG_CA,'' @ show_nat w @ '',CUDA_AVAILABLE'',
     ''REG_IN,'' @ show_nat (100 + w) @ '','' @ gen @ '',1,'' @ show_nat w @ '','' @ show_nat w
       @ '','' @ show_nat w @ '','' @ show_nat w]"

section \<open>Sessions and the machine\<close>

lemma answer_registry [simp]: "snd (answer f ok r) = snd (f r)"
  by (simp add: answer_def split: prod.split outcome.split)

lemma perform_session [simp]: "fst (snd (perform parsed f ok ss r)) = ss"
  by (simp add: perform_def split: prod.split outcome.split)

lemma perform_registry:
  "snd (snd (perform parsed f ok ss r)) =
    (case parsed of Throw _ \<Rightarrow> r | Return d \<Rightarrow> snd (f d r))"
proof (cases parsed)
  case (Return d)
  then show ?thesis
    using answer_registry [of "f d" ok r] by (cases "answer (f d) ok r") (simp add: perform_def)
qed (simp add: perform_def)

text \<open>A command with the envelope of the session.\<close>

definition session_command :: "CoordinatorEpoch \<Rightarrow> Session \<Rightarrow> Command \<Rightarrow> bool" where
  "session_command epoch ss c \<longleftrightarrow>
    (case envelope_of c of
       None \<Rightarrow> False
     | Some env \<Rightarrow> env_epoch env = epoch \<and> env_boot env = ss_boot ss)"

text \<open>
  What a line does to the session and the registry: nothing, an adoption if it is a
  \<^verbatim>\<open>HELLO\<close>, or a command of the session.
\<close>

inductive line_step :: "bool \<Rightarrow> CoordinatorEpoch \<Rightarrow> Session \<Rightarrow> Registry \<Rightarrow> Session \<Rightarrow> Registry \<Rightarrow> bool"
  for hello epoch ss r where
  ignored: "line_step hello epoch ss r ss r"
| commanded: "session_command epoch ss c \<Longrightarrow> line_step hello epoch ss r ss (snd (execute c r))"
| adopted: "hello \<Longrightarrow> adopt_worker w r = (boot, r') \<Longrightarrow>
    line_step hello epoch ss r \<lparr>ss_boot = boot, ss_worker = w, ss_has_worker = True\<rparr> r'"

inductive_cases line_stepE: "line_step hello epoch ss r ss' r'"

definition is_hello :: "string \<Rightarrow> bool" where
  "is_hello line \<longleftrightarrow> split_fields line CHR '','' ! 0 = ''HELLO''"

text \<open>A request is served by one step.\<close>

definition serves ::
  "bool \<Rightarrow> CoordinatorEpoch \<Rightarrow> Session \<Rightarrow> Registry \<Rightarrow> Frame checked \<times> Session \<times> Registry \<Rightarrow> bool" where
  "serves hello epoch ss r res \<longleftrightarrow> line_step hello epoch ss r (fst (snd res)) (snd (snd res))"

lemma serves_ignored [simp]: "serves hello epoch ss r (reply, ss, r)"
  by (simp add: serves_def line_step.ignored)

lemma session_envelope_simps [simp]:
  "env_epoch (session_envelope epoch ss) = epoch" "env_boot (session_envelope epoch ss) = ss_boot ss"
  by (simp_all add: session_envelope_def)

lemma update_request_envelope:
  "update_request epoch ss p = Return (iid, state, env) \<Longrightarrow>
    env_epoch env = epoch \<and> env_boot env = ss_boot ss"
  by (auto simp: update_request_def and_then_def split: outcome.splits)

lemma perform_command:
  assumes "\<And>d. parsed = Return d \<Longrightarrow>
      session_command epoch ss (c d) \<and> snd (f d r) = snd (execute (c d) r)"
  shows "serves hello epoch ss r (perform parsed f ok ss r)"
  using assms
  by (cases parsed) (auto simp: serves_def perform_registry intro: line_step.intros)

lemma perform_register_runtime:
  "serves hello epoch ss r
    (perform p (\<lambda>d. register_runtime d (session_envelope epoch ss)) ok ss r)"
  by (rule perform_command [where c = "\<lambda>d. RegisterRuntime d (session_envelope epoch ss)"])
    (simp add: session_command_def)

lemma perform_register_service:
  "serves hello epoch ss r
    (perform p (\<lambda>d. register_service d (session_envelope epoch ss)) ok ss r)"
  by (rule perform_command [where c = "\<lambda>d. RegisterService d (session_envelope epoch ss)"])
    (simp add: session_command_def)

lemma perform_register_endpoint:
  "serves hello epoch ss r
    (perform p (\<lambda>d. register_endpoint d (session_envelope epoch ss)) ok ss r)"
  by (rule perform_command [where c = "\<lambda>d. RegisterEndpoint d (session_envelope epoch ss)"])
    (simp add: session_command_def)

lemma perform_register_capability:
  "serves hello epoch ss r
    (perform p (\<lambda>d. register_capability d (session_envelope epoch ss)) ok ss r)"
  by (rule perform_command [where c = "\<lambda>d. RegisterCapability d (session_envelope epoch ss)"])
    (simp add: session_command_def)

lemma perform_register_instance:
  "serves hello epoch ss r
    (perform p (\<lambda>d. register_instance d (session_envelope epoch ss)) ok ss r)"
  by (rule perform_command [where c = "\<lambda>d. RegisterInstance d (session_envelope epoch ss)"])
    (simp add: session_command_def)

lemma perform_update_health:
  "serves hello epoch ss r (perform (update_request epoch ss p)
    (\<lambda>(iid, state, env). update_health iid (h state) env) ok ss r)"
  by (rule perform_command [where c = "\<lambda>(iid, state, env). UpdateHealth iid (h state) env"])
    (auto simp: session_command_def dest: update_request_envelope)

lemma perform_update_readiness:
  "serves hello epoch ss r (perform (update_request epoch ss p)
    (\<lambda>(iid, state, env). update_readiness iid (rd state) env) ok ss r)"
  by (rule perform_command [where c = "\<lambda>(iid, state, env). UpdateReadiness iid (rd state) env"])
    (auto simp: session_command_def dest: update_request_envelope)

lemmas perform_effects =
  perform_register_runtime perform_register_service perform_register_endpoint
  perform_register_capability perform_register_instance perform_update_health perform_update_readiness

lemma handle_line_serves: "serves (is_hello line) epoch ss r (handle_line epoch line ss r)"
proof (cases "is_hello line")
  case True
  have "serves True epoch ss r (reply, \<lparr>ss_boot = boot, ss_worker = w, ss_has_worker = True\<rparr>, r')"
    if "adopt_worker w r = (boot, r')" for w boot r' and reply :: "Frame checked"
    using that by (simp add: serves_def line_step.adopted)
  then show ?thesis
    using True by (simp add: handle_line_def is_hello_def split: outcome.split prod.split)
next
  case False
  then show ?thesis
    by (simp add: handle_line_def is_hello_def Let_def perform_effects split: outcome.split)
qed

lemma handle_line_step:
  "handle_line epoch line ss r = (reply, ss', r') \<Longrightarrow> line_step (is_hello line) epoch ss r ss' r'"
  using handle_line_serves [of line epoch ss r] by (simp add: serves_def)

text \<open>A line that ends the process has changed nothing.\<close>

lemma perform_fault: "perform parsed f ok ss r = (Throw fault, ss', r') \<Longrightarrow> ss' = ss \<and> r' = r"
  by (simp add: perform_def split: outcome.splits prod.splits)

lemma handle_line_fault: "handle_line epoch line ss r = (Throw fault, ss', r') \<Longrightarrow> ss' = ss \<and> r' = r"
  by (auto simp: handle_line_def Let_def dest: perform_fault split: if_splits outcome.splits prod.splits)

end
