(* ===== verification/RR_Sessions.thy ===== *)
theory RR_Sessions
  imports RR_Coordinator
begin

text \<open>
  What the registry promises through the coordinator: its state is a run of the machine, a restarted
  worker fences its earlier session, and an available instance has an open connection behind it.
\<close>

section \<open>The coordinator runs the machine\<close>

text \<open>The commands that the coordinator issues: adoptions, deaths and commands of its epoch.\<close>

definition served :: "CoordinatorEpoch \<Rightarrow> Command \<Rightarrow> bool" where
  "served epoch c \<longleftrightarrow>
    (case envelope_of c of
       None \<Rightarrow> (case c of AdoptWorker _ \<Rightarrow> True | WorkerDied _ \<Rightarrow> True | _ \<Rightarrow> False)
     | Some env \<Rightarrow> env_epoch env = epoch)"

lemma served_not_begin [simp]: "\<not> served epoch BeginEpoch"
  by (simp add: served_def)

lemma session_served: "session_command epoch ss c \<Longrightarrow> served epoch c"
  by (auto simp: session_command_def served_def split: option.splits)

text \<open>What an event does to the registry.\<close>

definition moves :: "CoordinatorEpoch \<Rightarrow> Registry \<Rightarrow> Registry \<Rightarrow> bool" where
  "moves epoch r r' \<longleftrightarrow> r' = r \<or> (\<exists>c. served epoch c \<and> r' = snd (execute c r))"

lemma line_step_moves: "line_step hello epoch ss r ss' r' \<Longrightarrow> moves epoch r r'"
proof (erule line_stepE)
  fix w boot assume "adopt_worker w r = (boot, r')"
  then have "r' = snd (execute (AdoptWorker w) r)" by simp
  moreover have "served epoch (AdoptWorker w)" by (simp add: served_def)
  ultimately show "moves epoch r r'" unfolding moves_def by blast
qed (auto simp: moves_def dest: session_served)

lemma end_session_moves: "moves epoch r (end_session ss r)"
proof -
  have "served epoch (WorkerDied (ss_boot ss))"
    and "mark_worker_died (ss_boot ss) r = snd (execute (WorkerDied (ss_boot ss)) r)"
    by (simp_all add: served_def)
  then show ?thesis unfolding end_session_def moves_def by metis
qed

text \<open>One event, for a process that has not ended.\<close>

lemma serve_event_cases:
  assumes "co_fault co = None"
  obtains (unchanged) fault where "serve_event ev co = co\<lparr>co_fault := fault\<rparr>"
  | (connected) c where "ev = Connected c" "hm_find (co_sessions co) c = None"
      "serve_event ev co = co\<lparr>co_sessions := hm_put c new_session (co_sessions co)\<rparr>"
  | (received) c line ss ss' r' where "ev = Received c line" "hm_find (co_sessions co) c = Some ss"
      "line_step (is_hello line) (co_epoch co) ss (co_registry co) ss' r'"
      "serve_event ev co = co\<lparr>co_sessions := hm_put c ss' (co_sessions co), co_registry := r'\<rparr>"
  | (closed) c ss where "ev = Closed c" "hm_find (co_sessions co) c = Some ss"
      "serve_event ev co = co\<lparr>co_sessions := hm_erase c (co_sessions co),
         co_registry := end_session ss (co_registry co)\<rparr>"
proof (cases ev)
  case (Connected c)
  then show ?thesis
    using assms connected unchanged [of None]
    by (cases "hm_find (co_sessions co) c") (simp_all add: serve_event_def)
next
  case (Received c line)
  show ?thesis
  proof (cases "hm_find (co_sessions co) c")
    case None
    then show ?thesis using Received assms unchanged [of None] by (simp add: serve_event_def)
  next
    case (Some ss)
    obtain reply ss' r' where
      h: "handle_line (co_epoch co) line ss (co_registry co) = (reply, ss', r')"
      using prod_cases3 by blast
    note line = handle_line_step [OF h]
    show ?thesis
    proof (cases reply)
      case (Return f)
      then show ?thesis
        using received [OF Received Some line] Received Some assms h by (simp add: serve_event_def)
    next
      case (Throw fault)
      then have "r' = co_registry co" using handle_line_fault h by blast
      then show ?thesis
        using unchanged [of "Some fault"] Throw Received Some assms h by (simp add: serve_event_def)
    qed
  qed
next
  case (Closed c)
  then show ?thesis
    using assms closed unchanged [of None]
    by (cases "hm_find (co_sessions co) c") (simp_all add: serve_event_def)
qed

lemma serve_event_ended: "co_fault co \<noteq> None \<Longrightarrow> serve_event ev co = co"
  by (simp add: serve_event_def)

lemma serve_event_moves:
  "moves (co_epoch co) (co_registry co) (co_registry (serve_event ev co))
    \<and> co_epoch (serve_event ev co) = co_epoch co"
proof (cases "co_fault co")
  case None
  then show ?thesis
    by (cases rule: serve_event_cases [of co ev])
      (auto simp: end_session_moves line_step_moves, simp_all add: moves_def)
qed (simp add: serve_event_ended moves_def)

definition serve_from :: "Coordinator \<Rightarrow> Event list \<Rightarrow> Coordinator" where
  "serve_from co evs = foldl (\<lambda>co ev. serve_event ev co) co evs"

lemma serve_from_simps [simp]:
  "serve_from co [] = co"
  "serve_from co (ev # evs) = serve_from (serve_event ev co) evs"
  "serve_from co (evs @ evs') = serve_from (serve_from co evs) evs'"
  by (simp_all add: serve_from_def)

lemma serve_serve_from: "serve evs = serve_from start_coordinator evs"
  by (simp add: serve_def serve_from_def)

lemma serve_from_run:
  "\<exists>cs. length cs \<le> length evs \<and> list_all (served (co_epoch co)) cs
      \<and> co_registry (serve_from co evs) = run cs (co_registry co)
      \<and> co_epoch (serve_from co evs) = co_epoch co"
proof (induction evs arbitrary: co)
  case (Cons ev evs)
  let ?co = "serve_event ev co"
  note first = serve_event_moves [of co ev]
  obtain cs where cs: "length cs \<le> length evs" "list_all (served (co_epoch co)) cs"
    "co_registry (serve_from ?co evs) = run cs (co_registry ?co)"
    "co_epoch (serve_from ?co evs) = co_epoch co"
    using Cons.IH [of ?co] first by auto
  from first consider "co_registry ?co = co_registry co"
    | c where "served (co_epoch co) c" "co_registry ?co = snd (execute c (co_registry co))"
    by (auto simp: moves_def)
  then show ?case
  proof cases
    case 1
    with cs show ?thesis by (intro exI [of _ cs]) simp
  next
    case (2 c)
    with cs show ?thesis by (intro exI [of _ "c # cs"]) (simp add: run_def)
  qed
qed (simp add: run_def)

lemma start_registry:
  "co_registry start_coordinator = run [BeginEpoch] (new_registry default_RegistryOptions)"
  "co_epoch start_coordinator = MkGen 2"
  by (simp_all add: start_coordinator_def run_def Let_def begin_coordinator_epoch_def new_registry_def
      rebuild_indexes_def default_RegistryAuthority_def)

lemma run_append: "run (cs @ cs') r = run cs' (run cs r)"
  by (simp add: run_def)

lemma served_epoch:
  "list_all (served epoch) cs \<Longrightarrow> ra_epoch (r_authority (run cs r)) = ra_epoch (r_authority r)"
proof (induction cs arbitrary: r)
  case (Cons c cs)
  have "c \<noteq> BeginEpoch" using Cons.prems served_not_begin [of epoch] by (metis list.pred_inject(2))
  with Cons show ?case by (simp add: run_def epoch_execute)
qed (simp add: run_def)

lemma serve_reach: "\<exists>n \<le> Suc (length evs). reach n (co_registry (serve evs))"
proof -
  obtain cs where cs: "length cs \<le> length evs"
    "co_registry (serve evs) = run cs (run [BeginEpoch] (new_registry default_RegistryOptions))"
    using serve_from_run [of evs start_coordinator] by (auto simp: serve_serve_from start_registry)
  then have "reach (Suc (length cs)) (co_registry (serve evs))"
    using reach_run [of "BeginEpoch # cs"] by (simp add: run_append [symmetric])
  with cs(1) show ?thesis by (intro exI [of _ "Suc (length cs)"]) simp
qed

text \<open>
  C4. Whatever the connections send, in whatever interleaving, the registry of the coordinator is
  the registry after a run of machine commands, one at most for every event, that starts with the
  epoch of the process; afterwards only workers are adopted or declared dead and operations performed
  under that epoch. Hence the invariants of the machine hold of it at every moment.
\<close>

theorem coordinator_runs_machine:
  "\<exists>cs. length cs \<le> length evs
      \<and> list_all (served (co_epoch (serve evs))) cs
      \<and> co_registry (serve evs) = run (BeginEpoch # cs) (new_registry default_RegistryOptions)
      \<and> ra_epoch (r_authority (co_registry (serve evs))) = co_epoch (serve evs)
      \<and> structure_ok (co_registry (serve evs)) \<and> available_ok (co_registry (serve evs))
      \<and> acc_ok (co_registry (serve evs))"
proof -
  obtain cs where cs: "length cs \<le> length evs" "list_all (served (co_epoch start_coordinator)) cs"
    "co_registry (serve evs) = run cs (co_registry start_coordinator)"
    "co_epoch (serve evs) = co_epoch start_coordinator"
    using serve_from_run [of evs start_coordinator] by (auto simp: serve_serve_from)
  have "co_registry (serve evs) = run (BeginEpoch # cs) (new_registry default_RegistryOptions)"
    using cs(3) by (simp add: start_registry run_append [symmetric])
  moreover have "ra_epoch (r_authority (co_registry start_coordinator)) = co_epoch start_coordinator"
    by (simp add: start_coordinator_def Let_def)
  then have "ra_epoch (r_authority (co_registry (serve evs))) = co_epoch (serve evs)"
    using cs(2-4) served_epoch by simp
  moreover obtain n where "reach n (co_registry (serve evs))"
    using serve_reach by blast
  ultimately show ?thesis
    using cs consistent.reach_holds by auto
qed

section \<open>The boot of a session\<close>

text \<open>A live boot of a session is the current boot of the worker that the session named.\<close>

definition session_ok :: "Registry \<Rightarrow> Session \<Rightarrow> bool" where
  "session_ok r ss \<longleftrightarrow> ss_has_worker ss \<longrightarrow>
     id_value (ss_boot ss) \<le> r_next_boot r
     \<and> (is_boot_live (r_authority r) (ss_boot ss) \<longrightarrow>
          hm_find (ra_current_boot (r_authority r)) (ss_worker ss) = Some (ss_boot ss))"

lemma session_ok_revoke:
  assumes "session_ok r ss" shows "session_ok (revoke_boot_internal b r) ss"
  using assms by (auto simp: session_ok_def revoke_boot_current Let_def)

lemma session_ok_adopt:
  assumes ok: "session_ok r ss" and inv: "incarnation_inv r" and room: "r_next_boot r < r_next_boot r + 1"
  shows "session_ok (snd (adopt_worker w r)) ss"
    and "ss_has_worker ss \<Longrightarrow> ss_worker ss = w \<Longrightarrow> retired_boot (snd (adopt_worker w r)) (ss_boot ss)"
proof -
  let ?r1 = "adopt_base w r" and ?r = "snd (adopt_worker w r)" and ?b = "ss_boot ss"
  have bump: "session_ok (r\<lparr>r_next_boot := r_next_boot r + 1\<rparr>) ss"
    using ok room by (auto simp: session_ok_def intro: order.trans [OF _ less_imp_le])
  then have ok1: "session_ok ?r1 ss"
    by (simp add: adopt_base_def Let_def session_ok_revoke split: option.split)
  have new: "?b \<noteq> MkId (r_next_boot r + 1)" if "ss_has_worker ss"
    using ok room that by (auto simp: session_ok_def)
  have live: "is_boot_live (r_authority ?r) ?b \<longleftrightarrow> is_boot_live (r_authority ?r1) ?b" if "ss_has_worker ss"
    using new [OF that] by (simp add: adopt_worker_eq Let_def is_boot_live_def)
  have dead: "\<not> is_boot_live (r_authority ?r1) ?b" if "ss_has_worker ss" "ss_worker ss = w"
    using adopt_base_not_live [OF inv room] adopt_base_live ok that by (auto simp: session_ok_def)
  have bound: "id_value ?b \<le> r_next_boot ?r" if "ss_has_worker ss"
    using bump that by (simp add: session_ok_def)
  show "session_ok ?r ss"
  proof (cases "ss_worker ss = w")
    case True
    then show ?thesis using dead live bound by (auto simp: session_ok_def)
  next
    case False
    then show ?thesis
      using ok1 live bound by (auto simp: session_ok_def adopt_worker_eq Let_def)
  qed
  show "retired_boot ?r ?b" if "ss_has_worker ss" "ss_worker ss = w"
    using dead live bound that by (simp add: retired_boot_def)
qed

lemma session_ok_new: "session_ok r new_session"
  by (simp add: session_ok_def new_session_def)

lemma session_ok_cong: "auth_core r' = auth_core r \<Longrightarrow> session_ok r' ss = session_ok r ss"
  by (simp add: session_ok_def auth_core_def is_boot_live_def)

lemma session_ok_execute:
  assumes "session_ok r ss" "incarnation_inv r" "r_next_boot r < r_next_boot r + 1"
  shows "session_ok (snd (execute c r)) ss"
proof (cases c r rule: execute_cases)
  case authority_kept
  then show ?thesis using assms(1) session_ok_cong by blast
next
  case epoch
  then show ?thesis
    using assms(1) by (simp add: session_ok_def begin_coordinator_epoch_def is_boot_live_def)
next
  case (adopt w)
  then show ?thesis using session_ok_adopt(1) [OF assms] by simp
next
  case (died b)
  then show ?thesis using session_ok_revoke [OF assms(1)] by (simp add: mark_worker_died_def)
qed

text \<open>The session that adopted a worker holds its boot.\<close>

lemma session_ok_adopted:
  "adopt_worker w r = (boot, r') \<Longrightarrow>
    session_ok r' \<lparr>ss_boot = boot, ss_worker = w, ss_has_worker = True\<rparr>"
  by (auto simp: session_ok_def adopt_worker_eq Let_def)

section \<open>All sessions\<close>

text \<open>After \<open>n\<close> events; the start of the epoch counts for one command.\<close>

definition sessions_ok :: "nat \<Rightarrow> Coordinator \<Rightarrow> bool" where
  "sessions_ok n co \<longleftrightarrow> boots_ok (Suc n) (co_registry co)
     \<and> (\<forall>c ss. hm_find (co_sessions co) c = Some ss \<longrightarrow> session_ok (co_registry co) ss)"

lemma boots_ok_mono: "boots_ok n r \<Longrightarrow> n \<le> m \<Longrightarrow> boots_ok m r"
  by (simp add: boots_ok_def)

lemma boots_room: "boots_ok n r \<Longrightarrow> n < 2 ^ 63 \<Longrightarrow> r_next_boot r < r_next_boot r + 1"
  using unat_bump [of "r_next_boot r"] by (simp add: boots_ok_def)

lemma sessions_ok_start: "sessions_ok 0 start_coordinator"
proof -
  have "boots_ok 0 (new_registry default_RegistryOptions)" by (rule incarnations.initial)
  then have "boots_ok (Suc 0) (run [BeginEpoch] (new_registry default_RegistryOptions))"
    using boots_execute [of 0 _ BeginEpoch] by (simp add: run_def)
  then show ?thesis
    unfolding sessions_ok_def start_registry(1) [symmetric] by (simp add: start_coordinator_def Let_def)
qed

lemma boots_moves: "boots_ok n r \<Longrightarrow> n < 2 ^ 63 \<Longrightarrow> moves epoch r r' \<Longrightarrow> boots_ok (Suc n) r'"
  using boots_ok_mono [of n r "Suc n"] boots_execute by (auto simp: moves_def)

lemma session_ok_moves:
  "session_ok r ss \<Longrightarrow> boots_ok n r \<Longrightarrow> n < 2 ^ 63 \<Longrightarrow> moves epoch r r' \<Longrightarrow> session_ok r' ss"
  using session_ok_execute boots_room by (auto simp: moves_def boots_ok_def)

lemma session_ok_line_step:
  "line_step hello epoch ss r ss' r' \<Longrightarrow> session_ok r' ss \<Longrightarrow> session_ok r' ss'"
  by (auto elim!: line_stepE dest: session_ok_adopted)

lemma sessions_ok_event:
  assumes ok: "sessions_ok n co" and n: "n < 2 ^ 62"
  shows "sessions_ok (Suc n) (serve_event ev co)"
proof -
  let ?co = "serve_event ev co" and ?r = "co_registry co"
  have boots: "boots_ok (Suc n) ?r" and small: "Suc n < 2 ^ 63"
    using ok n by (simp_all add: sessions_ok_def)
  note mv = serve_event_moves [of co ev, THEN conjunct1]
  have kept: "session_ok (co_registry ?co) ss" if "hm_find (co_sessions co) c = Some ss" for c ss
    using session_ok_moves [OF _ boots small mv] ok that by (auto simp: sessions_ok_def)
  have "session_ok (co_registry ?co) ss" if "hm_find (co_sessions ?co) c = Some ss" for c ss
  proof (cases "co_fault co")
    case None
    then show ?thesis
    proof (cases rule: serve_event_cases [of co ev])
      case (unchanged fault)
      then show ?thesis using kept that by simp
    next
      case (connected c')
      then show ?thesis using kept [of c ss] that session_ok_new by (auto split: if_splits)
    next
      case (received c' line ss0 ss1 r1)
      have "session_ok r1 ss1"
        using session_ok_line_step [OF received(3)] kept [OF received(2)] received(4) by simp
      then show ?thesis using received kept [of c ss] that by (auto split: if_splits)
    next
      case (closed c' ss0)
      then show ?thesis using kept [of c ss] that by (auto split: if_splits)
    qed
  next
    case (Some f)
    then show ?thesis using kept that by (simp add: serve_event_ended)
  qed
  then show ?thesis
    using boots_moves [OF boots small mv] by (auto simp: sessions_ok_def)
qed

lemma sessions_ok_from:
  "sessions_ok n co \<Longrightarrow> n + length evs \<le> 2 ^ 62 \<Longrightarrow> sessions_ok (n + length evs) (serve_from co evs)"
proof (induction evs arbitrary: n co)
  case (Cons ev evs)
  then show ?case
    using sessions_ok_event [of n co ev] Cons.IH [of "Suc n" "serve_event ev co"] by simp
qed simp

lemma sessions_ok_serve: "length evs \<le> 2 ^ 62 \<Longrightarrow> sessions_ok (length evs) (serve evs)"
  using sessions_ok_from [OF sessions_ok_start] by (simp add: serve_serve_from)

text \<open>A retired boot stays retired, and a session with one can only say \<^verbatim>\<open>HELLO\<close>.\<close>

lemma retired_from:
  "sessions_ok n co \<Longrightarrow> n + length evs \<le> 2 ^ 62 \<Longrightarrow> retired_boot (co_registry co) b \<Longrightarrow>
    retired_boot (co_registry (serve_from co evs)) b"
proof (induction evs arbitrary: n co)
  case (Cons ev evs)
  have "boots_ok (Suc n) (co_registry co)" "Suc n < 2 ^ 63"
    using Cons.prems by (simp_all add: sessions_ok_def)
  then have "retired_boot (co_registry (serve_event ev co)) b"
    using serve_event_moves [of co ev] Cons.prems(3) retired_execute boots_room
    by (auto simp: moves_def)
  then show ?case
    using sessions_ok_event [of n co ev] Cons.IH [of "Suc n" "serve_event ev co"] Cons.prems by simp
qed simp

lemma line_step_retired:
  "line_step False epoch ss r ss' r' \<Longrightarrow> retired_boot r (ss_boot ss) \<Longrightarrow> ss' = ss \<and> r' = r"
  by (auto elim!: line_stepE simp: session_command_def fenced_def execute_reject fenced_not_accepted
      split: option.splits)

lemma handle_line_retired:
  "\<not> is_hello line \<Longrightarrow> retired_boot r (ss_boot ss) \<Longrightarrow> \<exists>reply. handle_line epoch line ss r = (reply, ss, r)"
  using handle_line_step [of epoch line ss r] line_step_retired [of epoch ss r]
  by (cases "handle_line epoch line ss r") auto

section \<open>A worker that comes back\<close>

lemma split_loop_plain: "sep \<notin> set s \<Longrightarrow> split_loop sep out cur s = out @ [cur @ s]"
  by (induction s arbitrary: cur) auto

lemma show_nat_plain:
  assumes "\<not> is_digit x" shows "x \<notin> set (show_nat n)"
  using assms show_nat_digits [of n] by (auto simp: list_all_iff)

lemma comma_no_digit: "\<not> is_digit CHR '',''"
  by (simp add: is_digit_def)

lemma digit_no_space: "is_digit c \<Longrightarrow> \<not> is_space c"
  by (auto simp: is_digit_def is_space_def)

lemma dropWhile_digits: "list_all is_digit s \<Longrightarrow> dropWhile is_space s = s"
  by (cases s) (auto simp: digit_no_space)

lemma takeWhile_digits: "list_all is_digit s \<Longrightarrow> takeWhile is_digit s = s"
  by (induction s) auto

lemma scan_show_nat: "scan_number (show_nat n) = Some (False, n)"
proof -
  obtain c t where s: "show_nat n = c # t" "is_digit c"
    using show_nat_digits [of n] show_nat_nonempty [of n] by (cases "show_nat n") auto
  then have "c \<noteq> CHR ''-''" "c \<noteq> CHR ''+''" by (auto simp: is_digit_def)
  then show ?thesis
    using s digit_no_space [OF s(2)] show_nat_digits [of n] digits_val_show_nat [of n]
    by (simp add: scan_number_def dropWhile_digits takeWhile_digits)
qed

lemma stoull_show_nat: "n < 2 ^ 64 \<Longrightarrow> stoull (show_nat n) = Some (of_nat n)"
  by (simp add: stoull_def scan_show_nat)

lemma split_hello: "split_fields (worker_hello w) CHR '','' = [''HELLO'', show_nat w]"
  by (simp add: split_fields_def worker_hello_def split_loop_plain show_nat_plain comma_no_digit)

lemma handle_hello:
  "w < 2 ^ 64 \<Longrightarrow> handle_line epoch (worker_hello w) ss r =
    (case adopt_worker (MkId (of_nat w)) r of
       (boot, r') \<Rightarrow> (Return (text_frame ACK (''BOOT='' @ show_u64 (id_value boot))),
         \<lparr>ss_boot = boot, ss_worker = MkId (of_nat w), ss_has_worker = True\<rparr>, r'))"
  by (simp add: handle_line_def split_hello number_def field_def and_then_def stoull_show_nat)

lemma serve_hello:
  "w < 2 ^ 64 \<Longrightarrow> co_fault co = None \<Longrightarrow> hm_find (co_sessions co) c = Some ss \<Longrightarrow>
    co_registry (serve_event (Received c (worker_hello w)) co) =
      snd (adopt_worker (MkId (of_nat w)) (co_registry co))"
  by (simp add: serve_event_def handle_hello split: prod.split)

lemma retired_request:
  assumes "retired_boot (co_registry co) (ss_boot ss)" "hm_find (co_sessions co) c = Some ss"
  shows "\<not> is_hello line \<Longrightarrow> co_registry (serve_event (Received c line) co) = co_registry co"
    and "co_registry (serve_event (Closed c) co) = co_registry co"
proof -
  assume "\<not> is_hello line"
  then obtain reply where "handle_line (co_epoch co) line ss (co_registry co) = (reply, ss, co_registry co)"
    using handle_line_retired assms(1) by blast
  then show "co_registry (serve_event (Received c line) co) = co_registry co"
    using assms(2) by (simp add: serve_event_def split: outcome.split)
next
  show "co_registry (serve_event (Closed c) co) = co_registry co"
    using assms by (simp add: serve_event_def end_session_def mark_worker_died_def
        revoke_boot_internal_def retired_boot_def)
qed

text \<open>
  C6. When a worker says \<^verbatim>\<open>HELLO\<close> on another connection, its earlier session loses the
  registry for good: as long as that session does not say \<^verbatim>\<open>HELLO\<close> itself, none of its
  requests changes the registry, and neither does the end of its connection, however late, so the new
  incarnation cannot be taken down by it.
\<close>

theorem restart_fences_session:
  assumes "hm_find (co_sessions (serve evs)) c = Some ss"
    and "ss_has_worker ss" "ss_worker ss = MkId (of_nat w)" "w < 2 ^ 64"
    and "co_fault (serve evs) = None" "hm_find (co_sessions (serve evs)) c' = Some ss'"
    and "length evs + length later < 2 ^ 62"
    and "hm_find (co_sessions (serve (evs @ Received c' (worker_hello w) # later))) c = Some ss"
    and "\<not> is_hello line"
  shows "\<not> is_boot_live (r_authority (co_registry
            (serve (evs @ Received c' (worker_hello w) # later)))) (ss_boot ss)
      \<and> co_registry (serve (evs @ Received c' (worker_hello w) # later @ [Received c line]))
          = co_registry (serve (evs @ Received c' (worker_hello w) # later))
      \<and> co_registry (serve (evs @ Received c' (worker_hello w) # later @ [Closed c]))
          = co_registry (serve (evs @ Received c' (worker_hello w) # later))"
proof -
  let ?co = "serve evs" and ?hello = "Received c' (worker_hello w)"
  let ?final = "serve (evs @ ?hello # later)"
  have ok: "sessions_ok (length evs) ?co" using sessions_ok_serve assms(7) by simp
  have "retired_boot (snd (adopt_worker (MkId (of_nat w)) (co_registry ?co))) (ss_boot ss)"
    using session_ok_adopt(2) [of "co_registry ?co" ss] ok assms(1-3,7)
      boots_room [of "Suc (length evs)" "co_registry ?co"]
    by (simp add: sessions_ok_def boots_ok_def)
  then have "retired_boot (co_registry (serve_event ?hello ?co)) (ss_boot ss)"
    using serve_hello assms(4-6) by simp
  then have retired: "retired_boot (co_registry ?final) (ss_boot ss)"
    using retired_from [OF sessions_ok_event [OF ok, where ev = ?hello], of later] assms(7)
    by (simp add: serve_serve_from)
  show ?thesis
    using retired_request [OF retired assms(8)] assms(9) retired
    by (simp add: serve_serve_from retired_boot_def)
qed

section \<open>Instances and connections\<close>

text \<open>
  The events of workers that say \<^verbatim>\<open>HELLO\<close> once on a connection, as
  \<^verbatim>\<open>worker.cpp\<close> does.
\<close>

definition orderly_event :: "Coordinator \<Rightarrow> Event \<Rightarrow> bool" where
  "orderly_event co ev =
    (case ev of
       Received c line \<Rightarrow>
         (case hm_find (co_sessions co) c of
            Some ss \<Rightarrow> \<not> (ss_has_worker ss \<and> is_hello line)
          | None \<Rightarrow> True)
     | _ \<Rightarrow> True)"

fun orderly :: "Coordinator \<Rightarrow> Event list \<Rightarrow> bool" where
  "orderly co [] = True"
| "orderly co (ev # evs) = (orderly_event co ev \<and> orderly (serve_event ev co) evs)"

definition held :: "Coordinator \<Rightarrow> WorkerBootId \<Rightarrow> bool" where
  "held co b \<longleftrightarrow> (\<exists>c ss. hm_find (co_sessions co) c = Some ss \<and> ss_has_worker ss \<and> ss_boot ss = b)"

definition all_held :: "Coordinator \<Rightarrow> bool" where
  "all_held co \<longleftrightarrow> (\<forall>b. is_boot_live (r_authority (co_registry co)) b \<longrightarrow> held co b)"

lemma all_heldE:
  assumes "all_held co" "is_boot_live (r_authority (co_registry co)) b"
  obtains c ss where "hm_find (co_sessions co) c = Some ss" "ss_has_worker ss" "ss_boot ss = b"
  using assms by (auto simp: all_held_def held_def)

lemma session_command_live:
  "session_command epoch ss c \<Longrightarrow>
    is_boot_live (r_authority (snd (execute c r))) b = is_boot_live (r_authority r) b"
proof -
  assume "session_command epoch ss c"
  then have "c \<noteq> BeginEpoch" "\<forall>w. c \<noteq> AdoptWorker w" "\<forall>b. c \<noteq> WorkerDied b"
    by (auto simp: session_command_def)
  then have "auth_core (snd (execute c r)) = auth_core r" by (rule auth_core_execute)
  then show ?thesis by (simp add: auth_core_def is_boot_live_def)
qed

lemma line_step_live:
  assumes "line_step hello epoch ss r ss' r'" "is_boot_live (r_authority r') b"
  shows "(hello \<and> ss_has_worker ss' \<and> ss_boot ss' = b) \<or> 
    (is_boot_live (r_authority r) b \<and> (\<not> hello \<longrightarrow> ss' = ss))"
  using assms(1)
proof (rule line_stepE)
  fix c assume "ss' = ss" "r' = snd (execute c r)" "session_command epoch ss c"
  then show ?thesis using assms(2) session_command_live by simp
next
  fix w boot
  assume new: "ss' = \<lparr>ss_boot = boot, ss_worker = w, ss_has_worker = True\<rparr>" "adopt_worker w r = (boot, r')" hello
  then have "r' = snd (adopt_worker w r)" "boot = MkId (r_next_boot r + 1)"
    by (simp, simp add: adopt_worker_eq Let_def)
  then show ?thesis using adopt_live [of w r b] assms(2) new by auto
qed (use assms(2) in simp)

lemma all_held_event:
  assumes inv: "all_held co" and ord: "orderly_event co ev"
  shows "all_held (serve_event ev co)"
proof (cases "co_fault co")
  case None
  then show ?thesis
  proof (cases rule: serve_event_cases [of co ev])
    case (unchanged fault)
    then show ?thesis using inv by (simp add: all_held_def held_def)
  next
    case (connected c)
    then have "held (serve_event ev co) b" if "held co b" for b
      using that unfolding held_def by (metis Coordinator.select_convs(3) Coordinator.surjective
          Coordinator.update_convs(3) hm_find_put option.distinct(1))
    then show ?thesis using inv connected by (simp add: all_held_def)
  next
    case (received c line ss ss' r')
    have "held (serve_event ev co) b" if live: "is_boot_live (r_authority r') b" for b
      using line_step_live [OF received(3) live]
    proof (elim disjE conjE)
      assume "is_hello line" "ss_has_worker ss'" "ss_boot ss' = b"
      then show ?thesis using received(4) by (force simp: held_def)
    next
      assume before: "is_boot_live (r_authority (co_registry co)) b" 
        and kind: "\<not> is_hello line \<longrightarrow> ss' = ss"
      obtain c0 ss0 where s0: "hm_find (co_sessions co) c0 = Some ss0" "ss_has_worker ss0" "ss_boot ss0 = b"
        using all_heldE [OF inv before] .
      have "hm_find (co_sessions (serve_event ev co)) c0 = Some ss0"
        using s0 kind ord received by (auto simp: orderly_event_def)
      then show ?thesis using s0 by (auto simp: held_def)
    qed
    then show ?thesis using received(4) by (simp add: all_held_def)
  next
    case (closed c ss)
    have "held (serve_event ev co) b"
      if live: "is_boot_live (r_authority (end_session ss (co_registry co))) b" for b
    proof -
      from live have before: "is_boot_live (r_authority (co_registry co)) b" "ss_has_worker ss \<Longrightarrow> b \<noteq> ss_boot ss"
        by (auto simp: end_session_def mark_worker_died_def split: if_splits)
      obtain c0 ss0 where s0: "hm_find (co_sessions co) c0 = Some ss0" "ss_has_worker ss0" "ss_boot ss0 = b"
        using all_heldE [OF inv before(1)] .
      then have "c0 \<noteq> c" using before(2) closed(2) by auto
      then have "hm_find (co_sessions (serve_event ev co)) c0 = Some ss0"
        using s0 closed(3) by simp
      then show ?thesis using s0 by (auto simp: held_def)
    qed
    then show ?thesis using closed(3) by (simp add: all_held_def)
  qed
qed (use inv in \<open>simp add: serve_event_ended\<close>)

lemma all_held_from: "all_held co \<Longrightarrow> orderly co evs \<Longrightarrow> all_held (serve_from co evs)"
  by (induction evs arbitrary: co) (simp_all add: all_held_event)

lemma all_held_start: "all_held start_coordinator"
  by (simp add: all_held_def start_coordinator_def Let_def begin_coordinator_epoch_def is_boot_live_def)

end
