(* ===== verification/RR_Deployment.thy ===== *)
theory RR_Deployment
  imports RR_Sessions
begin

text \<open>
  The worker program against the coordinator program: the requests of \<^verbatim>\<open>worker.cpp\<close> are
  understood as it means them, and what the coordinator offers is backed by open connections. A small
  deployment shows that the hypotheses can hold, and what lies outside them.
\<close>

section \<open>The requests of a worker\<close>

lemma split_loop_field:
  "sep \<notin> set a \<Longrightarrow> split_loop sep out cur (a @ sep # s) = split_loop sep (out @ [cur @ a]) [] s"
  by (induction a arbitrary: cur) auto

lemma split_worker_hold:
  "map (\<lambda>s. split_fields s CHR '','') (worker_hold w (show_nat g)) =
    [[''REG_RT'', show_nat w, show_nat w, ''1'', ''native'', ''cpp'', ''x64''],
     [''REG_SV'', show_nat (100 + w), ''1'', ''MODEL_SERVER'', ''svc'', ''CUDA''],
     [''REG_EP'', show_nat w, show_nat g, show_nat (41000 + w)],
     [''REG_CA'', show_nat w, ''CUDA_AVAILABLE''],
     [''REG_IN'', show_nat (100 + w), show_nat g, ''1'', show_nat w, show_nat w, show_nat w, show_nat w]]"
  by (simp add: worker_hold_def split_fields_def split_loop_field split_loop_plain show_nat_plain comma_no_digit)

text \<open>What the coordinator makes of them.\<close>

definition worker_runtime :: "nat \<Rightarrow> RuntimeDescriptor" where
  "worker_runtime w = default_RuntimeDescriptor
    \<lparr>rt_runtime_id := MkId (of_nat w), rt_runtime_instance := MkId (of_nat w), rt_generation := MkGen 1,
     rt_kind := RuntimeKind.NATIVE_CPP, rt_name := ''native'', rt_family := ''cpp'',
     rt_version := version_1_0_0, rt_api_version := StructuredVersion 1 0 0,
     rt_abi_version := StructuredVersion 1 0 0, rt_architecture := ''x64''\<rparr>"

definition worker_service :: "nat \<Rightarrow> ServiceDescriptor" where
  "worker_service w = default_ServiceDescriptor
    \<lparr>svc_service_id := MkId (of_nat (100 + w)), svc_generation := MkGen 1,
     svc_kind := ServiceKind.MODEL_SERVER, svc_name := ''svc'', svc_version := version_1_0_0,
     svc_api_version := StructuredVersion 1 0 0, svc_abi_version := StructuredVersion 1 0 0,
     svc_required_capabilities := [CapabilityKind.CUDA_AVAILABLE]\<rparr>"

definition worker_endpoint :: "nat \<Rightarrow> nat \<Rightarrow> EndpointDescriptor" where
  "worker_endpoint w g = default_EndpointDescriptor
    \<lparr>ep_endpoint_id := MkId (of_nat w), ep_generation := MkGen (of_nat g), ep_protocol := MkId 1,
     ep_locator := \<lparr>loc_text = ''127.0.0.1:'' @ show_nat (41000 + w)\<rparr>,
     ep_transport := TransportKind.TCP, ep_port := of_nat (41000 + w), ep_health := Health.HEALTHY,
     ep_reachability := Reachability.REACHABLE, ep_freshness := Freshness.CURRENT,
     ep_provenance := make_provenance EvidenceKind.MEASURED ''probe'' 0 []\<rparr>"

definition worker_capability :: "nat \<Rightarrow> CapabilityDescriptor" where
  "worker_capability w = default_CapabilityDescriptor
    \<lparr>cap_capability_id := MkId (of_nat w), cap_kind := CapabilityKind.CUDA_AVAILABLE,
     cap_generation := MkGen 1, cap_version := version_1_0_0, cap_value := make_bool True,
     cap_freshness := Freshness.CURRENT,
     cap_provenance := make_provenance EvidenceKind.MEASURED ''dev'' 0 []\<rparr>"

definition worker_instance :: "WorkerId \<Rightarrow> WorkerBootId \<Rightarrow> nat \<Rightarrow> nat \<Rightarrow> ServiceInstance" where
  "worker_instance worker boot w g = default_ServiceInstance
    \<lparr>si_service_id := MkId (of_nat (100 + w)), si_service_generation := MkGen 1,
     si_instance_generation := MkGen (of_nat g), si_node := MkId 1, si_worker := worker,
     si_boot := boot, si_runtime_id := MkId (of_nat w), si_runtime_instance := MkId (of_nat w),
     si_endpoints := [MkId (of_nat w)], si_capabilities := [MkId (of_nat w)],
     si_health := Health.HEALTHY, si_readiness := Readiness.READY,
     si_freshness := Freshness.CURRENT, si_reachability := Reachability.REACHABLE,
     si_version := version_1_0_0, si_provenance := make_provenance EvidenceKind.REPORTED ''worker'' 0 [],
     si_lifecycle := Lifecycle.REGISTERING\<rparr>"

lemma stoi_show_nat: "n < 2 ^ 31 \<Longrightarrow> stoi (show_nat n) = Some (int n)"
  by (simp add: stoi_def scan_show_nat Let_def)

lemma stoull_one: "stoull ''1'' = Some 1"
  using stoull_show_nat [of 1] by (simp add: show_nat.simps)

lemma worker_requests_understood:
  assumes "w < 2 ^ 30" "g < 2 ^ 64"
  shows "parse_runtime (split_fields (worker_hold w (show_nat g) ! 0) CHR '','') = Return (worker_runtime w)"
    and "parse_service (split_fields (worker_hold w (show_nat g) ! 1) CHR '','') = Return (worker_service w)"
    and "parse_endpoint (split_fields (worker_hold w (show_nat g) ! 2) CHR '','') = Return (worker_endpoint w g)"
    and "parse_capability (split_fields (worker_hold w (show_nat g) ! 3) CHR '','') = Return (worker_capability w)"
    and "parse_instance worker boot (split_fields (worker_hold w (show_nat g) ! 4) CHR '','') =
      Return (worker_instance worker boot w g)"
proof -
  have "stoull (show_nat w) = Some (of_nat w)" "stoull (show_nat (100 + w)) = Some (of_nat (100 + w))"
    "stoull (show_nat g) = Some (of_nat g)" "stoi (show_nat (41000 + w)) = Some (int (41000 + w))"
    using assms by (simp_all add: stoull_show_nat stoi_show_nat)
  note facts = this
  have nth: "split_fields (worker_hold w (show_nat g) ! i) CHR '','' =
     map (\<lambda>s. split_fields s CHR '','') (worker_hold w (show_nat g)) ! i" if "i < 5" for i
    using that by (subst nth_map) (simp_all add: worker_hold_def)
  show "parse_runtime (split_fields (worker_hold w (show_nat g) ! 0) CHR '','') = Return (worker_runtime w)"
    by (subst nth) (simp_all add: split_worker_hold parse_runtime_def field_def number_def and_then_def facts stoull_one worker_runtime_def)
  show "parse_service (split_fields (worker_hold w (show_nat g) ! 1) CHR '','') = Return (worker_service w)"
    by (subst nth, simp)
      (simp only: split_worker_hold, simp add: parse_service_def field_def number_def and_then_def facts [simplified] stoull_one worker_service_def service_kind_from_string_def)
  show "parse_endpoint (split_fields (worker_hold w (show_nat g) ! 2) CHR '','') = Return (worker_endpoint w g)"
    by (subst nth) (simp_all add: split_worker_hold parse_endpoint_def field_def number_def and_then_def facts [simplified] stoull_one worker_endpoint_def)
  show "parse_capability (split_fields (worker_hold w (show_nat g) ! 3) CHR '','') = Return (worker_capability w)"
    by (subst nth) (simp_all add: split_worker_hold parse_capability_def field_def number_def and_then_def facts stoull_one worker_capability_def capability_kind_from_string_def)
  show "parse_instance worker boot (split_fields (worker_hold w (show_nat g) ! 4) CHR '','') =
      Return (worker_instance worker boot w g)"
    by (subst nth) (simp_all add: split_worker_hold parse_instance_def field_def number_def and_then_def facts stoull_one worker_instance_def)
qed

text \<open>The commands behind the five requests.\<close>

definition worker_commands :: "CoordinatorEpoch \<Rightarrow> Session \<Rightarrow> nat \<Rightarrow> nat \<Rightarrow> Command list" where
  "worker_commands epoch ss w g =
    (let env = session_envelope epoch ss in
      [RegisterRuntime (worker_runtime w) env, RegisterService (worker_service w) env,
       RegisterEndpoint (worker_endpoint w g) env, RegisterCapability (worker_capability w) env,
       RegisterInstance (worker_instance (ss_worker ss) (ss_boot ss) w g) env])"

definition one_connection :: "CoordinatorEpoch \<Rightarrow> Session \<Rightarrow> Registry \<Rightarrow> Coordinator" where
  "one_connection epoch ss r =
    \<lparr>co_epoch = epoch, co_registry = r, co_sessions = [(0, ss)], co_fault = None\<rparr>"

lemma serve_perform:
  assumes "handle_line epoch line ss r = perform (Return d) f ok ss r"
  shows "serve_event (Received 0 line) (one_connection epoch ss r) = one_connection epoch ss (snd (f d r))"
proof -
  have "serve_event (Received 0 line) (one_connection epoch ss r) =
      one_connection epoch ss (snd (snd (perform (Return d) f ok ss r)))"
    using assms
    by (simp add: serve_event_def one_connection_def perform_def hm_put_def split: prod.split)
  then show ?thesis by (simp add: perform_registry)
qed

lemma worker_lines:
  fixes epoch :: CoordinatorEpoch
  assumes "w < 2 ^ 30" "g < 2 ^ 64" "ss_has_worker ss"
  defines "env \<equiv> session_envelope epoch ss" and "line \<equiv> \<lambda>i. worker_hold w (show_nat g) ! i"
  shows "handle_line epoch (line 0) ss r =
      perform (Return (worker_runtime w)) (\<lambda>d. register_runtime d env) (\<lambda>_. ''OK'') ss r"
    and "handle_line epoch (line 1) ss r =
      perform (Return (worker_service w)) (\<lambda>d. register_service d env) (\<lambda>_. ''OK'') ss r"
    and "handle_line epoch (line 2) ss r =
      perform (Return (worker_endpoint w g)) (\<lambda>d. register_endpoint d env) (\<lambda>_. ''OK'') ss r"
    and "handle_line epoch (line 3) ss r =
      perform (Return (worker_capability w)) (\<lambda>d. register_capability d env) (\<lambda>_. ''OK'') ss r"
    and "handle_line epoch (line 4) ss r =
      perform (Return (worker_instance (ss_worker ss) (ss_boot ss) w g)) (\<lambda>d. register_instance d env)
        (\<lambda>i. ''ID='' @ show_u64 (id_value i)) ss r"
proof -
  have op: "split_fields (line i) CHR '','' ! 0 =
     map (\<lambda>s. split_fields s CHR '','') (worker_hold w (show_nat g)) ! i ! 0" if "i < 5" for i
    using that unfolding line_def by (subst nth_map) (simp_all add: worker_hold_def)
  note ops = op [of 0] op [of 1] op [of 2] op [of 3] op [of 4]
  note ops' = ops [unfolded split_worker_hold, simplified]
  note parsed = worker_requests_understood [OF assms(1,2), folded line_def]
  show "handle_line epoch (line 0) ss r =
      perform (Return (worker_runtime w)) (\<lambda>d. register_runtime d env) (\<lambda>_. ''OK'') ss r"
    using assms(3) by (simp add: handle_line_def Let_def ops' parsed env_def)
  show "handle_line epoch (line 1) ss r =
      perform (Return (worker_service w)) (\<lambda>d. register_service d env) (\<lambda>_. ''OK'') ss r"
    using assms(3) ops'(2) parsed(2) by (simp add: handle_line_def Let_def env_def)
  show "handle_line epoch (line 2) ss r =
      perform (Return (worker_endpoint w g)) (\<lambda>d. register_endpoint d env) (\<lambda>_. ''OK'') ss r"
    using assms(3) by (simp add: handle_line_def Let_def ops' parsed env_def)
  show "handle_line epoch (line 3) ss r =
      perform (Return (worker_capability w)) (\<lambda>d. register_capability d env) (\<lambda>_. ''OK'') ss r"
    using assms(3) by (simp add: handle_line_def Let_def ops' parsed env_def)
  show "handle_line epoch (line 4) ss r =
      perform (Return (worker_instance (ss_worker ss) (ss_boot ss) w g)) (\<lambda>d. register_instance d env)
        (\<lambda>i. ''ID='' @ show_u64 (id_value i)) ss r"
    using assms(3) by (simp add: handle_line_def Let_def ops' parsed env_def)
qed

text \<open>
  The five requests that \<^verbatim>\<open>worker.cpp\<close> sends once it holds a boot are understood by
  the coordinator as the five registrations they mean, and performed in that order under the epoch of
  the process and the boot of the session; none of them ends the process.
\<close>

lemma worker_registers:
  assumes "w < 2 ^ 30" "g < 2 ^ 64" "ss_has_worker ss"
  shows "serve_from (one_connection epoch ss r) (map (Received 0) (worker_hold w (show_nat g))) =
    one_connection epoch ss (run (worker_commands epoch ss w g) r)"
proof -
  have lines: "worker_hold w (show_nat g) = map (\<lambda>i. worker_hold w (show_nat g) ! i) [0, 1, 2, 3, 4]"
    by (simp add: worker_hold_def)
  note serve = worker_lines [OF assms, THEN serve_perform]
  show ?thesis
    by (subst lines) (simp only: list.map serve_from_simps serve run_def worker_commands_def Let_def
        foldl_Cons foldl_Nil execute.simps snd_run_op)
qed

section \<open>A deployment\<close>

definition worker_session :: Session where
  "worker_session = \<lparr>ss_boot = MkId 101, ss_worker = MkId 7, ss_has_worker = True\<rparr>"

definition deployed_commands :: "Command list" where
  "deployed_commands = [BeginEpoch, AdoptWorker (MkId 7)] @ worker_commands (MkGen 2) worker_session 7 1"

definition deployed :: Registry where
  "deployed = run deployed_commands (new_registry default_RegistryOptions)"

lemma show_41007: "show_nat 41007 = ''41007''"
  by (simp add: show_nat.simps)

lemmas worker_descriptors =
  worker_runtime_def worker_service_def worker_endpoint_def worker_capability_def worker_instance_def

lemma version_evaluated:
  "version_1_0_0 = \<lparr>sv_major = 1, sv_minor = 0, sv_patch = 0, sv_prerelease = [], sv_build = []\<rparr>"
  by code_simp

lemma deployed_evaluated:
  "map (\<lambda>(k, i). (k, si_lifecycle i, si_boot i)) (r_instances deployed) =
    [(MkId 1, Lifecycle.AVAILABLE, MkId 101)]"
  unfolding deployed_def deployed_commands_def worker_commands_def Let_def
  by (simp add: worker_descriptors session_envelope_def worker_session_def show_41007
      version_evaluated) code_simp

definition greeting :: "Event list" where
  "greeting = [Connected 0, Received 0 (worker_hello 7)]"

definition deployment :: "Event list" where
  "deployment = greeting @ map (Received 0) (worker_hold 7 (show_nat 1))"

lemma adopted_101:
  "fst (adopt_worker (MkId 7) (co_registry start_coordinator)) = MkId 101"
  by (simp add: adopt_worker_eq Let_def start_coordinator_def begin_coordinator_epoch_def new_registry_def
      rebuild_indexes_def)

lemma connect_first:
  "serve_event (Connected 0) start_coordinator =
    one_connection (MkGen 2) new_session (run [BeginEpoch] (new_registry default_RegistryOptions))"
proof -
  have start: "start_coordinator = \<lparr>co_epoch = MkGen 2,
      co_registry = run [BeginEpoch] (new_registry default_RegistryOptions), co_sessions = [], co_fault = None\<rparr>"
    unfolding start_registry [symmetric] by (simp add: start_coordinator_def Let_def)
  show ?thesis unfolding start by (simp add: serve_event_def one_connection_def hm_put_def)
qed

lemma serve_greeting:
  "serve greeting = one_connection (MkGen 2) worker_session
     (run [BeginEpoch, AdoptWorker (MkId 7)] (new_registry default_RegistryOptions))"
proof -
  let ?r = "run [BeginEpoch] (new_registry default_RegistryOptions)"
  obtain b r' where adopt: "adopt_worker (MkId 7) ?r = (b, r')" by fastforce
  then have "b = MkId 101" using adopted_101 by (simp add: start_registry)
  moreover have "run [BeginEpoch, AdoptWorker (MkId 7)] (new_registry default_RegistryOptions) = r'"
    using adopt by (simp add: run_def)
  moreover have "serve_event (Received 0 (worker_hello 7)) (one_connection (MkGen 2) new_session ?r) =
      one_connection (MkGen 2) \<lparr>ss_boot = b, ss_worker = MkId 7, ss_has_worker = True\<rparr> r'"
    using adopt by (simp add: serve_event_def one_connection_def handle_hello hm_put_def)
  ultimately show ?thesis
    by (simp add: greeting_def serve_serve_from connect_first worker_session_def)
qed

lemma serve_deployment: "serve deployment = one_connection (MkGen 2) worker_session deployed"
proof -
  have "run (worker_commands (MkGen 2) worker_session 7 1)
      (run [BeginEpoch, AdoptWorker (MkId 7)] (new_registry default_RegistryOptions)) = deployed"
    by (simp add: deployed_def deployed_commands_def run_def)
  moreover have "serve_from (serve greeting) (map (Received 0) (worker_hold 7 (show_nat 1))) =
      one_connection (MkGen 2) worker_session (run (worker_commands (MkGen 2) worker_session 7 1)
        (run [BeginEpoch, AdoptWorker (MkId 7)] (new_registry default_RegistryOptions)))"
    unfolding serve_greeting by (rule worker_registers) (simp_all add: worker_session_def)
  ultimately show ?thesis by (simp add: serve_serve_from deployment_def)
qed

text \<open>The deployment offers the instance of the worker.\<close>

lemma worker_registers_witness:
  "serve_from (serve greeting) (map (Received 0) (worker_hold 7 (show_nat 1))) =
      one_connection (MkGen 2) worker_session (run (worker_commands (MkGen 2) worker_session 7 1)
        (run [BeginEpoch, AdoptWorker (MkId 7)] (new_registry default_RegistryOptions)))
    \<and> map (\<lambda>(k, i). (k, si_lifecycle i, si_boot i)) (r_instances (co_registry (serve deployment))) =
      [(MkId 1, Lifecycle.AVAILABLE, MkId 101)]"
proof
  show "serve_from (serve greeting) (map (Received 0) (worker_hold 7 (show_nat 1))) =
      one_connection (MkGen 2) worker_session (run (worker_commands (MkGen 2) worker_session 7 1)
        (run [BeginEpoch, AdoptWorker (MkId 7)] (new_registry default_RegistryOptions)))"
    unfolding serve_greeting by (rule worker_registers) (simp_all add: worker_session_def)
qed (simp add: serve_deployment one_connection_def deployed_evaluated)

section \<open>Available instances have connections\<close>

text \<open>
  C5. As long as no connection says \<^verbatim>\<open>HELLO\<close> twice, an instance that the coordinator
  offers as available belongs to the session of a connection that is still open; so once every
  connection of a worker has ended, none of its instances is available.
\<close>

theorem available_has_connection:
  assumes "orderly start_coordinator evs"
    and "hm_find (r_instances (co_registry (serve evs))) k = Some i"
    and "si_lifecycle i = Lifecycle.AVAILABLE"
  shows "list_ex (\<lambda>(c, ss). ss_has_worker ss \<and> ss_boot ss = si_boot i) (co_sessions (serve evs))"
proof -
  have "available_ok (co_registry (serve evs))"
    using serve_reach [of evs] consistent.reach_holds by auto
  then have live: "is_boot_live (r_authority (co_registry (serve evs))) (si_boot i)"
    using assms(2,3) by (simp add: available_ok_def backed_def)
  have "all_held (serve evs)"
    using all_held_from [OF all_held_start assms(1)] by (simp add: serve_serve_from)
  then obtain c ss where
    "hm_find (co_sessions (serve evs)) c = Some ss" "ss_has_worker ss" "ss_boot ss = si_boot i"
    using all_heldE live by blast
  then show ?thesis using hm_find_in_set by (fastforce simp: list_ex_iff)
qed

lemma orderly_append: "orderly co (evs @ evs') \<longleftrightarrow> orderly co evs \<and> orderly (serve_from co evs) evs'"
  by (induction evs arbitrary: co) simp_all

lemma orderly_requests:
  "list_all (\<lambda>line. \<not> is_hello line) lines \<Longrightarrow> orderly co (map (Received c) lines)"
  by (induction lines arbitrary: co) (simp_all add: orderly_event_def split: option.split)

lemma hold_not_hello: "list_all (\<lambda>line. \<not> is_hello line) (worker_hold 7 (show_nat 1))"
proof -
  have "list_all (\<lambda>p. p ! 0 \<noteq> ''HELLO'') (map (\<lambda>s. split_fields s CHR '','') (worker_hold 7 (show_nat 1)))"
    unfolding split_worker_hold by simp
  then show ?thesis by (simp add: list_all_iff is_hello_def)
qed

lemma orderly_deployment: "orderly start_coordinator deployment"
proof -
  have "orderly start_coordinator greeting"
    by (simp add: greeting_def orderly_event_def connect_first one_connection_def new_session_def)
  then show ?thesis
    unfolding deployment_def orderly_append using orderly_requests [OF hold_not_hello] by blast
qed

lemma available_has_connection_witness:
  "list_ex (\<lambda>(c, ss). ss_has_worker ss \<and> ss_boot ss = MkId 101) (co_sessions (serve deployment))"
proof -
  have "map (\<lambda>(k, i). (k, si_lifecycle i, si_boot i)) (r_instances (co_registry (serve deployment))) =
      [(MkId 1, Lifecycle.AVAILABLE, MkId 101)]"
    by (simp add: serve_deployment one_connection_def deployed_evaluated)
  then obtain i where "r_instances (co_registry (serve deployment)) = [(MkId 1, i)]"
    "si_lifecycle i = Lifecycle.AVAILABLE" "si_boot i = MkId 101"
    by auto
  then show ?thesis
    using available_has_connection [OF orderly_deployment, of "MkId 1" i] by simp
qed

section \<open>Restarts\<close>

definition two_connections :: "Event list" where
  "two_connections = greeting @ [Connected 1]"

lemma serve_two_connections:
  "co_sessions (serve two_connections) = [(0, worker_session), (1, new_session)]"
  "co_fault (serve two_connections) = None"
  by (simp_all add: two_connections_def serve_serve_from)
    (simp_all add: serve_serve_from [symmetric] serve_greeting serve_event_def one_connection_def hm_put_def)

lemma handle_hello_session:
  "w < 2 ^ 64 \<Longrightarrow> co_fault co = None \<Longrightarrow> hm_find (co_sessions co) c = Some ss \<Longrightarrow>
    co_sessions (serve_event (Received c (worker_hello w)) co) =
      hm_put c \<lparr>ss_boot = fst (adopt_worker (MkId (of_nat w)) (co_registry co)),
        ss_worker = MkId (of_nat w), ss_has_worker = True\<rparr> (co_sessions co)"
  by (simp add: serve_event_def handle_hello split: prod.split)

lemma serve_restart:
  "hm_find (co_sessions (serve (two_connections @ Received 1 (worker_hello 7) # []))) 0 = Some worker_session"
  using handle_hello_session [of 7 "serve two_connections" 1]
  by (simp add: serve_serve_from) (simp add: serve_serve_from [symmetric] serve_two_connections)

text \<open>The old session of the worker asks for a registration, then its connection ends.\<close>

lemma restart_fences_session_witness:
  "\<not> is_boot_live (r_authority (co_registry
        (serve (two_connections @ Received 1 (worker_hello 7) # [])))) (ss_boot worker_session)
    \<and> co_registry (serve (two_connections @ Received 1 (worker_hello 7) # []
          @ [Received 0 ''REG_CA,7,CUDA_AVAILABLE'']))
        = co_registry (serve (two_connections @ Received 1 (worker_hello 7) # []))
    \<and> co_registry (serve (two_connections @ Received 1 (worker_hello 7) # [] @ [Closed 0]))
        = co_registry (serve (two_connections @ Received 1 (worker_hello 7) # []))"
proof (rule restart_fences_session [where w = 7 and ss' = new_session])
  show "hm_find (co_sessions (serve two_connections)) 0 = Some worker_session"
    "hm_find (co_sessions (serve two_connections)) 1 = Some new_session"
    by (simp_all add: serve_two_connections)
  show "hm_find (co_sessions (serve (two_connections @ Received 1 (worker_hello 7) # []))) 0 =
      Some worker_session"
    by (rule serve_restart)
qed (simp_all add: serve_two_connections,
    simp_all add: worker_session_def two_connections_def greeting_def is_hello_def split_fields_def)

section \<open>What lies outside\<close>

text \<open>
  A connection that says \<^verbatim>\<open>HELLO\<close> for two workers leaves the boot of the first one live
  when it ends, and nothing but a restart of that worker will end it.
\<close>

lemma ghost_boot:
  "is_boot_live (r_authority (run [BeginEpoch, AdoptWorker (MkId 1), AdoptWorker (MkId 2), WorkerDied (MkId 102)]
     (new_registry default_RegistryOptions))) (MkId 101)"
  by (simp add: run_def mark_worker_died_def adopt_worker_eq adopt_base_def Let_def is_boot_live_def
      begin_coordinator_epoch_def new_registry_def rebuild_indexes_def)

text \<open>
  One malformed line ends the process: a missing field is read behind the end of the vector, and a
  number that does not parse raises an exception that nothing catches.
\<close>

lemma serve_from_ended: "co_fault co \<noteq> None \<Longrightarrow> serve_from co evs = co"
  by (induction evs) (simp_all add: serve_event_ended)

lemma line_ends_process:
  "co_fault (serve (Connected 0 # Received 0 ''HELLO,x'' # evs)) = Some Uncaught_Exception"
  "co_fault (serve (Connected 0 # Received 0 ''HELLO'' # evs)) = Some Undefined_Access"
proof -
  have x: "handle_line (MkGen 2) ''HELLO,x'' new_session r = (Throw Uncaught_Exception, new_session, r)" for r
    by (simp add: handle_line_def split_fields_def number_def field_def and_then_def stoull_def
        scan_number_def is_space_def is_digit_def)
  have e: "handle_line (MkGen 2) ''HELLO'' new_session r = (Throw Undefined_Access, new_session, r)" for r
    by (simp add: handle_line_def split_fields_def number_def field_def and_then_def)
  let ?co = "one_connection (MkGen 2) new_session (run [BeginEpoch] (new_registry default_RegistryOptions))"
  have "co_fault (serve_event (Received 0 ''HELLO,x'') ?co) = Some Uncaught_Exception"
    "co_fault (serve_event (Received 0 ''HELLO'') ?co) = Some Undefined_Access"
    by (simp_all add: serve_event_def one_connection_def x e)
  then show "co_fault (serve (Connected 0 # Received 0 ''HELLO,x'' # evs)) = Some Uncaught_Exception"
    "co_fault (serve (Connected 0 # Received 0 ''HELLO'' # evs)) = Some Undefined_Access"
    by (simp_all add: serve_serve_from connect_first serve_from_ended)
qed

text \<open>A header that arrives in two pieces is taken for the end of the connection.\<close>

lemma short_header: "length c < 10 \<Longrightarrow> recv_one (c # s) = ([], s)"
  by (simp add: recv_one_def)

text \<open>The port of the endpoint of a worker wraps around.\<close>

lemma worker_port_wraps: "ep_port (worker_endpoint 24536 g) = 0"
  by (simp add: worker_endpoint_def)

end
