(* ===== verification/RR_Transport.thy ===== *)
theory RR_Transport
  imports RR_Sockets RR_Deployment
begin

text \<open>
  Frames over a byte stream: what the sender writes is what the receiver reads, however the transport
  cuts the bytes into chunks, as long as a header arrives in one piece. The loop of a connection is
  then the sequence of the events that the texts it receives stand for.
\<close>

section \<open>Chunks\<close>

definition chunks :: "bytes list \<Rightarrow> bool" where
  "chunks s \<longleftrightarrow> list_all (\<lambda>c. c \<noteq> []) s"

lemma chunks_simps [simp]:
  "chunks []" "chunks (c # s) \<longleftrightarrow> c \<noteq> [] \<and> chunks s" "chunks (s @ t) \<longleftrightarrow> chunks s \<and> chunks t"
  by (simp_all add: chunks_def)

lemma recv_chunks:
  assumes "recv n s = (b, s')" "chunks s"
  shows "concat s = b @ concat s' \<and> chunks s'" and "0 < n \<Longrightarrow> s \<noteq> [] \<Longrightarrow> b \<noteq> []"
  using assms by (cases s; auto split: if_splits)+

text \<open>The loop returns exactly the bytes it is asked for, and leaves the others on the socket.\<close>

lemma recv_rest_chunks:
  "chunks s \<Longrightarrow> n \<le> length (concat s) \<Longrightarrow>
    \<exists>s'. recv_rest n s = (Some (take n (concat s)), s') \<and> concat s' = drop n (concat s) \<and> chunks s'"
proof (induction n s rule: recv_rest.induct)
  case (1 n s)
  show ?case
  proof (cases "n = 0")
    case True
    then show ?thesis using "1.prems" by (simp add: recv_rest.simps)
  next
    case False
    obtain b s1 where b: "recv n s = (b, s1)" by fastforce
    have "s \<noteq> []" using False "1.prems"(2) by auto
    then have s: "concat s = b @ concat s1" "chunks s1" "b \<noteq> []"
      using recv_chunks [OF b "1.prems"(1)] False by simp_all
    have len: "length b \<le> n" using b by (rule recv_length)
    obtain s' where s': "recv_rest (n - length b) s1 = (Some (take (n - length b) (concat s1)), s')"
      "concat s' = drop (n - length b) (concat s1)" "chunks s'"
      using "1.IH" False b s "1.prems"(2) by fastforce
    have "recv_rest n s = (Some (b @ take (n - length b) (concat s1)), s')"
      using False b s(3) s'(1) by (subst recv_rest.simps) simp
    then show ?thesis using s(1) s'(2,3) len by simp
  qed
qed

text \<open>Chunks that end where the request ends are consumed as a whole.\<close>

lemma recv_rest_exact: "chunks cs \<Longrightarrow> recv_rest (length (concat cs)) (cs @ s) = (Some (concat cs), s)"
proof (induction cs)
  case (Cons c cs)
  then show ?case by (subst recv_rest.simps) simp
qed (simp add: recv_rest.simps)

section \<open>Frames\<close>

lemma text_of_text [simp]: "text_of (map byte_of_char t) = t"
  by (induction t) (simp_all add: text_of_def)

lemma frame_bytes:
  assumes "length (fr_payload f) \<le> unat kMaxPayload"
  shows "length (encode_frame f) = 14 + length (fr_payload f)"
    and "get_u32 (take 10 (encode_frame f)) 6 = of_nat (length (fr_payload f))"
proof -
  let ?p = "fr_payload f" and ?k = "message_kind_to_u8 (fr_kind f)"
  let ?crc = "crc32 (frame_content (fr_kind f) ?p) 0"
  show "length (encode_frame f) = 14 + length ?p"
    using assms by (simp add: encode_frame_layout)
  have "take 10 (encode_frame f) =
      (put_u32 kFrameMagic @ [kFrameVersion, ?k]) @ put_u32 (of_nat (length ?p)) @ []"
    using assms by (simp add: encode_frame_layout frame_layout_def)
  moreover have "length (put_u32 kFrameMagic @ [kFrameVersion, ?k]) = 6" by simp
  ultimately show "get_u32 (take 10 (encode_frame f)) 6 = of_nat (length ?p)"
    by (metis get_u32_at)
qed

lemma small_payload:
  assumes "length (fr_payload f) \<le> unat kMaxPayload"
  shows "unat (of_nat (length (fr_payload f)) :: u32) = length (fr_payload f)"
    and "\<not> (of_nat (length (fr_payload f)) :: u32) > kMaxPayload"
proof -
  show unat: "unat (of_nat (length (fr_payload f)) :: u32) = length (fr_payload f)"
    using assms by (simp add: unsigned_of_nat take_bit_nat_eq_self kMaxPayload_def)
  show "\<not> (of_nat (length (fr_payload f)) :: u32) > kMaxPayload"
    using assms unat by (simp add: word_less_nat_alt)
qed

lemma recv_one_frame:
  assumes f: "length (fr_payload f) \<le> unat kMaxPayload"
    and hdr: "recv 10 s = (take 10 (encode_frame f), s1)"
    and rest: "recv_rest (length (fr_payload f) + 4) s1 = (Some (drop 10 (encode_frame f)), s2)"
  shows "recv_one s = (text_of (fr_payload f), s2)"
proof -
  have "length (take 10 (encode_frame f)) = 10" using frame_bytes(1) [OF f] by simp
  moreover have "decode_frame (Some (encode_frame f)) = Some f" using f by (simp add: decode_iff)
  ultimately show ?thesis
    using hdr rest frame_bytes(2) [OF f] small_payload [OF f] by (simp add: recv_one_def Let_def)
qed

lemma recv_header: "10 \<le> length (hd s) \<Longrightarrow> s \<noteq> [] \<Longrightarrow> \<exists>s'. recv 10 s = (take 10 (concat s), s')"
  by (cases s) auto

text \<open>
  A frame at the head of the stream is read, whatever follows it, and what follows stays on the
  socket.
\<close>

lemma frame_received:
  assumes f: "length (fr_payload f) \<le> unat kMaxPayload"
    and s: "concat s = encode_frame f @ more_bytes" "chunks s" "10 \<le> length (hd s)"
  shows "\<exists>s'. recv_one s = (text_of (fr_payload f), s') \<and> concat s' = more_bytes \<and> chunks s'"
proof -
  note len = frame_bytes(1) [OF f]
  have "s \<noteq> []" using s(1) len by auto
  then obtain s1 where s1: "recv 10 s = (take 10 (concat s), s1)" using recv_header s(3) by blast
  have "concat s = take 10 (concat s) @ concat s1" "chunks s1"
    using recv_chunks(1) [OF s1 s(2)] by simp_all
  then have "concat s1 = drop 10 (concat s)" "chunks s1"
    by (metis append_take_drop_id same_append_eq, simp)
  then have rest: "concat s1 = drop 10 (encode_frame f) @ more_bytes" "chunks s1"
    using s(1) len by simp_all
  let ?n = "length (fr_payload f) + 4"
  have "take ?n (concat s1) = drop 10 (encode_frame f)" "drop ?n (concat s1) = more_bytes"
    "?n \<le> length (concat s1)"
    using rest(1) len by simp_all
  then obtain s2 where "recv_rest ?n s1 = (Some (drop 10 (encode_frame f)), s2)"
    "concat s2 = more_bytes" "chunks s2"
    using recv_rest_chunks [OF rest(2), of ?n] by metis
  moreover have "take 10 (concat s) = take 10 (encode_frame f)" using s(1) len by simp
  ultimately show ?thesis using recv_one_frame [OF f] s1 by metis
qed

text \<open>
  The bytes of one buffer as the receiver finds them: in chunks, of which the first holds the header.
\<close>

definition delivery :: "bytes \<Rightarrow> bytes list \<Rightarrow> bool" where
  "delivery bs cs \<longleftrightarrow> concat cs = bs \<and> chunks cs \<and> cs \<noteq> [] \<and> 10 \<le> length (hd cs)"

text \<open>
  What a socket passes on, if all of it is accepted and the first call takes the header, is such a
  sequence of chunks.
\<close>

lemma send_delivery:
  assumes "socket_send x buf (n # ns) st = (True, cs)" "10 \<le> n" "10 \<le> length buf"
  shows "delivery buf cs"
proof -
  have buf: "buf \<noteq> []" using assms(3) by auto
  then have "concat cs = buf" "chunks cs"
    using socket_send_prefix [OF assms(1)] by (auto simp: chunks_def)
  moreover have "hd cs = take (nat n) buf" "cs \<noteq> []"
    using assms buf by (auto simp: socket_send_def split: if_splits prod.splits)
  ultimately show ?thesis using assms(2,3) by (simp add: delivery_def nat_le_iff)
qed

text \<open>Both programs have a function that reads one frame; this is what they rely on.\<close>

locale frame_reader =
  fixes fetch :: "bytes list \<Rightarrow> string \<times> bytes list"
  assumes fetched: "delivery (encode_frame f) cs \<Longrightarrow> length (fr_payload f) \<le> unat kMaxPayload \<Longrightarrow>
      fetch (cs @ s) = (text_of (fr_payload f), s)"
    and ended: "fetch [] = ([], [])"
begin

lemma fetch_text:
  "delivery (encode_frame (text_frame k t)) cs \<Longrightarrow> length t \<le> unat kMaxPayload \<Longrightarrow>
    fetch (cs @ s) = (t, s)"
  using fetched [of "text_frame k t" cs s] by (simp add: text_frame_def)

end

lemma recv_one_delivery:
  assumes cs: "delivery (encode_frame f) cs" and f: "length (fr_payload f) \<le> unat kMaxPayload"
  shows "recv_one (cs @ s) = (text_of (fr_payload f), s)"
proof -
  obtain c cs' where cs': "cs = c # cs'" using cs by (cases cs) (simp_all add: delivery_def)
  have c: "10 \<le> length c" "chunks cs'" "c @ concat cs' = encode_frame f"
    using cs cs' by (simp_all add: delivery_def)
  define ds where "ds = (if length c \<le> 10 then cs' else drop 10 c # cs')"
  have ds: "concat ds = drop 10 (encode_frame f)" "chunks ds" "recv 10 (cs @ s) = (take 10 (encode_frame f), ds @ s)"
    using c by (auto simp: ds_def cs' c(3) [symmetric])
  moreover have "length (concat ds) = length (fr_payload f) + 4"
    using ds(1) frame_bytes(1) [OF f] by simp
  ultimately show ?thesis using recv_one_frame [OF f] recv_rest_exact [of ds s] by simp
qed

interpretation coordinator_reader: frame_reader recv_one
  by unfold_locales (simp_all add: recv_one_delivery, simp add: recv_one_def)

section \<open>The loop of a connection\<close>

text \<open>The texts that the loop receives before it finds an empty one.\<close>

function received :: "bytes list \<Rightarrow> string list" where
  "received s = (case recv_one s of (line, s') \<Rightarrow> if line = [] then [] else line # received s')"
  by pat_completeness auto
termination
  by (relation "measure unread") (use recv_one_unread in \<open>auto dest: sym\<close>)

declare received.simps [simp del]

lemma serve_closed: "serve_event (Closed 0) (one_connection epoch ss r) =
    (one_connection epoch ss (end_session ss r))\<lparr>co_sessions := []\<rparr>"
  by (simp add: serve_event_def one_connection_def hm_erase_def)

lemma serve_received:
  "handle_line epoch line ss r = (Return reply, ss', r') \<Longrightarrow>
    serve_event (Received 0 line) (one_connection epoch ss r) = one_connection epoch ss' r'"
  by (simp add: serve_event_def one_connection_def)

lemma serve_faulty:
  "handle_line epoch line ss r = (Throw fault, ss', r') \<Longrightarrow>
    serve_event (Received 0 line) (one_connection epoch ss r) =
      (one_connection epoch ss r)\<lparr>co_fault := Some fault\<rparr>"
  using handle_line_fault [of epoch line ss r fault ss' r']
  by (simp add: serve_event_def one_connection_def)

text \<open>What the loop does to the process that has this connection only.\<close>

definition connection_events :: "bytes list \<Rightarrow> Event list" where
  "connection_events s = map (Received 0) (received s) @ [Closed 0]"

lemma connection_as_events:
  "serve_connection epoch s ss r = (sent, fault, r') \<Longrightarrow>
    co_fault (serve_from (one_connection epoch ss r) (connection_events s)) = fault
    \<and> co_registry (serve_from (one_connection epoch ss r) (connection_events s)) = r'
    \<and> (if fault = None then length sent = length (received s) else length sent < length (received s))"
proof (induction epoch s ss r arbitrary: sent fault r' rule: serve_connection.induct)
  case (1 epoch s ss r)
  obtain line s' where line: "recv_one s = (line, s')" by fastforce
  show ?case
  proof (cases "line = []")
    case True
    then show ?thesis
      using "1.prems" line
      by (simp add: serve_connection.simps [of epoch s] received.simps [of s] connection_events_def
          serve_closed) (auto simp: one_connection_def)
  next
    case False
    obtain reply ss' r1 where h: "handle_line epoch line ss r = (reply, ss', r1)"
      using prod_cases3 by blast
    have events: "connection_events s = Received 0 line # connection_events s'"
      "received s = line # received s'"
      using line False by (simp_all add: received.simps [of s] connection_events_def)
    show ?thesis
    proof (cases reply)
      case (Throw e)
      then have "r1 = r" using handle_line_fault h by blast
      then show ?thesis
        using "1.prems" line False h Throw serve_faulty [of epoch line ss r e ss' r1]
        by (simp add: serve_connection.simps [of epoch s] events serve_from_ended)
          (auto simp: one_connection_def)
    next
      case (Return f)
      obtain sent' fault' r2 where rest: "serve_connection epoch s' ss' r1 = (sent', fault', r2)"
        using prod_cases3 by blast
      have "sent = encode_frame f # sent'" "fault = fault'" "r' = r2"
        using "1.prems" line False h Return rest by (simp_all add: serve_connection.simps [of epoch s])
      then show ?thesis
        using "1.IH" [OF line [symmetric] False h [symmetric] Return refl rest] h Return
        by (simp add: events serve_received)
    qed
  qed
qed

text \<open>
  C7. The loop of a connection, run over any bytes, does what the events do that the texts it reads
  stand for, and then the end of the connection: it leaves the same registry, and it ends the process
  exactly if one of these events does. Every text is answered by one frame, unless the process ends.
\<close>

theorem connection_refines_events:
  "case serve_connection epoch s ss r of
     (sent, fault, r') \<Rightarrow>
       co_fault (serve_from (one_connection epoch ss r) (connection_events s)) = fault
       \<and> co_registry (serve_from (one_connection epoch ss r) (connection_events s)) = r'
       \<and> (if fault = None then length sent = length (received s) else length sent < length (received s))"
proof -
  obtain sent fault r' where "serve_connection epoch s ss r = (sent, fault, r')"
    using prod_cases3 by blast
  then show ?thesis using connection_as_events by simp
qed

end
