(* ===== verification/RR_Worker.thy ===== *)
theory RR_Worker
  imports RR_Transport
begin

text \<open>
  The worker program (\<^verbatim>\<open>worker.cpp\<close>) and its conversation with the coordinator. The
  socket of the worker is the list of the chunks that it will receive; whether the connection to a port
  succeeds is an argument. What the program sends, what it prints and how it ends is the result: the
  endless sleep of the modes \<^verbatim>\<open>hold\<close> and \<^verbatim>\<open>idle\<close> is the end
  \<open>Holding\<close>.
\<close>

section \<open>Frames\<close>

text \<open>The buffer of one frame, as it is passed to the socket.\<close>

definition send_text :: "MessageKind \<Rightarrow> string \<Rightarrow> bytes" where
  "send_text k t = encode_frame \<lparr>fr_kind = k, fr_payload = map byte_of_char t\<rparr>"

definition recv_line :: "bytes list \<Rightarrow> string \<times> bytes list" where
  "recv_line s =
    (case recv 10 s of
       (hdr, s1) \<Rightarrow>
         if length hdr \<noteq> 10 then ([], s1)
         else
           let len = get_u32 hdr 6
           in if len > kMaxPayload then ([], s1)
              else case recv_rest (unat len + 4) s1 of
                (None, s2) \<Rightarrow> ([], s2)
              | (Some rest, s2) \<Rightarrow>
                  (case decode_frame (Some (hdr @ rest)) of
                     None \<Rightarrow> ([], s2)
                   | Some f \<Rightarrow> (text_of (fr_payload f), s2)))"

lemma recv_line_recv_one: "recv_line = recv_one"
  by (rule ext) (simp add: recv_line_def recv_one_def)

interpretation worker_reader: frame_reader recv_line
  unfolding recv_line_recv_one by (rule coordinator_reader.frame_reader_axioms)

section \<open>The program\<close>

text \<open>Addition of \<^verbatim>\<open>int\<close>, which wraps around here.\<close>

definition plus_int :: "int \<Rightarrow> int \<Rightarrow> int" where
  "plus_int a b = sint (word_of_int (a + b) :: 32 word)"

definition hello_text :: "int \<Rightarrow> string" where
  "hello_text wid = ''HELLO,'' @ show_signed wid"

definition hold_messages :: "int \<Rightarrow> string \<Rightarrow> (MessageKind \<times> string) list" where
  "hold_messages wid gen =
    [(REGISTER_RUNTIME, ''REG_RT,'' @ show_signed wid @ '','' @ show_signed wid @ '',1,native,cpp,x64''),
     (REGISTER_SERVICE, ''REG_SV,'' @ show_signed (plus_int 100 wid) @ '',1,MODEL_SERVER,svc,CUDA''),
     (REGISTER_ENDPOINT, ''REG_EP,'' @ show_signed wid @ '','' @ gen @ '','' @ show_signed (plus_int 41000 wid)),
     (REGISTER_CAPABILITY, ''REG_CA,'' @ show_signed wid @ '',CUDA_AVAILABLE''),
     (REGISTER_SERVICE, ''REG_IN,'' @ show_signed (plus_int 100 wid) @ '','' @ gen @ '',1,'' @ show_signed wid
        @ '','' @ show_signed wid @ '','' @ show_signed wid @ '','' @ show_signed wid)]"

text \<open>The boot in the first reply: zero if there is none, \<open>None\<close> if \<^verbatim>\<open>stoull\<close> throws.\<close>

definition read_boot :: "string \<Rightarrow> u64 option" where
  "read_boot line = (if take 5 line = ''BOOT='' then stoull (drop 5 line) else Some 0)"

text \<open>Each message is sent and its reply awaited; the last reply is kept.\<close>

fun exchange :: "(MessageKind \<times> string) list \<Rightarrow> bytes list \<Rightarrow> string \<Rightarrow> bytes list \<times> string" where
  "exchange [] s ack = ([], ack)"
| "exchange ((k, t) # ms) s ack =
    (case recv_line s of
       (line, s') \<Rightarrow> (case exchange ms s' line of (sent, ack') \<Rightarrow> (send_text k t # sent, ack')))"

datatype WorkerEnd = Exited int | Holding | Terminated

record WorkerRun =
  wk_sent :: "bytes list"
  wk_out :: "string list"
  wk_end :: WorkerEnd

definition worker_name :: "int \<Rightarrow> string" where
  "worker_name wid = ''WORKER'' @ show_signed wid"

text \<open>\<^verbatim>\<open>printf\<close> of a C string stops at its first zero.\<close>

definition c_str :: "string \<Rightarrow> string" where
  "c_str s = takeWhile (\<lambda>c. c \<noteq> CHR 0x00) s"

definition worker_connected :: "int \<Rightarrow> string \<Rightarrow> string \<Rightarrow> bytes list \<Rightarrow> WorkerRun" where
  "worker_connected wid mode gen s =
    (let hello = send_text HELLO (hello_text wid)
     in case recv_line s of
       (boot_line, s1) \<Rightarrow>
         (case read_boot boot_line of
            None \<Rightarrow> \<lparr>wk_sent = [hello], wk_out = [], wk_end = Terminated\<rparr>
          | Some boot \<Rightarrow>
              let line1 = worker_name wid @ '': boot='' @ show_u64 boot
              in if mode = ''hold'' then
                   (case exchange (hold_messages wid gen) s1 [] of
                      (sent, ack) \<Rightarrow>
                        \<lparr>wk_sent = hello # sent,
                         wk_out = [line1, worker_name wid @ '': registered and holding (ack='' @ c_str ack @ '')''],
                         wk_end = Holding\<rparr>)
                 else \<lparr>wk_sent = [hello], wk_out = [line1],
                       wk_end = (if mode = ''idle'' then Holding else Exited 0)\<rparr>))"

definition worker_main :: "string list \<Rightarrow> (u16 \<Rightarrow> bool) \<Rightarrow> bytes list \<Rightarrow> WorkerRun" where
  "worker_main argv connects s =
    (if length argv < 4 then
       \<lparr>wk_sent = [], wk_out = [''worker: <port> <workerId> <mode>''], wk_end = Exited 2\<rparr>
     else case (stoi (argv ! 1), stoi (argv ! 2)) of
       (Some port, Some wid) \<Rightarrow>
         let mode = argv ! 3;
             gen = (if length argv > 4 \<and> length (argv ! 4) > 0 then argv ! 4 else ''1'')
         in if \<not> connects (word_of_int port) then
              \<lparr>wk_sent = [], wk_out = [worker_name wid @ '': connect failed''], wk_end = Exited 3\<rparr>
            else worker_connected wid mode gen s
     | _ \<Rightarrow> \<lparr>wk_sent = [], wk_out = [], wk_end = Terminated\<rparr>)"

text \<open>For small identities these are the texts that the coordinator was shown to understand.\<close>

lemma plus_int_small:
  assumes "0 \<le> a + b" "a + b < 2 ^ 31"
  shows "plus_int a b = a + b"
proof -
  have "sint (word_of_int x :: 32 word) = x" if "0 \<le> x" "x < 2 ^ 31" for x
    using that by (simp add: sint_sbintrunc' signed_take_bit_int_eq_self)
  then show ?thesis unfolding plus_int_def using assms .
qed

lemma hello_text_nat: "hello_text (int w) = worker_hello w"
  by (simp add: hello_text_def worker_hello_def)

lemma hold_messages_nat:
  assumes "w < 2 ^ 30"
  shows "map snd (hold_messages (int w) gen) = worker_hold w gen"
proof -
  have "plus_int 100 (int w) = int (100 + w)" "plus_int 41000 (int w) = int (41000 + w)"
    using assms plus_int_small [of 100 "int w"] plus_int_small [of 41000 "int w"] by simp_all
  then show ?thesis by (simp only: hold_messages_def worker_hold_def list.map snd_conv show_signed_nat)
qed

section \<open>The texts are short\<close>

lemma show_nat_short: "n < 10 ^ Suc k \<Longrightarrow> length (show_nat n) \<le> Suc k"
proof (induction k arbitrary: n)
  case (Suc k)
  show ?case
  proof (cases "n < 10")
    case False
    have "n div 10 < 10 ^ Suc k" using Suc.prems by (simp add: div_less_iff_less_mult)
    then have "length (show_nat (n div 10)) \<le> Suc k" by (rule Suc.IH)
    then show ?thesis using False by (subst show_nat.simps) simp
  qed (subst show_nat.simps, simp)
qed (subst show_nat.simps, simp)

lemma show_nat_20: "n < 2 ^ 64 \<Longrightarrow> length (show_nat n) \<le> 20"
  using show_nat_short [of n 19] by simp

lemma max_payload: "unat kMaxPayload = 65536"
  by (simp add: kMaxPayload_def)

lemma hold_texts_short:
  assumes "w < 2 ^ 30" "g < 2 ^ 64"
  shows "list_all (\<lambda>t. t \<noteq> [] \<and> length t \<le> unat kMaxPayload) (worker_hold w (show_nat g))"
proof -
  have "length (show_nat w) \<le> 20" "length (show_nat (100 + w)) \<le> 20" "length (show_nat (41000 + w)) \<le> 20"
    "length (show_nat g) \<le> 20"
    using assms by (simp_all add: show_nat_20)
  then show ?thesis unfolding worker_hold_def max_payload by simp
qed

section \<open>What the coordinator reads\<close>

text \<open>A message that arrives is handled, and the loop goes on with the next one.\<close>

lemma serve_delivered:
  assumes "delivery (send_text k line) cs" "line \<noteq> []" "length line \<le> unat kMaxPayload"
    and "handle_line epoch line ss r = (Return reply, ss', r')"
    and "serve_connection epoch s ss' r' = (sent, fault, r'')"
  shows "serve_connection epoch (cs @ s) ss r = (encode_frame reply # sent, fault, r'')"
proof -
  have "recv_one (cs @ s) = (line, s)"
    using assms(1,3) by (intro coordinator_reader.fetch_text) (simp_all add: send_text_def text_frame_def)
  then show ?thesis using assms(2,4,5) by (simp add: serve_connection.simps [of epoch "cs @ s"])
qed

lemma serve_messages:
  assumes "list_all2 (\<lambda>(k, line) cs. delivery (send_text k line) cs) ms css"
    and "list_all (\<lambda>(k, line). line \<noteq> [] \<and> length line \<le> unat kMaxPayload) ms"
    and "list_all2 (\<lambda>(k, line) f. \<forall>r. \<exists>reply. handle_line epoch line ss r = (Return reply, ss, f r)) ms fs"
    and "serve_connection epoch s ss (foldl (\<lambda>r f. f r) r fs) = (sent, fault, r')"
  shows "\<exists>replies. length replies = length ms \<and>
    serve_connection epoch (concat css @ s) ss r = (replies @ sent, fault, r')"
  using assms
proof (induction ms arbitrary: css fs r)
  case (Cons m ms)
  obtain k line where m: "m = (k, line)" by fastforce
  obtain cs css' f fs' where lists: "css = cs # css'" "fs = f # fs'"
    using Cons.prems(1,3) by (auto simp: list_all2_Cons1)
  obtain reply where reply: "handle_line epoch line ss r = (Return reply, ss, f r)"
    using Cons.prems(3) m lists by auto
  have "list_all2 (\<lambda>(k, line) cs. delivery (send_text k line) cs) ms css'"
    "list_all (\<lambda>(k, line). line \<noteq> [] \<and> length line \<le> unat kMaxPayload) ms"
    "list_all2 (\<lambda>(k, line) f. \<forall>r. \<exists>reply. handle_line epoch line ss r = (Return reply, ss, f r)) ms fs'"
    "serve_connection epoch s ss (foldl (\<lambda>r f. f r) (f r) fs') = (sent, fault, r')"
    using Cons.prems lists by simp_all
  then obtain replies where replies: "length replies = length ms"
    "serve_connection epoch (concat css' @ s) ss (f r) = (replies @ sent, fault, r')"
    using Cons.IH by blast
  have "serve_connection epoch (cs @ concat css' @ s) ss r =
      (encode_frame reply # replies @ sent, fault, r')"
    using Cons.prems(1,2) m lists by (intro serve_delivered [OF _ _ _ reply replies(2)]) auto
  then show ?case
    using replies(1) lists by (intro exI [of _ "encode_frame reply # replies"]) simp
qed simp

lemma handled_perform:
  "handle_line epoch line ss r = perform (Return d) f ok ss r \<Longrightarrow>
    \<exists>reply. handle_line epoch line ss r = (Return reply, ss, snd (f d r))"
  using answer_registry [of "f d" ok r] by (cases "answer (f d) ok r") (simp add: perform_def)

lemma hold_messages_handled:
  assumes "w < 2 ^ 30" "g < 2 ^ 64" "ss_has_worker ss"
  shows "list_all2 (\<lambda>(k, line) f. \<forall>r. \<exists>reply. handle_line epoch line ss r = (Return reply, ss, f r))
    (hold_messages (int w) (show_nat g)) (map (\<lambda>c r. snd (execute c r)) (worker_commands epoch ss w g))"
proof -
  let ?line = "\<lambda>i. worker_hold w (show_nat g) ! i"
  have texts: "map snd (hold_messages (int w) (show_nat g)) = map ?line [0, 1, 2, 3, 4]"
    using assms(1) by (simp add: hold_messages_nat) (simp add: worker_hold_def)
  obtain k0 k1 k2 k3 k4 where "hold_messages (int w) (show_nat g) =
      [(k0, ?line 0), (k1, ?line 1), (k2, ?line 2), (k3, ?line 3), (k4, ?line 4)]"
    using texts by (auto simp: hold_messages_def)
  moreover note worker_lines [OF assms, of epoch, THEN handled_perform]
  ultimately show ?thesis by (simp add: worker_commands_def Let_def)
qed

section \<open>What the worker sends\<close>

lemma exchange_sent: "fst (exchange ms s ack) = map (\<lambda>(k, t). send_text k t) ms"
  by (induction ms s ack rule: exchange.induct) (auto split: prod.splits)

lemma worker_hold_sent:
  "wk_sent (worker_connected wid ''hold'' gen s) =
    send_text HELLO (hello_text wid) #
      (case read_boot (fst (recv_line s)) of
         None \<Rightarrow> [] | Some _ \<Rightarrow> map (\<lambda>(k, t). send_text k t) (hold_messages wid gen))"
proof -
  obtain line s1 where line: "recv_line s = (line, s1)" by fastforce
  obtain sent ack where "exchange (hold_messages wid gen) s1 [] = (sent, ack)" by fastforce
  then show ?thesis
    using exchange_sent [of "hold_messages wid gen" s1 "[]"] line
    by (simp add: worker_connected_def Let_def split: option.split)
qed

lemma worker_hold_out:
  "read_boot (fst (recv_line s)) = Some boot \<Longrightarrow>
    hd (wk_out (worker_connected wid ''hold'' gen s)) = worker_name wid @ '': boot='' @ show_u64 boot
    \<and> wk_end (worker_connected wid ''hold'' gen s) = Holding"
  by (cases "recv_line s") (simp add: worker_connected_def Let_def split: prod.split)

lemma worker_main_hold:
  assumes "port < 2 ^ 31" "w < 2 ^ 30" "connects (of_nat port)"
  shows "worker_main [prog, show_nat port, show_nat w, ''hold'', show_nat g] connects s =
    worker_connected (int w) ''hold'' (show_nat g) s"
  using assms by (simp add: worker_main_def stoi_show_nat)

lemma unat_64: "unat (b :: u64) < 2 ^ 64"
  by (rule unsigned_less [THEN order_less_le_trans]) simp

lemma read_boot_reply: "read_boot (''BOOT='' @ show_u64 b) = Some b"
  using stoull_show_nat [of "unat b"] unat_64 [of b] by (simp add: read_boot_def show_u64_def)

lemma serve_end: "serve_connection epoch [] ss r = ([], None, end_session ss r)"
  by (simp add: serve_connection.simps [of epoch "[]"] coordinator_reader.ended)

lemma serve_hello_delivered:
  assumes "delivery (send_text HELLO (worker_hello w)) cs" "w < 2 ^ 64"
    and "adopt_worker (MkId (of_nat w)) r = (boot, r1)"
    and "serve_connection epoch s \<lparr>ss_boot = boot, ss_worker = MkId (of_nat w), ss_has_worker = True\<rparr> r1 =
      (sent, fault, r')"
  shows "serve_connection epoch (cs @ s) ss r =
    (encode_frame (text_frame ACK (''BOOT='' @ show_u64 (id_value boot))) # sent, fault, r')"
proof -
  have "length (show_nat w) \<le> 20" using assms(2) by (rule show_nat_20)
  then have "worker_hello w \<noteq> []" "length (worker_hello w) \<le> unat kMaxPayload"
    by (simp_all add: worker_hello_def max_payload)
  then show ?thesis
    using assms by (intro serve_delivered) (auto simp: handle_hello)
qed

text \<open>
  C8. The conversation of a worker that holds and a coordinator. If the bytes of each side reach the
  other in any chunks that keep the headers whole, the worker reads the boot that the coordinator has
  adopted it under, sends all its requests, and the coordinator performs the five registrations they
  mean under that boot, answers every request, and ends the incarnation when the connection ends.
\<close>

theorem worker_conversation:
  assumes "w < 2 ^ 30" "g < 2 ^ 64" "port < 2 ^ 31" "connects (of_nat port)"
    and wk: "wk = worker_main [prog, show_nat port, show_nat w, ''hold'', show_nat g] connects (ds @ later)"
    and requests: "list_all2 delivery (wk_sent wk) css"
    and served: "serve_connection epoch (concat css) new_session r = (sent, fault, r')"
    and reply: "delivery (hd sent) ds"
    and adopted: "adopt_worker (MkId (of_nat w)) r = (boot, r1)"
  shows "length (wk_sent wk) = 6 \<and> wk_end wk = Holding
    \<and> hd (wk_out wk) = ''WORKER'' @ show_nat w @ '': boot='' @ show_u64 (id_value boot)
    \<and> length sent = 6 \<and> fault = None
    \<and> r' = mark_worker_died boot
        (run (worker_commands epoch \<lparr>ss_boot = boot, ss_worker = MkId (of_nat w), ss_has_worker = True\<rparr> w g) r1)"
proof -
  define ss where "ss = \<lparr>ss_boot = boot, ss_worker = MkId (of_nat w) :: WorkerId, ss_has_worker = True\<rparr>"
  let ?ms = "hold_messages (int w) (show_nat g)" and ?boot = "''BOOT='' @ show_u64 (id_value boot)"
  have w: "length (show_nat w) \<le> 20" "length (show_nat (unat (id_value boot))) \<le> 20"
    using assms(1) unat_64 [of "id_value boot"] by (simp_all add: show_nat_20)
  have session: "wk = worker_connected (int w) ''hold'' (show_nat g) (ds @ later)"
    using assms(1,3,4) unfolding wk by (intro worker_main_hold)
  then obtain c0 css' where css: "css = c0 # css'" "delivery (send_text HELLO (worker_hello w)) c0"
    using requests by (auto simp: worker_hold_sent list_all2_Cons1 hello_text_nat)
  obtain sent' fault' r2 where tail: "serve_connection epoch (concat css') ss r1 = (sent', fault', r2)"
    using prod_cases3 by blast
  then have first: "serve_connection epoch (concat css) new_session r =
      (encode_frame (text_frame ACK ?boot) # sent', fault', r2)"
    using serve_hello_delivered [OF css(2) _ adopted] assms(1) css(1) by (simp add: ss_def)
  then have results: "sent = encode_frame (text_frame ACK ?boot) # sent'" "fault = fault'" "r' = r2"
    using served by simp_all
  have "recv_line (ds @ later) = (?boot, later)"
    using reply w results(1) by (intro worker_reader.fetch_text) (simp_all add: max_payload show_u64_def)
  then have boot: "read_boot (fst (recv_line (ds @ later))) = Some (id_value boot)"
    by (simp only: fst_conv read_boot_reply)
  then have sent: "wk_sent wk = send_text HELLO (worker_hello w) # map (\<lambda>(k, t). send_text k t) ?ms"
    by (simp add: session worker_hold_sent hello_text_nat)
  have "list_all2 (\<lambda>(k, line) cs. delivery (send_text k line) cs) ?ms css'"
    using requests sent css(1) by (simp add: list_all2_map1 case_prod_unfold)
  moreover have "list_all (\<lambda>(k, line). line \<noteq> [] \<and> length line \<le> unat kMaxPayload) ?ms"
    using hold_texts_short [OF assms(1,2)] hold_messages_nat [OF assms(1), of "show_nat g", symmetric]
    by (simp add: list_all_iff case_prod_unfold)
  moreover note hold_messages_handled [OF assms(1,2), of ss epoch]
  ultimately obtain replies where "length replies = length ?ms"
    "serve_connection epoch (concat css' @ []) ss r1 =
      (replies @ [], None, end_session ss (foldl (\<lambda>r f. f r) r1 (map (\<lambda>c r. snd (execute c r)) (worker_commands epoch ss w g))))"
    using serve_messages [OF _ _ _ serve_end] by (force simp: ss_def)
  then have "length sent' = 5" "fault' = None"
    "r2 = mark_worker_died boot (run (worker_commands epoch ss w g) r1)"
    using tail by (simp_all add: hold_messages_def end_session_def ss_def run_def foldl_map)
  then show ?thesis
    using results sent worker_hold_out [OF boot, of "int w" "show_nat g"]
    by (simp add: session worker_name_def hold_messages_def ss_def)
qed

text \<open>Worker 7 and a coordinator that has just started, over chunks that are whole frames.\<close>

definition worker_7 :: WorkerRun where
  "worker_7 = worker_main [''worker'', show_nat 41817, show_nat 7, ''hold'', show_nat 1] (\<lambda>port. port = 41817)
     [encode_frame (text_frame ACK (''BOOT='' @ show_u64 101))]"

definition just_started :: Registry where
  "just_started = co_registry start_coordinator"

lemma delivery_whole: "length (fr_payload f) \<le> unat kMaxPayload \<Longrightarrow> delivery (encode_frame f) [encode_frame f]"
  using frame_bytes(1) [of f] by (auto simp: delivery_def)

lemma delivery_text: "length t \<le> unat kMaxPayload \<Longrightarrow> delivery (send_text k t) [send_text k t]"
  unfolding send_text_def by (rule delivery_whole) simp

lemma messages_whole:
  "list_all (\<lambda>(k, t). length t \<le> unat kMaxPayload) ms \<Longrightarrow>
    list_all2 delivery (map (\<lambda>(k, t). send_text k t) ms) (map (\<lambda>(k, t). [send_text k t]) ms)"
  by (induction ms) (auto simp: delivery_text)

lemma concat_map_singleton_pair: "concat (map (\<lambda>(k, t). [f k t]) ms) = map (\<lambda>(k, t). f k t) ms"
  by (induction ms) auto

lemma worker_7_sent:
  "wk_sent worker_7 = map (\<lambda>(k, t). send_text k t) ((HELLO, worker_hello 7) # hold_messages (int 7) (show_nat 1))"
proof -
  have "recv_line [encode_frame (text_frame ACK (''BOOT='' @ show_u64 101))] = (''BOOT='' @ show_u64 101, [])"
    using worker_reader.fetch_text [OF delivery_whole, of ACK "''BOOT='' @ show_u64 101" "[]"]
      show_nat_20 [of 101] by (simp add: text_frame_def max_payload show_u64_def)
  then show ?thesis
    using read_boot_reply [of 101] hello_text_nat [of 7]
    by (simp add: worker_7_def worker_main_hold worker_hold_sent)
qed

lemma worker_conversation_witness:
  "hd (wk_out worker_7) = ''WORKER7: boot=101''
    \<and> (\<exists>sent. serve_connection (MkGen 2) (map (\<lambda>(k, t). send_text k t)
            ((HELLO, worker_hello 7) # hold_messages (int 7) (show_nat 1))) new_session just_started =
        (sent, None, mark_worker_died (MkId 101)
          (run (worker_commands (MkGen 2) worker_session 7 1) (snd (adopt_worker (MkId 7) just_started)))))"
proof -
  let ?ms = "(HELLO, worker_hello 7) # hold_messages (int 7) (show_nat 1)"
  let ?css = "map (\<lambda>(k, t). [send_text k t]) ?ms" and ?reply = "encode_frame (text_frame ACK (''BOOT='' @ show_u64 101))"
  obtain r1 where r1: "adopt_worker (MkId (of_nat 7)) just_started = (MkId 101, r1)"
    using adopted_101 by (metis just_started_def of_nat_numeral prod.collapse)
  have short: "list_all (\<lambda>(k, t). length t \<le> unat kMaxPayload) ?ms"
    using hold_texts_short [of 7 1] hold_messages_nat [of 7 "show_nat 1", symmetric] show_nat_20 [of 7]
    by (simp add: list_all_iff case_prod_unfold worker_hello_def max_payload)
  obtain sent fault r' where tail: "serve_connection (MkGen 2) (concat (tl ?css))
      \<lparr>ss_boot = MkId 101, ss_worker = MkId (of_nat 7), ss_has_worker = True\<rparr> r1 = (sent, fault, r')"
    using prod_cases3 by blast
  have served: "serve_connection (MkGen 2) (concat ?css) new_session just_started = (?reply # sent, fault, r')"
    using serve_hello_delivered [OF delivery_text _ r1 tail] short by simp
  have reply: "delivery (hd (?reply # sent)) [?reply]"
    using show_nat_20 [of 101] by (simp add: delivery_whole text_frame_def max_payload show_u64_def)
  have wk: "worker_7 = worker_main [''worker'', show_nat 41817, show_nat 7, ''hold'', show_nat 1]
      (\<lambda>port. port = 41817) ([?reply] @ [])"
    by (simp add: worker_7_def)
  have requests: "list_all2 delivery (wk_sent worker_7) ?css"
    unfolding worker_7_sent using short by (rule messages_whole)
  have "hd (wk_out worker_7) = ''WORKER'' @ show_nat 7 @ '': boot='' @ show_u64 101" "fault = None"
    "r' = mark_worker_died (MkId 101) (run (worker_commands (MkGen 2) worker_session 7 1) r1)"
    using worker_conversation [OF _ _ _ _ wk requests served reply r1]
    by (simp_all add: worker_session_def)
  moreover have "concat ?css = map (\<lambda>(k, t). send_text k t) ?ms"
    by (simp add: concat_map_singleton_pair)
  moreover have "r1 = snd (adopt_worker (MkId 7) just_started)"
    using r1 by simp
  moreover have "''WORKER'' @ show_nat 7 @ '': boot='' @ show_u64 101 = ''WORKER7: boot=101''"
    by (simp add: show_u64_def show_nat.simps)
  ultimately show ?thesis using served by auto
qed

text \<open>
  The worker says that it is registered whatever the coordinator answers, even if the connection has
  ended before the first reply.
\<close>

lemma registered_without_reply:
  "wk_out (worker_connected wid ''hold'' gen []) =
    [worker_name wid @ '': boot=0'', worker_name wid @ '': registered and holding (ack=)'']"
proof -
  have none: "recv_line [] = ([], [])" by (rule worker_reader.ended)
  have "snd (exchange ms [] []) = []" for ms
    by (induction ms) (auto simp: none split: prod.split)
  then obtain sent where "exchange (hold_messages wid gen) [] [] = (sent, [])"
    by (metis prod.collapse)
  then show ?thesis
    by (simp add: worker_connected_def none read_boot_def c_str_def show_u64_def show_nat.simps)
qed

end
