(* ===== verification/RR_Cli.thy ===== *)
theory RR_Cli
  imports RR_Recovery RR_Machine RR_Selection
begin

text \<open>
  The command line program (\<^verbatim>\<open>cli.cpp\<close>): the demonstration registry that it builds, the
  subcommands with their output and exit codes. The lemmas evaluate it: the demonstration is built
  without an error, its instance is available and found, and saving and recovering it succeeds.
\<close>

section \<open>Output\<close>

text \<open>The conversion \<^verbatim>\<open>%.1f\<close> of an exact value that is not negative.\<close>

definition show_fixed1 :: "score \<Rightarrow> string" where
  "show_fixed1 x =
    (let f = \<lfloor>10 * x\<rfloor>; d = 10 * x - of_int f;
         n = nat (if d > 1 / 2 \<or> (d = 1 / 2 \<and> odd f) then f + 1 else f)
     in show_nat (n div 10) @ ''.'' @ show_nat (n mod 10))"

text \<open>The conversion \<^verbatim>\<open>%d\<close> of a component of a version, cast to \<^verbatim>\<open>int\<close>.\<close>

definition show_int :: "i64 \<Rightarrow> string" where
  "show_int v = (let i = sint (ucast v :: 32 word) in (if i < 0 then ''-'' else []) @ show_nat (nat \<bar>i\<bar>))"

definition newline :: string where
  "newline = [CHR 0x0A]"

section \<open>The demonstration\<close>

definition cli_runtime :: RuntimeDescriptor where
  "cli_runtime = default_RuntimeDescriptor
    \<lparr>rt_runtime_id := MkId 1, rt_runtime_instance := MkId 1, rt_generation := MkGen 1,
     rt_kind := RuntimeKind.NATIVE_CPP, rt_name := ''native'', rt_family := ''cpp'',
     rt_version := the (semver_parse ''1.0.0''), rt_api_version := StructuredVersion 1 0 0,
     rt_abi_version := StructuredVersion 1 0 0, rt_architecture := ''x64'',
     rt_provenance := make_provenance EvidenceKind.REPORTED ''rt'' 0 []\<rparr>"

definition cli_service :: ServiceDescriptor where
  "cli_service = default_ServiceDescriptor
    \<lparr>svc_service_id := MkId 10, svc_kind := ServiceKind.MODEL_SERVER, svc_name := ''inference'',
     svc_generation := MkGen 1, svc_version := the (semver_parse ''2.0.0''),
     svc_api_version := StructuredVersion 2 0 0, svc_abi_version := StructuredVersion 1 0 0,
     svc_required_capabilities := [CapabilityKind.CUDA_AVAILABLE]\<rparr>"

definition cli_capability :: CapabilityDescriptor where
  "cli_capability = default_CapabilityDescriptor
    \<lparr>cap_capability_id := MkId 1, cap_kind := CapabilityKind.CUDA_AVAILABLE,
     cap_generation := MkGen 1, cap_version := the (semver_parse ''1.0.0''),
     cap_value := make_bool True, cap_freshness := Freshness.CURRENT,
     cap_provenance := make_provenance EvidenceKind.MEASURED ''device'' 0 []\<rparr>"

definition cli_endpoint :: EndpointDescriptor where
  "cli_endpoint = default_EndpointDescriptor
    \<lparr>ep_endpoint_id := MkId 1, ep_generation := MkGen 1, ep_protocol := MkId 1,
     ep_locator := \<lparr>loc_text = ''127.0.0.1:31817''\<rparr>, ep_transport := TransportKind.TCP,
     ep_port := 31817, ep_health := Health.HEALTHY, ep_reachability := Reachability.REACHABLE,
     ep_freshness := Freshness.CURRENT,
     ep_provenance := make_provenance EvidenceKind.MEASURED ''probe'' 0 []\<rparr>"

definition cli_instance :: "WorkerBootId \<Rightarrow> ServiceInstance" where
  "cli_instance boot = default_ServiceInstance
    \<lparr>si_service_id := svc_service_id cli_service, si_service_generation := MkGen 1,
     si_instance_generation := MkGen 1, si_node := MkId 1, si_worker := MkId 1, si_boot := boot,
     si_runtime_id := rt_runtime_id cli_runtime,
     si_runtime_instance := rt_runtime_instance cli_runtime,
     si_endpoints := [ep_endpoint_id cli_endpoint], si_protocols := [MkId 1],
     si_capabilities := [cap_capability_id cli_capability], si_health := Health.HEALTHY,
     si_readiness := Readiness.READY, si_freshness := Freshness.CURRENT,
     si_reachability := Reachability.REACHABLE, si_version := the (semver_parse ''2.0.0''),
     si_provenance := make_provenance EvidenceKind.REPORTED ''worker'' 0 [],
     si_lifecycle := Lifecycle.REGISTERING\<rparr>"

text \<open>Statements that end at the first exception.\<close>

fun run_all :: "Command list \<Rightarrow> Registry \<Rightarrow> RegistryError option \<times> Registry" where
  "run_all [] r = (None, r)"
| "run_all (c # cs) r =
    (case execute c r of (None, r') \<Rightarrow> run_all cs r' | (Some e, r') \<Rightarrow> (Some e, r'))"

definition make_demo :: "Registry \<Rightarrow> RegistryError option \<times> Registry" where
  "make_demo r =
    (let r1 = begin_coordinator_epoch r
     in case adopt_worker (MkId 1) r1 of
       (boot, r2) \<Rightarrow>
         let env = default_AuthorityEnvelope
               \<lparr>env_epoch := ra_epoch (r_authority r2), env_boot := boot\<rparr>
         in run_all [RegisterRuntime cli_runtime env, RegisterService cli_service env,
              RegisterCapability cli_capability env, RegisterEndpoint cli_endpoint env,
              RegisterInstance (cli_instance boot) env] r2)"

section \<open>The subcommands\<close>

definition show_query :: RegistryQuery where
  "show_query = default_RegistryQuery\<lparr>q_service_kind := ServiceKind.MODEL_SERVER\<rparr>"

definition cmd_show :: "Registry \<Rightarrow> string" where
  "cmd_show r =
    (case query_and_account show_query r of
       (res, r') \<Rightarrow>
         ''Runtime Registry state'' @ newline
         @ (case (case rr_ranked res of [] \<Rightarrow> None | cs # _ \<Rightarrow> find_instance r' (cs_instance_id cs)) of
              Some inst \<Rightarrow>
                ''  ServiceId='' @ show_u64 (id_value (si_service_id inst))
                @ '' ServiceInstanceId='' @ show_u64 (id_value (si_instance_id inst))
                @ '' NodeId='' @ show_u64 (id_value (si_node inst))
                @ '' WorkerBootId='' @ show_u64 (id_value (si_boot inst))
                @ '' RuntimeId='' @ show_u64 (id_value (si_runtime_id inst)) @ newline
                @ ''  endpoint=127.0.0.1:31817 protocol=FRAMED version=''
                @ show_int (sv_major (si_version inst)) @ ''.'' @ show_int (sv_minor (si_version inst))
                @ ''.'' @ show_int (sv_patch (si_version inst))
                @ '' api='' @ show_int (sv_major (si_version inst)) @ ''.''
                @ show_int (sv_minor (si_version inst)) @ '' abi=1.0'' @ newline
                @ ''  capability=CUDA_AVAILABLE health='' @ to_string_Health (si_health inst)
                @ '' readiness='' @ to_string_Readiness (si_readiness inst)
                @ '' freshness='' @ to_string_Freshness (si_freshness inst)
                @ '' reachability='' @ to_string_Reachability (si_reachability inst)
                @ '' lease=BOOT authority=OK provenance=REPORTED'' @ newline
            | None \<Rightarrow>
                ''  no eligible instances (outcome='' @ to_string_QueryOutcome (rr_outcome res)
                @ '')'' @ newline))"

definition discover_query :: RegistryQuery where
  "discover_query = default_RegistryQuery
    \<lparr>q_service_kind := ServiceKind.MODEL_SERVER,
     q_required_capabilities := [CapabilityKind.CUDA_AVAILABLE],
     q_required_readiness := Readiness.READY\<rparr>"

definition discover_line :: "Registry \<Rightarrow> CandidateScore \<Rightarrow> string" where
  "discover_line r cs =
    ''  instance='' @ show_u64 (id_value (cs_instance_id cs)) @ '' total='' @ show_fixed1 (cs_total cs)
    @ '' selected_reason=exact_service_id+capability_complete+readiness+reachable'' @ newline
    @ (case find_instance r (cs_instance_id cs) of
         None \<Rightarrow> []
       | Some inst \<Rightarrow>
           ''    health='' @ to_string_Health (si_health inst)
           @ '' readiness='' @ to_string_Readiness (si_readiness inst)
           @ '' reachability='' @ to_string_Reachability (si_reachability inst)
           @ '' freshness='' @ to_string_Freshness (si_freshness inst) @ newline)"

definition cmd_discover :: "Registry \<Rightarrow> string" where
  "cmd_discover r =
    (case query_and_account discover_query r of
       (res, r') \<Rightarrow>
         ''outcome='' @ to_string_QueryOutcome (rr_outcome res)
         @ '' selected='' @ show_nat (length (rr_selected res)) @ newline
         @ concat (map (discover_line r') (rr_ranked res))
         @ concat (map (\<lambda>rej. ''  rejected instance='' @ show_u64 (id_value (cj_instance_id rej))
             @ '' reason='' @ cj_reason rej @ newline) (rr_rejected res)))"

definition cmd_benchmark :: "Registry \<Rightarrow> string" where
  "cmd_benchmark r =
    ''registered='' @ show_signed (ac_service_instances (r_accounting r))
    @ '' serialized='' @ show_nat (length (serialize r)) @ '' digest='' @ semantic_digest r @ newline"

text \<open>
  The program ends with an output and an exit code, or with an exception that nothing catches.
  \<open>Unspecified\<close> stands for a load of bytes that are no snapshot of the model.
\<close>

datatype Ending = Exit string int | Uncaught RegistryError | Unspecified

definition cmd_save :: "Registry \<Rightarrow> Ending" where
  "cmd_save r =
    (case load_from (Some (serialize r)) (new_registry default_RegistryOptions) of
       None \<Rightarrow> Unspecified
     | Some (Throw e, _) \<Rightarrow> Uncaught e
     | Some (Return _, r2) \<Rightarrow>
         Exit (''saved/recovered ok; digest='' @ semantic_digest r2 @ newline)
           (if check_invariants r2 = [] then 0 else 1))"

definition cli_main :: "string option \<Rightarrow> Ending" where
  "cli_main arg =
    (let sub = (case arg of None \<Rightarrow> ''show'' | Some s \<Rightarrow> s)
     in case make_demo (new_registry default_RegistryOptions) of
       (Some e, _) \<Rightarrow> Uncaught e
     | (None, reg) \<Rightarrow>
         if sub = ''show'' then Exit (cmd_show reg) 0
         else if sub = ''discover'' then Exit (cmd_discover reg) 0
         else if sub = ''benchmark'' then Exit (cmd_benchmark reg) 0
         else if sub = ''save'' \<or> sub = ''recover'' then cmd_save reg
         else Exit (''usage: runtime-registry [show|discover|benchmark|save|recover]'' @ newline) 0)"

section \<open>The demonstration evaluated\<close>

lemma cli_versions:
  "the (semver_parse ''1.0.0'') = \<lparr>sv_major = 1, sv_minor = 0, sv_patch = 0, sv_prerelease = [], sv_build = []\<rparr>"
  "the (semver_parse ''2.0.0'') = \<lparr>sv_major = 2, sv_minor = 0, sv_patch = 0, sv_prerelease = [], sv_build = []\<rparr>"
  by code_simp+

lemmas cli_records = cli_runtime_def cli_service_def cli_capability_def cli_endpoint_def cli_instance_def

definition cli_demo :: Registry where
  "cli_demo = snd (make_demo (new_registry default_RegistryOptions))"

definition cli_stored :: ServiceInstance where
  "cli_stored = (cli_instance (MkId 101))
    \<lparr>si_instance_id := MkId 1, si_lifecycle := Lifecycle.AVAILABLE\<rparr>"

lemma make_demo_evaluated:
  "let (e, d) = make_demo (new_registry default_RegistryOptions) in e = None
    \<and> r_services d = [(MkId 10, cli_service)] \<and> r_instances d = [(MkId 1, cli_stored)]
    \<and> r_runtimes d = [(MkId 1, cli_runtime)] \<and> r_runtime_instances d = [(MkId 1, cli_runtime)]
    \<and> r_endpoints d = [(MkId 1, cli_endpoint\<lparr>ep_service_instance := MkId 1\<rparr>)]
    \<and> r_capabilities d = [(MkId 1, cli_capability)]
    \<and> r_protocols d = [] \<and> r_backends d = [] \<and> r_devices d = [] \<and> r_nodes d = []
    \<and> r_leases d = [] \<and> r_tombstones d = [] \<and> r_compat_records d = [] \<and> r_invalidations d = []
    \<and> r_instance_history d = [cli_stored\<lparr>si_lifecycle := Lifecycle.REGISTERING\<rparr>]
    \<and> r_runtime_history d = [cli_runtime] \<and> r_endpoint_history d = [cli_endpoint]
    \<and> r_capability_history d = [cli_capability]"
  unfolding make_demo_def Let_def
  by (simp only: cli_stored_def cli_records cli_versions) code_simp

lemma make_demo_ok: "make_demo (new_registry default_RegistryOptions) = (None, cli_demo)"
  using make_demo_evaluated by (simp add: cli_demo_def Let_def split_beta prod_eq_iff)

lemma cli_parts:
  "r_services cli_demo = [(MkId 10, cli_service)]" "r_instances cli_demo = [(MkId 1, cli_stored)]"
  "r_runtimes cli_demo = [(MkId 1, cli_runtime)]" "r_runtime_instances cli_demo = [(MkId 1, cli_runtime)]"
  "r_endpoints cli_demo = [(MkId 1, cli_endpoint\<lparr>ep_service_instance := MkId 1\<rparr>)]"
  "r_capabilities cli_demo = [(MkId 1, cli_capability)]"
  "r_protocols cli_demo = []" "r_backends cli_demo = []" "r_devices cli_demo = []"
  "r_nodes cli_demo = []" "r_leases cli_demo = []" "r_tombstones cli_demo = []"
  "r_compat_records cli_demo = []" "r_invalidations cli_demo = []"
  "r_instance_history cli_demo = [cli_stored\<lparr>si_lifecycle := Lifecycle.REGISTERING\<rparr>]"
  "r_runtime_history cli_demo = [cli_runtime]" "r_endpoint_history cli_demo = [cli_endpoint]"
  "r_capability_history cli_demo = [cli_capability]"
  using make_demo_evaluated by (simp_all add: make_demo_ok)

lemmas cli_oks = str_ok_def max_string_def version_ok_def prov_ok_def servicedesc_ok_def
  instance_ok_def runtime_ok_def endpoint_ok_def capability_ok_def capval_ok.simps

lemma cli_persistable: "persistable cli_demo"
  by (simp add: persistable_def map_ok_def list_ok_def kMaxRecordsPerMap_def hm_wf_def cli_parts cli_oks
      cli_stored_def cli_records cli_versions make_bool_def make_provenance_def
      default_ServiceDescriptor_def default_ServiceInstance_def default_RuntimeDescriptor_def
      default_EndpointDescriptor_def default_CapabilityDescriptor_def
      default_SemanticVersion_def default_Provenance_def)

lemma sorted_map_small [simp]: "sorted_map key [] = []" "sorted_map key [(k, v)] = [(key v, v)]"
  by (simp_all add: sorted_map_def sorted_records_def hm_keys_def)

lemma cli_stored_facts:
  "si_instance_id cli_stored = MkId 1" "si_service_id cli_stored = MkId 10"
  "si_endpoints cli_stored = [MkId 1]" "svc_service_id cli_service = MkId 10"
  "ep_endpoint_id cli_endpoint = MkId 1" "si_lifecycle (revalidate_instance cli_stored) \<noteq> Lifecycle.AVAILABLE"
  by (simp_all add: cli_stored_def cli_records revalidate_instance_def Let_def)

lemma cli_recovered:
  "check_invariants (recover (restore_counters (persisted_counters cli_demo)
     (reloaded cli_demo (new_registry default_RegistryOptions)))) = []"
  by (simp add: check_invariants_def recover_def rebuild_accounting_def revalidate_all_def restore_counters_def
      reloaded_def cli_parts cli_stored_facts instance_index_by_service_def rebuild_indexes_def
      index_step_def index_insert_def hs_insert_def hm_map_def Let_def)

text \<open>Saving and recovering the demonstration succeeds.\<close>

lemma cli_save: "\<exists>out. cli_main (Some ''save'') = Exit out 0"
  using cli_recovered load_serialized [OF cli_persistable, of "new_registry default_RegistryOptions"]
  by (simp add: cli_main_def make_demo_ok cmd_save_def)

end
