(* ===== verification/Spec2Isabelle.thy ===== *)
theory Spec2Isabelle
  imports RR_Scenario RR_Enums RR_Version RR_Durability RR_Explanation RR_Worker RR_Cli
begin

text \<open>
  A verification of the runtime registry: the library \<^verbatim>\<open>src/src\<close> with its headers
  \<^verbatim>\<open>src/include/runtimeregistry\<close>, a registry of services, instances, runtimes,
  endpoints, capabilities and leases that workers maintain through a coordinator and clients query.

  \<^bold>\<open>The program and its parts.\<close> A \<^verbatim>\<open>Registry\<close> object holds one map per
  record kind, secondary indexes, histories, counters and the authority state (coordinator epoch,
  live worker boots, generations). A worker is adopted and receives a boot; every mutating call
  carries an envelope with the epoch and the boot, which is validated before anything else. Queries
  filter and rank the stored instances. The registry is written to and read from a byte format, and
  the coordinator program offers it to workers over framed messages.

  \<^bold>\<open>Theories and code.\<close>
  \<^item> \<open>RR_Prelude\<close>: machine integers, outcomes of calls that may throw, hash maps and sets.
  \<^item> \<open>RR_Identity\<close> (\<^verbatim>\<open>strong.hpp\<close>, \<^verbatim>\<open>identity.hpp\<close>): typed
    identities and generations. \<open>RR_Enums\<close> (\<^verbatim>\<open>enums.hpp\<close>,
    \<^verbatim>\<open>enums.cpp\<close>, \<^verbatim>\<open>provenance.cpp\<close>): enumerations and their texts.
    \<open>RR_Version\<close> (\<^verbatim>\<open>version.hpp\<close>, \<^verbatim>\<open>version.cpp\<close>): versions.
    \<open>RR_Model\<close> (\<^verbatim>\<open>model.hpp\<close>, \<^verbatim>\<open>capability.hpp\<close>,
    \<^verbatim>\<open>provenance.hpp\<close>): the records.
  \<^item> \<open>RR_State\<close> (\<^verbatim>\<open>registry.hpp\<close>, \<^verbatim>\<open>authority.hpp\<close>,
    \<^verbatim>\<open>accounting.hpp\<close>, \<^verbatim>\<open>error.hpp\<close>): the state of a registry, as the
    record \<open>Registry\<close> with one field per member, and the private helpers.
    \<open>RR_Registration\<close>, \<open>RR_Instances\<close>, \<open>RR_Leases\<close> (\<^verbatim>\<open>registry.cpp\<close>) and
    \<open>RR_Authority\<close> (\<^verbatim>\<open>authority.cpp\<close>): one definition per member function, with the
    name of the function. An operation maps a registry to an outcome (a value or the error that is
    thrown) and the registry it leaves; what was written before a throw stays written.
  \<^item> \<open>RR_Selection\<close> and \<open>RR_Scores\<close> (\<^verbatim>\<open>selection.hpp\<close>,
    \<^verbatim>\<open>query.hpp\<close>, \<^verbatim>\<open>selection.cpp\<close>): queries; scores are computed in
    double precision arithmetic.
  \<^item> \<open>RR_Machine\<close>: the mutating member functions as the commands of a state machine.
    \<open>RR_Invariants\<close>, \<open>RR_Contracts\<close>, \<open>RR_Effects\<close>: what all commands keep and what single
    operations promise. \<open>RR_Scenario\<close>: a concrete run that shows that hypotheses can hold.
  \<^item> \<open>RR_Wire\<close> (\<^verbatim>\<open>protocol.hpp\<close>, \<^verbatim>\<open>protocol.cpp\<close>,
    \<^verbatim>\<open>crc32.hpp\<close>), \<open>RR_Sha256\<close> and \<open>RR_Sha256_Vector\<close>
    (\<^verbatim>\<open>sha256.cpp\<close>): bytes, checksums, frames and digests.
  \<^item> \<open>RR_Codec\<close>, \<open>RR_Records\<close>, \<open>RR_Persistence\<close>
    (\<^verbatim>\<open>persistence.cpp\<close>): the writers and readers of all record types and the
    functions \<^verbatim>\<open>serialize_to\<close> and \<^verbatim>\<open>load_from\<close>. \<open>RR_Recovery\<close> and
    \<open>RR_Durability\<close>: their properties.
  \<^item> \<open>RR_Explanation\<close> (\<^verbatim>\<open>explanation.cpp\<close>, the rendering of
    \<^verbatim>\<open>capability.cpp\<close>): the texts about records and queries, with doubles as the streams
    of C++ print them.
  \<^item> \<open>RR_Coordinator\<close> (\<^verbatim>\<open>coordinator.cpp\<close>, the texts of
    \<^verbatim>\<open>worker.cpp\<close>): the receive loop of a connection, one function for a request
    (\<open>handle_line\<close>), the thread of a connection run to its end (\<open>serve_connection\<close>), and the process
    as the interleaved events of its connections (\<open>serve\<close>). \<open>RR_Sessions\<close> and \<open>RR_Deployment\<close>: its
    properties, and the requests of a worker as the registrations they mean.
  \<^item> \<open>RR_Sockets\<close> (\<^verbatim>\<open>tcp.hpp\<close>, \<^verbatim>\<open>tcp.cpp\<close>): socket objects that own handles of
    the operating system, the server and the client connection. \<open>RR_Transport\<close>: frames over a stream
    that arrives in chunks, and the loop of a connection as events. \<open>RR_Worker\<close>
    (\<^verbatim>\<open>worker.cpp\<close>): the worker program and its conversation with the coordinator.
  \<^item> \<open>RR_Cli\<close> (\<^verbatim>\<open>cli.cpp\<close>): the demonstration and the subcommands of the command line program.

  \<^bold>\<open>Interfaces.\<close> Each locale states a contract that several parts of the model meet:
  parsers that invert printers (enumerations), registrations of a versioned record kind, invariants
  of the machine with and without a step count (\<open>machine_invariant\<close>, \<open>step_invariant\<close>),
  the pairs of writers and readers of the byte format (\<open>codec\<close>, \<open>byte_enum\<close>), and the receiving end
  of a stream of frames (\<open>frame_reader\<close>), which both programs have. All are
  interpreted on the definitions of the model.

  \<^bold>\<open>What the lemmas show.\<close> Availability, indexes and counters are invariants of all commands
  from every reachable registry; envelopes of past epochs and retired boots stay rejected; queries
  meet an order-free specification and do not depend on iteration order; registrations and updates
  of instances, renewals of an acquired lease, refusals by tombstones, deaths of workers and new
  epochs have exactly their stated effects, errors included, also where these fall short of what the
  README promises (tombstones do not protect stored records, leases are checked only when the
  envelope names a generation, a failed registration may supersede); versions and enumerations round-trip through text; frames and snapshots
  round-trip through bytes and changed bytes are noticed; whatever loads is consistent.
  The coordinator is a client of the registry: its registry is always the result of a run of machine
  commands, so every invariant of the machine holds of it; a restarted worker fences the earlier
  session; an available instance has an open connection; the loop of a connection does
  what the events of its texts do; worker and coordinator understand each other over any chunks that
  keep the headers whole; sockets are neither leaked nor closed twice; and a query explains every candidate that it leaves out.

  \<^bold>\<open>Conventions and bounds.\<close> A hash map is an association list whose order stands for the
  unspecified iteration order; no property depends on it unless it says so. Unsigned integers wrap
  at their width. Signed overflow, undefined in C++, is modelled by wrap-around. Doubles are their bit
  patterns, and the sums of scores are exact rationals rounded as IEEE 754 asks. Accounting counters
  are unbounded integers. The recursive mutex makes each public operation one atomic step. Properties
  that need counters not to wrap bound the number of commands by two to the sixty-third. The
  recursive reader of capability values recurses at most once per byte of its input, which is
  proved to be enough (\<open>get_capval_unfold\<close>); no other definition needs fuel.

  \<^bold>\<open>Not modelled.\<close> Of the operating system's socket interface only the answers appear, as
  arguments: the results of the calls, the chunks that successive calls of \<^verbatim>\<open>recv\<close> find, and which
  sockets are open as ghost state. The loop of the coordinator that accepts connections is represented
  by its events; its port argument and log lines are left out. \<^verbatim>\<open>accounting.cpp\<close>, \<^verbatim>\<open>index.cpp\<close> and
  \<^verbatim>\<open>lease.cpp\<close> hold comments only. The device proof, examples, benchmarks, tests and
  tools call the library and add no logic. A snapshot whose enumeration bytes are no enumerators has
  no result in the model (\<open>load_from\<close> is \<open>None\<close>), since the records it makes are no values of
  the record types.
\<close>
section \<open>Reachable registries\<close>

text \<open>
  C1. In every registry that commands can produce, an instance reported as AVAILABLE belongs to a
  live boot, is CURRENT, READY and REACHABLE, and no failing or degraded health is on record.
\<close>

theorem available_backed:
  assumes "reach n r" "hm_find (r_instances r) k = Some i" "si_lifecycle i = Lifecycle.AVAILABLE"
  shows "is_boot_live (r_authority r) (si_boot i) \<and> si_freshness i = Freshness.CURRENT
    \<and> si_readiness i = Readiness.READY \<and> si_reachability i = Reachability.REACHABLE
    \<and> (si_health i = Health.HEALTHY \<or> si_health i = Health.UNKNOWN)"
  using consistent.reach_holds [OF assms(1)] assms(2,3) by (auto simp: available_ok_def backed_def)

theorem available_backed_witness:
  "\<exists>i. hm_find (r_instances demo) (MkId 20) = Some i
    \<and> is_boot_live (r_authority demo) (si_boot i)"
  using available_backed [OF demo_reach demo_instance] demo_instance by simp

text \<open>
  C2. Once an envelope names a past epoch or a boot that has been retired, no later sequence of
  commands makes it acceptable again: every command that carries it is refused with an authority
  error and leaves the registry exactly as it is, as long as the 64-bit counters do not wrap.
\<close>

theorem fenced_forever:
  assumes "fenced r env" "room_for (length cs) r" "envelope_of c = Some env"
  shows "\<exists>e. execute c (run cs r) = (Some e, run cs r)
    \<and> (err_kind e = STALE_EPOCH \<or> err_kind e = STALE_BOOT)"
proof -
  have "\<not> av_accept (validate_envelope (run cs r) env)"
    using fenced_run [OF assms(1,2)] by (rule fenced_not_accepted)
  then show ?thesis
    using execute_reject [OF assms(3)] by (auto simp: validate_envelope_def split: if_splits)
qed

theorem fenced_forever_witness:
  "\<exists>e. execute (Deregister (MkId 20) envelope) (run [AdoptWorker worker] demo_restarted)
    = (Some e, run [AdoptWorker worker] demo_restarted)"
  using fenced_forever [of demo_restarted envelope "[AdoptWorker worker]" "Deregister (MkId 20) envelope"]
    demo_restarted_fenced by auto

text \<open>
  C3. A worker has at most one live incarnation: two live boots of one worker are the same boot, in
  every registry that at most two to the sixty-third commands produce.
\<close>

theorem one_incarnation:
  assumes "reach n r" "n \<le> 2 ^ 63"
    and "is_boot_live (r_authority r) b" "is_boot_live (r_authority r) b'"
    and "boot_owner (r_authority r) b = boot_owner (r_authority r) b'"
  shows "b = b'"
proof -
  have inv: "incarnation_inv r"
    using incarnations.reach_good [OF assms(1,2)] by (simp add: boots_ok_def)
  show ?thesis
    using one_live_boot_per_worker [OF inv assms(3,4)] incarnation_invD(2) [OF inv assms(3)]
      incarnation_invD(2) [OF inv assms(4)] assms(5) by (auto simp: boot_owner_def)
qed

theorem one_incarnation_witness:
  "{b. is_boot_live (r_authority demo) b \<and> boot_owner (r_authority demo) b = worker} = {MkId 101}"
proof (intro equalityI subsetI)
  show "b \<in> {MkId 101}"
    if "b \<in> {b. is_boot_live (r_authority demo) b \<and> boot_owner (r_authority demo) b = worker}" for b
    using that one_incarnation [OF demo_reach _ _ demo_boot(1), of b] demo_boot(2) by simp
qed (use demo_boot in simp)

text \<open>
  C11. The four secondary indexes always agree with the canonical records: each lists exactly the
  instances stored with the given service, boot or node, and the index by kind exactly the services
  of that kind that have an instance.
\<close>

theorem indexes_agree:
  assumes "reach n r"
  shows "index_members (r_index_by_service r) s =
      {k. \<exists>i. hm_find (r_instances r) k = Some i \<and> si_service_id i = s}
    \<and> index_members (r_index_by_boot r) b =
      {k. \<exists>i. hm_find (r_instances r) k = Some i \<and> si_boot i = b}
    \<and> index_members (r_index_by_node r) nd =
      {k. \<exists>i. hm_find (r_instances r) k = Some i \<and> si_node i = nd}
    \<and> index_members (r_index_by_kind r) kd =
      {s. \<exists>k i svc. hm_find (r_instances r) k = Some i \<and> si_service_id i = s
        \<and> hm_find (r_services r) s = Some svc \<and> svc_kind svc = kd}"
proof -
  have ok: "keys_ok r" "index_ok r"
    using consistent.reach_holds [OF assms] by (simp_all add: structure_ok_def)
  have pl: "placement r k = Some (k, s, b, n) \<longleftrightarrow> (\<exists>i. hm_find (r_instances r) k = Some i
      \<and> si_service_id i = s \<and> si_boot i = b \<and> si_node i = n)" for k s b n
    using ok(1) by (auto simp: placement_def placed_def keys_ok_def keyed_def)
  show ?thesis
    using ok(2) unfolding index_ok_def pl by auto
qed

theorem indexes_agree_witness:
  "MkId 20 \<in> index_members (r_index_by_service demo) (MkId 1)"
  using indexes_agree [OF demo_reach, of "MkId 1"] demo_instance by auto

text \<open>
  No accounting counter is ever negative, although several operations decrement one.
\<close>

lemma accounting_nonnegative:
  assumes "reach n r"
  shows "\<not> accounting_negative r \<and> (\<forall>x \<in> set (counters (r_accounting r)). 0 \<le> x)"
  using consistent.reach_holds [OF assms]
  by (simp add: acc_ok_def accounting_negative_def counters_def Let_def)

lemma accounting_nonnegative_witness: "\<not> accounting_negative demo"
  using accounting_nonnegative [OF demo_reach] by blast


section \<open>Discovery\<close>

text \<open>
  C10. A query ranks exactly the stored instances that it considers and that meet every demand of
  the specification of a valid candidate, whatever the order in which the code checks them.
\<close>

theorem query_ranked:
  assumes "reach n r"
  shows "k \<in> set (map cs_instance_id (rr_ranked (query r q))) \<longleftrightarrow>
    (\<exists>i svc. hm_find (r_instances r) k = Some i \<and> considered r q i = Some svc \<and> eligible r q svc i)"
  using consistent.reach_holds [OF assms] by (intro ranked_iff) (simp add: structure_ok_def)

theorem query_ranked_witness:
  "MkId 20 \<in> set (map cs_instance_id (rr_ranked (query demo default_RegistryQuery)))"
  unfolding query_ranked [OF demo_reach]
  using demo_instance demo_considered(1) demo_eligible(1) by blast

text \<open>
  C12. The ranking is a strict order by descending score, then by identity; positions are the ranks;
  no instance occurs twice; and the selection is the prefix of the ranking that the query's limit
  allows.
\<close>

theorem query_ranking:
  assumes "reach n r"
  shows "sorted_wrt (\<lambda>a b. score_key a < score_key b) (rr_ranked (query r q))
    \<and> (\<forall>i < length (rr_ranked (query r q)). cs_rank (rr_ranked (query r q) ! i) = int i)
    \<and> distinct (map cs_instance_id (rr_ranked (query r q)))
    \<and> rr_selected (query r q) =
        take (unat (q_max_results q)) (map cs_instance_id (rr_ranked (query r q)))"
proof -
  have ok: "keys_ok r"
    using consistent.reach_holds [OF assms] by (simp add: structure_ok_def)
  have "\<forall>i < length (rr_ranked (query r q)). cs_rank (rr_ranked (query r q) ! i) = int i"
    by (simp add: query_simps(1) assign_ranks_nth)
  then show ?thesis
    using ranked_order [OF ok] ranked_distinct [OF ok] query_simps(2)
    by (simp add: sorted_wrt_iff_nth_less)
qed

theorem query_ranking_witness:
  "rr_selected (query demo default_RegistryQuery) =
    take 32 (map cs_instance_id (rr_ranked (query demo default_RegistryQuery)))"
  using query_ranking [OF demo_reach, of default_RegistryQuery]
  by (simp add: default_RegistryQuery_def)

text \<open>
  C13. The order in which the hash map of instances is iterated has no influence on what a query
  returns: ranking, selection, outcome and the number of candidates are the same, and the
  rejections are the same up to their order.
\<close>

theorem query_deterministic:
  assumes "reach n r" "mset m = mset (r_instances r)"
  shows "rr_ranked (query (r\<lparr>r_instances := m\<rparr>) q) = rr_ranked (query r q)
    \<and> rr_selected (query (r\<lparr>r_instances := m\<rparr>) q) = rr_selected (query r q)
    \<and> rr_outcome (query (r\<lparr>r_instances := m\<rparr>) q) = rr_outcome (query r q)
    \<and> rr_total_considered (query (r\<lparr>r_instances := m\<rparr>) q) = rr_total_considered (query r q)
    \<and> mset (rr_rejected (query (r\<lparr>r_instances := m\<rparr>) q)) = mset (rr_rejected (query r q))"
proof -
  have "keyed (r_instances r)"
    using consistent.reach_holds [OF assms(1)] by (simp add: structure_ok_def keys_ok_def)
  then show ?thesis using query_permutation [OF _ assms(2)] by blast
qed

theorem query_deterministic_witness:
  "rr_ranked (query (demo\<lparr>r_instances := rev (r_instances demo)\<rparr>) default_RegistryQuery) =
    rr_ranked (query demo default_RegistryQuery)"
  using query_deterministic [OF demo_reach, of "rev (r_instances demo)"] by simp

text \<open>
  C14. Only instances of live boots are ever selected, so nothing is found after a new coordinator
  epoch has begun, until workers come back.
\<close>

theorem discovery_needs_authority:
  assumes "reach n r"
  shows "(\<forall>k \<in> set (rr_selected (query r q)). \<exists>i. hm_find (r_instances r) k = Some i
      \<and> is_boot_live (r_authority r) (si_boot i))
    \<and> rr_ranked (query (begin_coordinator_epoch r) q) = []
    \<and> rr_outcome (query (begin_coordinator_epoch r) q)
        \<notin> {QueryOutcome.FOUND_EXACT, QueryOutcome.FOUND_MULTIPLE}"
proof -
  have "structure_ok r" using consistent.reach_holds [OF assms] by simp
  then have ok: "keys_ok r" "keys_ok (begin_coordinator_epoch r)"
    using structure_execute [of r BeginEpoch] by (simp_all add: structure_ok_def)
  have "rr_ranked (query (begin_coordinator_epoch r) q) = []"
    by (rule no_live_boot_no_ranked [OF ok(2)]) simp
  moreover have "\<exists>i. hm_find (r_instances r) k = Some i \<and> is_boot_live (r_authority r) (si_boot i)"
    if "k \<in> set (rr_selected (query r q))" for k
    using that selected_ranked [of r q] ranked_iff [OF ok(1), of k q] eligible_live by blast
  ultimately show ?thesis
    using found_iff_ranked [of "begin_coordinator_epoch r" q] by simp
qed

theorem discovery_needs_authority_witness:
  "rr_ranked (query (begin_coordinator_epoch demo) default_RegistryQuery) = []"
  using discovery_needs_authority [OF demo_reach] by blast


section \<open>Loss of authority\<close>

text \<open>
  C15. When the worker behind a live boot dies, every instance of the boot becomes stale,
  unreachable and not ready, its lease is no longer active, the endpoints bound to it are released,
  and no query selects it; instances of other boots are left as they are.
\<close>

theorem worker_death:
  assumes "reach n r" "is_boot_live (r_authority r) b"
    and "hm_find (r_instances r) k = Some i" "si_boot i = b"
  shows "hm_find (r_instances (mark_worker_died b r)) k = Some (kill_instance i)
    \<and> (\<forall>d. id_set (si_lease i) \<and> hm_find (r_leases (mark_worker_died b r)) (si_lease i) = Some d \<longrightarrow>
        ls_state d \<noteq> LeaseState.ACTIVE)
    \<and> (\<forall>e \<in> set (si_endpoints i). \<forall>ep. hm_find (r_endpoints r) e = Some ep
        \<and> ep_service_instance ep = k \<longrightarrow>
        hm_find (r_endpoints (mark_worker_died b r)) e = Some (released ep))
    \<and> (\<forall>q. k \<notin> set (rr_selected (query (mark_worker_died b r) q)))
    \<and> (\<forall>k' j. hm_find (r_instances r) k' = Some j \<and> si_boot j \<noteq> b \<longrightarrow>
        hm_find (r_instances (mark_worker_died b r)) k' = Some j)"
proof -
  have ok: "structure_ok r" using consistent.reach_holds [OF assms(1)] by simp
  then have id: "si_instance_id i = k"
    using assms(3) by (auto simp: structure_ok_def keys_ok_def keyed_def)
  have ok': "keys_ok (mark_worker_died b r)"
    using structure_execute [OF ok, of "WorkerDied b"] by (simp add: structure_ok_def)
  have "hm_find (r_instances (mark_worker_died b r)) k = Some (kill_instance i)"
    using death_instance [OF assms(2), of k] assms(3,4) by simp
  moreover have "\<not> eligible (mark_worker_died b r) q svc (kill_instance i)" for q svc
    using eligible_live [of "mark_worker_died b r" q svc "kill_instance i"] assms(2,4)
    by (auto simp: mark_worker_died_def)
  ultimately have "k \<notin> set (rr_selected (query (mark_worker_died b r) q))" for q
    using selected_ranked [of "mark_worker_died b r" q] ranked_iff [OF ok', of k q] by fastforce
  then show ?thesis
    using death_instance [OF assms(2)] death_lease [OF assms(2-4)]
      death_endpoint [OF assms(2-4)] assms(3,4) id by auto
qed

theorem worker_death_witness:
  "MkId 20 \<notin> set (rr_selected (query (mark_worker_died (MkId 101) demo) default_RegistryQuery))"
  using worker_death [OF demo_reach demo_boot(1) demo_instance] by simp

text \<open>
  C16. A new coordinator epoch fences every worker: no boot is live, every command that carries an
  envelope is refused and changes nothing, no instance is available or degraded, no lease is active.
\<close>

theorem epoch_fences:
  "(\<forall>b. \<not> is_boot_live (r_authority (begin_coordinator_epoch r)) b)
    \<and> (\<forall>c env. envelope_of c = Some env \<longrightarrow>
        fst (execute c (begin_coordinator_epoch r)) \<noteq> None
        \<and> snd (execute c (begin_coordinator_epoch r)) = begin_coordinator_epoch r)
    \<and> (\<forall>k i. hm_find (r_instances (begin_coordinator_epoch r)) k = Some i \<longrightarrow>
        si_lifecycle i \<noteq> Lifecycle.AVAILABLE \<and> si_lifecycle i \<noteq> Lifecycle.DEGRADED)
    \<and> (\<forall>k l. hm_find (r_leases (begin_coordinator_epoch r)) k = Some l \<longrightarrow>
        ls_state l \<noteq> LeaseState.ACTIVE)"
  by (auto simp: execute_reject epoch_simps(2,3) revalidated_lifecycle revalidated_lease)

theorem epoch_fences_witness:
  "fst (execute (Deregister (MkId 20) envelope) (begin_coordinator_epoch demo)) \<noteq> None"
  using conjunct1 [OF conjunct2 [OF epoch_fences [of demo]]] envelope_of.simps(11) by blast

section \<open>Instances\<close>



text \<open>
  The current instance of a service is a stored, competing instance of the highest generation,
  and there is none exactly when no stored instance competes.
\<close>

lemma current_is_newest:
  assumes "reach n r"
  shows "case find_current sid (r_instances r) of
      None \<Rightarrow> (\<forall>k i. hm_find (r_instances r) k = Some i \<longrightarrow> \<not> competes sid i)
    | Some (k, best) \<Rightarrow> hm_find (r_instances r) k = Some best \<and> competes sid best
        \<and> (\<forall>k' i. hm_find (r_instances r) k' = Some i \<and> competes sid i \<longrightarrow>
             si_instance_generation i \<le> si_instance_generation best)"
  using consistent.reach_holds [OF assms] by (intro find_current_spec) (simp add: structure_ok_def)

lemma current_is_newest_witness: "find_current (MkId 1) (r_instances demo) \<noteq> None"
proof
  assume none: "find_current (MkId 1) (r_instances demo) = None"
  have "\<not> competes (MkId 1) stored_instance"
    using current_is_newest [OF demo_reach, of "MkId 1"] demo_instance by (simp add: none)
  then show False by (simp add: competes_def historical_def)
qed

text \<open>
  C18. An instance is classified as available exactly when its boot is live, its own observations
  are current and ready, all its endpoints are registered, reachable and neither failing nor
  degraded, its lease, if it names one, is active, and every capability that its service requires, if
  the service is stored, is backed by a current capability of that kind. Nothing else enters: there
  is no condition on protocols or API versions, and an instance that names no lease needs none.
\<close>

theorem available_iff:
  "si_lifecycle (reclassify_lifecycle r i) = Lifecycle.AVAILABLE \<longleftrightarrow>
    is_boot_live (r_authority r) (si_boot i)
    \<and> si_freshness i = Freshness.CURRENT \<and> si_readiness i = Readiness.READY
    \<and> (if si_endpoints i = [] then si_reachability i = Reachability.REACHABLE
       else \<forall>e \<in> set (si_endpoints i). \<exists>ep. hm_find (r_endpoints r) e = Some ep
         \<and> ep_reachability ep = Reachability.REACHABLE)
    \<and> (si_health i = Health.HEALTHY \<or> si_health i = Health.UNKNOWN)
    \<and> \<not> some_endpoint (r_endpoints r) (si_endpoints i) endpoint_failed
    \<and> \<not> some_endpoint (r_endpoints r) (si_endpoints i) (\<lambda>ep. ep_health ep = Health.DEGRADED)
    \<and> (id_set (si_lease i) \<longrightarrow> (\<exists>l. hm_find (r_leases r) (si_lease i) = Some l
          \<and> ls_state l = LeaseState.ACTIVE))
    \<and> (\<forall>svc. hm_find (r_services r) (si_service_id i) = Some svc \<longrightarrow>
          (\<forall>req \<in> set (svc_required_capabilities svc).
            has_current_capability (r_capabilities r) (si_capabilities i) req))"
  by (rule reclassify_available)

theorem available_iff_witness:
  "si_lifecycle (reclassify_lifecycle demo stored_instance) = Lifecycle.AVAILABLE"
  unfolding available_iff
  by (simp add: demo_boot demo_parts endpoint_def lease1_def service_def
      default_ServiceDescriptor_def some_endpoint_def endpoint_failed_def)

text \<open>
  C19. A successful update of the health, readiness, freshness or reachability of an instance
  stores the instance with the new value, classified from the records alone: its earlier lifecycle
  is not consulted, so even a superseded instance may become available again. Other instances keep
  their records, and a generation named in the envelope is the instance's.
\<close>

theorem guarded_update:
  assumes "(f, op) \<in> {(si_health_update (\<lambda>_. h), update_health k h env),
      (si_readiness_update (\<lambda>_. rd), update_readiness k rd env),
      (si_freshness_update (\<lambda>_. fr), update_freshness k fr env),
      (si_reachability_update (\<lambda>_. rc), update_instance_reachability k rc env)}"
    and "op r = (Return (), r')"
  shows "\<exists>i. hm_find (r_instances r) k = Some i
    \<and> hm_find (r_instances r') k = Some (reclassify_lifecycle r (f i))
    \<and> (\<forall>l. reclassify_lifecycle r ((f i)\<lparr>si_lifecycle := l\<rparr>) = reclassify_lifecycle r (f i))
    \<and> (\<forall>k'. k' \<noteq> k \<longrightarrow> hm_find (r_instances r') k' = hm_find (r_instances r) k')
    \<and> (env_service_instance_generation env \<noteq> no_gen \<longrightarrow>
        env_service_instance_generation env = si_instance_generation i)"
proof -
  obtain kind msg where "update_instance k f kind msg env r = (Return (), r')"
    using assms by (auto simp: update_health_def update_readiness_def update_freshness_def
        update_instance_reachability_def)
  then show ?thesis
    by (rule update_success) (use reclassify_lifecycle_irrelevant in blast)
qed

theorem guarded_update_witness:
  "\<exists>r'. update_health (MkId 20) Health.DEGRADED envelope demo = (Return (), r')
    \<and> hm_find (r_instances r') (MkId 20) =
        Some (reclassify_lifecycle demo (stored_instance\<lparr>si_health := Health.DEGRADED\<rparr>))"
proof -
  obtain r' where r': "update_health (MkId 20) Health.DEGRADED envelope demo = (Return (), r')"
    by (simp add: update_health_def update_instance_def with_authority_accept demo_accepts
        demo_parts generation_is_current_generation_def envelope_generations)
  then show ?thesis
    using guarded_update [of "si_health_update (\<lambda>_. Health.DEGRADED)"
        "update_health (MkId 20) Health.DEGRADED envelope" Health.DEGRADED "MkId 20" envelope
        Readiness.READY Freshness.CURRENT Reachability.REACHABLE demo r'] demo_instance by auto
qed


section \<open>Errors\<close>

text \<open>
  C20. A command that fails changes nothing but counters, except for the registration and the
  supersession of an instance.
\<close>

theorem failure_changes_counters_only:
  assumes "execute c r = (Some e, r')"
    and "\<forall>i env. c \<noteq> RegisterInstance i env" "\<forall>k i env. c \<noteq> Supersede k i env"
  shows "r' = r\<lparr>r_accounting := r_accounting r'\<rparr>"
  using execute_quiet [OF assms] by (simp add: quiet_def)

theorem failure_changes_counters_only_witness:
  "\<exists>e r'. execute (RenewLease (MkId 31) envelope) demo = (Some e, r')
    \<and> r' = demo\<lparr>r_accounting := r_accounting r'\<rparr>"
proof -
  obtain e r' where ex: "execute (RenewLease (MkId 31) envelope) demo = (Some e, r')"
    by (simp add: run_op_def renew_lease_def with_authority_accept demo_accepts demo_parts throw_def)
  then show ?thesis using failure_changes_counters_only [OF ex] by blast
qed

text \<open>
  C21. The exception is real. A registration of an instance that fails leaves all instances alone,
  unless its envelope was accepted, its service is registered and it is newer than the current
  instance of the service (\<open>outdated_by\<close>): then the current instance has been superseded, no
  other one has changed, and the error is that of an endpoint. An unregistered endpoint anywhere in
  the list is enough for that. Every endpoint that has changed is bound to the identity of the
  instance that was not stored.
\<close>

theorem failed_registration_supersedes:
  "(outdated_by r env inst \<noteq> None \<and> (\<exists>e \<in> set (si_endpoints inst). hm_find (r_endpoints r) e = None) \<longrightarrow>
      \<not> returned (fst (register_instance inst env r)))
    \<and> (register_instance inst env r = (Throw err, r') \<longrightarrow>
        (case outdated_by r env inst of
           None \<Rightarrow> r_instances r' = r_instances r
         | Some (k, cur) \<Rightarrow>
             r_instances r' = hm_put k (cur\<lparr>si_lifecycle := Lifecycle.SUPERSEDED\<rparr>) (r_instances r)
             \<and> (err_kind err = UNKNOWN_IDENTITY \<or> err_kind err = DUPLICATE_CONFLICT))
        \<and> (hm_find (r_endpoints r') ep = hm_find (r_endpoints r) ep
            \<or> bound_to (si_instance_id (assigned_instance r inst)) r' ep))"
  using register_instance_failed [of inst env r err r' ep] register_instance_unregistered [of r env inst]
  by (auto split: option.split)

theorem failed_registration_supersedes_witness:
  "\<not> returned (fst (register_instance (unnamed_instance\<lparr>si_endpoints := [MkId 5, MkId 6]\<rparr>) envelope demo))
    \<and> hm_find (r_instances (snd (register_instance (unnamed_instance\<lparr>si_endpoints := [MkId 5, MkId 6]\<rparr>)
        envelope demo))) (MkId 20) = Some (stored_instance\<lparr>si_lifecycle := Lifecycle.SUPERSEDED\<rparr>)"
proof -
  let ?inst = "unnamed_instance\<lparr>si_endpoints := [MkId 5, MkId 6]\<rparr>"
  have out: "outdated_by demo envelope ?inst = Some (MkId 20, stored_instance)"
    using unnamed_facts(2)
    by (simp add: outdated_by_def demo_accepts demo_parts unnamed_instance_def less_Gen_def
        word_less_nat_alt)
  have "\<exists>e \<in> set (si_endpoints ?inst). hm_find (r_endpoints demo) e = None"
    by (simp add: demo_parts)
  then have "\<not> returned (fst (register_instance ?inst envelope demo))"
    using failed_registration_supersedes [of demo envelope ?inst] out by blast
  then obtain err r' where failed: "register_instance ?inst envelope demo = (Throw err, r')"
    by (cases "register_instance ?inst envelope demo"; cases "fst (register_instance ?inst envelope demo)")
      simp_all
  then show ?thesis
    using failed_registration_supersedes [of demo envelope ?inst err r'] out by simp
qed

section \<open>Generations\<close>

text \<open>
  C22. Whatever commands run, the stored generation of a service never decreases and a stored
  service is never lost.
\<close>

theorem service_generation_monotone:
  assumes "hm_find (r_services r) k = Some cur"
  shows "\<exists>cur'. hm_find (r_services (run cs r)) k = Some cur'
    \<and> svc_generation cur \<le> svc_generation cur'"
  using assms by (rule service_generation_run)

theorem service_generation_monotone_witness:
  "\<exists>cur'. hm_find (r_services (run [BeginEpoch] demo)) (MkId 1) = Some cur'
    \<and> svc_generation service \<le> svc_generation cur'"
  using service_generation_monotone [of demo "MkId 1" service "[BeginEpoch]"] by (simp add: demo_parts)

text \<open>
  C23. A record older than the stored one is turned down by each of the eight registration
  operations, and what is stored stays as it is.
\<close>

theorem older_record_rejected:
  "(hm_find (r_services r) (svc_service_id a) = Some a0 \<and> svc_generation a < svc_generation a0 \<longrightarrow>
      \<not> returned (fst (register_service a env r))
      \<and> r_services (snd (register_service a env r)) = r_services r)
    \<and> (hm_find (r_runtime_instances r) (rt_runtime_instance b) = Some b0
        \<and> rt_generation b < rt_generation b0 \<longrightarrow>
      \<not> returned (fst (register_runtime b env r))
      \<and> r_runtime_instances (snd (register_runtime b env r)) = r_runtime_instances r)
    \<and> (hm_find (r_protocols r) (pd_protocol_id c) = Some c0 \<and> pd_generation c < pd_generation c0 \<longrightarrow>
      \<not> returned (fst (register_protocol c env r))
      \<and> r_protocols (snd (register_protocol c env r)) = r_protocols r)
    \<and> (hm_find (r_endpoints r) (ep_endpoint_id d) = Some d0 \<and> ep_generation d < ep_generation d0 \<longrightarrow>
      \<not> returned (fst (register_endpoint d env r))
      \<and> r_endpoints (snd (register_endpoint d env r)) = r_endpoints r)
    \<and> (hm_find (r_capabilities r) (cap_capability_id e) = Some e0
        \<and> cap_generation e < cap_generation e0 \<longrightarrow>
      \<not> returned (fst (register_capability e env r))
      \<and> r_capabilities (snd (register_capability e env r)) = r_capabilities r)
    \<and> (hm_find (r_backends r) (bd_backend_id f) = Some f0 \<and> bd_generation f < bd_generation f0 \<longrightarrow>
      \<not> returned (fst (register_backend f env r))
      \<and> r_backends (snd (register_backend f env r)) = r_backends r)
    \<and> (hm_find (r_devices r) (dd_device_id g) = Some g0 \<and> dd_generation g < dd_generation g0 \<longrightarrow>
      \<not> returned (fst (register_device g env r))
      \<and> r_devices (snd (register_device g env r)) = r_devices r)
    \<and> (hm_find (r_nodes r) (nd_node_id h) = Some h0 \<and> nd_generation h < nd_generation h0 \<longrightarrow>
      \<not> returned (fst (register_node h env r))
      \<and> r_nodes (snd (register_node h env r)) = r_nodes r)"
  by (simp add: service_reg.replay_rejected runtime_reg.replay_rejected protocol_reg.replay_rejected
      endpoint_reg.replay_rejected capability_reg.replay_rejected backend_reg.replay_rejected
      device_reg.replay_rejected node_reg.replay_rejected)

theorem older_record_rejected_witness:
  "\<not> returned (fst (register_service (service\<lparr>svc_generation := MkGen 0\<rparr>) envelope demo))"
  using older_record_rejected [of demo "service\<lparr>svc_generation := MkGen 0\<rparr>" service envelope]
  by (simp add: demo_parts service_def less_Gen_def)

text \<open>
  C24. Repeating a successful registration of a service, protocol or node, or of a runtime,
  endpoint, backend or device that brings its own identity, succeeds again and leaves the whole
  registry exactly as it is, counters included. So does that of a capability with its own identity
  whose descriptor equals itself, which one with a NaN does not. For an instance with its own
  identity the stored record decides, which the classification has set: if it still equals the
  registered one, the repetition is confirmed, otherwise it is turned down as stale and only counted.
  Records that have the registry assign their identity are not covered.
\<close>

theorem registration_idempotent:
  "(returned (fst (register_service a env r)) \<longrightarrow>
      run_op (register_service a env) (snd (register_service a env r)) =
        (None, snd (register_service a env r)))
    \<and> (returned (fst (register_protocol b env r)) \<longrightarrow>
      run_op (register_protocol b env) (snd (register_protocol b env r)) =
        (None, snd (register_protocol b env r)))
    \<and> (returned (fst (register_node c env r)) \<longrightarrow>
      run_op (register_node c env) (snd (register_node c env r)) =
        (None, snd (register_node c env r)))
    \<and> (id_value (rt_runtime_instance d) \<noteq> 0 \<and> returned (fst (register_runtime d env r)) \<longrightarrow>
      run_op (register_runtime d env) (snd (register_runtime d env r)) =
        (None, snd (register_runtime d env r)))
    \<and> (id_value (ep_endpoint_id e) \<noteq> 0 \<and> returned (fst (register_endpoint e env r)) \<longrightarrow>
      run_op (register_endpoint e env) (snd (register_endpoint e env r)) =
        (None, snd (register_endpoint e env r)))
    \<and> (id_value (bd_backend_id f) \<noteq> 0 \<and> returned (fst (register_backend f env r)) \<longrightarrow>
      run_op (register_backend f env) (snd (register_backend f env r)) =
        (None, snd (register_backend f env r)))
    \<and> (id_value (dd_device_id g) \<noteq> 0 \<and> returned (fst (register_device g env r)) \<longrightarrow>
      run_op (register_device g env) (snd (register_device g env r)) =
        (None, snd (register_device g env r)))
    \<and> (id_value (cap_capability_id h) \<noteq> 0 \<and> cap_eq h h \<and> returned (fst (register_capability h env r)) \<longrightarrow>
      run_op (register_capability h env) (snd (register_capability h env r)) =
        (None, snd (register_capability h env r)))
    \<and> (reach n r \<and> id_value (si_instance_id i) \<noteq> 0 \<and> register_instance i env r = (Return k, r') \<longrightarrow>
      (\<exists>cur. hm_find (r_instances r') k = Some cur \<and>
        (if si_eq i cur then register_instance i env r' = (Return k, r')
         else \<exists>msg. register_instance i env r' =
           (Throw (RegistryError STALE_INSTANCE_GENERATION msg),
            RR_State.count ac_duplicate_conflict_rejections_update r'))))"
proof -
  have instance_part: "reach n r \<and> id_value (si_instance_id i) \<noteq> 0 \<and>
      register_instance i env r = (Return k, r') \<longrightarrow>
      (\<exists>cur. hm_find (r_instances r') k = Some cur \<and>
        (if si_eq i cur then register_instance i env r' = (Return k, r')
         else \<exists>msg. register_instance i env r' =
           (Throw (RegistryError STALE_INSTANCE_GENERATION msg),
            RR_State.count ac_duplicate_conflict_rejections_update r')))"
    using consistent.reach_holds [of n r] repeat_instance [of r i env k r'] by (auto simp: id_set_def)
  show ?thesis
    using service_reg.repeat_idempotent [of a env r] protocol_reg.repeat_idempotent [of b env r]
      node_reg.repeat_idempotent [of c env r] runtime_reg.repeat_idempotent [of d env r]
      endpoint_reg.repeat_idempotent [of e env r] backend_reg.repeat_idempotent [of f env r]
      device_reg.repeat_idempotent [of g env r] capability_reg.repeat_confirmed [of h env r]
    by (intro conjI instance_part) (simp_all add: run_op_returned)
qed

theorem registration_idempotent_witness:
  "run_op (register_service service envelope) (snd (register_service service envelope demo)) =
      (None, snd (register_service service envelope demo))
    \<and> (\<exists>r' msg. register_instance starting_instance envelope demo = (Return (MkId 21), r')
        \<and> fst (register_instance starting_instance envelope r') =
          Throw (RegistryError STALE_INSTANCE_GENERATION msg))"
proof -
  have "returned (fst (register_service service envelope demo))"
    by (simp add: register_service_def with_authority_accept demo_accepts demo_parts service_def
        svc_eq_def default_ServiceDescriptor_def)
  then have first: "run_op (register_service service envelope) (snd (register_service service envelope demo)) =
      (None, snd (register_service service envelope demo))"
    using registration_idempotent [of service envelope demo] by blast
  obtain r' where r': "register_instance starting_instance envelope demo = (Return (MkId 21), r')"
    using starting_facts(1) by (metis prod.collapse)
  moreover have "id_value (si_instance_id starting_instance) \<noteq> 0"
    by (simp add: starting_instance_def)
  ultimately obtain cur where "hm_find (r_instances r') (MkId 21) = Some cur"
    and again: "if si_eq starting_instance cur
      then register_instance starting_instance envelope r' = (Return (MkId 21), r')
      else \<exists>msg. register_instance starting_instance envelope r' =
        (Throw (RegistryError STALE_INSTANCE_GENERATION msg),
         RR_State.count ac_duplicate_conflict_rejections_update r')"
    using registration_idempotent [of _ envelope demo _ _ _ _ _ _ _ 6 starting_instance "MkId 21" r']
      demo_reach by blast
  then obtain msg where "fst (register_instance starting_instance envelope r') =
      Throw (RegistryError STALE_INSTANCE_GENERATION msg)"
    using starting_facts(2) [OF r'] by (auto split: if_splits)
  then show ?thesis using first r' by blast
qed

text \<open>A capability that does not equal itself cannot be registered twice.\<close>

lemma unequal_capability_repeat:
  assumes "av_accept (validate_envelope r env)" "hm_find (r_capabilities r) (cap_capability_id h) = None"
    and "id_value (cap_capability_id h) \<noteq> 0" "\<not> cap_eq h h"
    and "\<not> covered_by_tombstone r ''CapabilityId'' (render_typed_id (cap_capability_id h))
      (gen_value (cap_generation h))"
  shows "returned (fst (register_capability h env r))
    \<and> \<not> returned (fst (register_capability h env (snd (register_capability h env r))))"
proof -
  obtain x r' where first: "register_capability h env r = (Return x, r')"
    "r_capabilities r' = hm_put (cap_capability_id h) h (r_capabilities r)"
    using capability_reg.fresh [OF assms(1,2,5,3)] by blast
  have "av_accept (validate_envelope r' env)"
    using validate_envelope_cong [of r' r env] capability_reg.frame [of h env r] assms(1)
    by (simp add: first(1))
  then show ?thesis
    using capability_reg.stale [of r' env h h] assms(4) by (auto simp: first)
qed

text \<open>
  C25. In a registry that fewer than two to the sixty-third commands produce, an acquired lease is
  newer than every lease on record. In the registry it leaves, a renewal of this lease succeeds
  exactly when its envelope is accepted, the lease is not revoked, the boot of the envelope is that
  of the instance, if there is one, and the lease generation of the envelope is zero or that of the
  new lease; a refused renewal changes no lease. So an envelope that names the generation of a
  replaced lease is turned down, while one that names none is not checked for it.
\<close>

theorem lease_fencing:
  assumes "reach n r" "n < 2 ^ 63" "acquire_lease l env r = (Return k, r')"
  shows "(\<exists>d. hm_find (r_leases r') k = Some d
      \<and> (\<forall>k0 old. hm_find (r_leases r) k0 = Some old \<longrightarrow> ls_generation old < ls_generation d)
      \<and> (\<forall>env'. returned (fst (renew_lease k env' r')) \<longleftrightarrow>
          av_accept (validate_envelope r' env') \<and> ls_state d \<noteq> LeaseState.REVOKED
          \<and> (\<forall>i. hm_find (r_instances r') (ls_service_instance d) = Some i \<longrightarrow>
               si_boot i = env_boot env')
          \<and> (gen_value (env_lease_generation env') = 0
             \<or> env_lease_generation env' = ls_generation d)))
    \<and> (\<forall>env'. \<not> returned (fst (renew_lease k env' r')) \<longrightarrow>
        r_leases (snd (renew_lease k env' r')) = r_leases r')
    \<and> (\<forall>old env'. hm_find (r_leases r) k = Some old \<and> gen_value (ls_generation old) \<noteq> 0
        \<and> env_lease_generation env' = ls_generation old \<longrightarrow>
        \<not> returned (fst (renew_lease k env' r'))
        \<and> r_leases (snd (renew_lease k env' r')) = r_leases r')"
proof -
  have "leases_ok n r" using lease_counter.reach_good [OF assms(1)] assms(2) by simp
  from acquire_newest [OF this assms(2,3)] obtain d where
    d: "hm_find (r_leases r') k = Some d"
      "\<And>k0 old. hm_find (r_leases r) k0 = Some old \<Longrightarrow> ls_generation old < ls_generation d"
    by blast
  have "\<not> returned (fst (renew_lease k env' r')) \<and> r_leases (snd (renew_lease k env' r')) = r_leases r'"
    if "hm_find (r_leases r) k = Some old" "gen_value (ls_generation old) \<noteq> 0"
      "env_lease_generation env' = ls_generation old" for old env'
    using renew_stale_generation [OF d(1), of env'] d(2) [OF that(1)] that(2,3) by force
  then show ?thesis
    using d(1,2) renew_lease_iff [OF d(1)] renew_lease_refused by blast
qed

theorem lease_fencing_witness:
  "\<exists>d r'. acquire_lease lease1 envelope demo = (Return (MkId 30), r')
    \<and> hm_find (r_leases r') (MkId 30) = Some d \<and> MkGen 1 < ls_generation d"
proof -
  obtain r' where r': "acquire_lease lease1 envelope demo = (Return (MkId 30), r')"
    by (simp add: acquire_lease_def with_authority_accept demo_accepts lease1_def Let_def)
  have "(6 :: nat) < 2 ^ 63" by simp
  from conjunct1 [OF lease_fencing [OF demo_reach this r']] obtain d where
    d: "hm_find (r_leases r') (MkId 30) = Some d"
    and newest: "\<forall>k0 old. hm_find (r_leases demo) k0 = Some old \<longrightarrow> ls_generation old < ls_generation d"
    by blast
  have "MkGen 1 < ls_generation d"
    using newest [rule_format, of "MkId 30"] by (simp add: demo_parts)
  then show ?thesis using d r' by blast
qed

text \<open>
  C26. What tombstones refuse, after any commands that write no further tombstone. The registration
  of a service, runtime, endpoint or capability reports a tombstone exactly when its envelope is
  accepted, no record of its identity is stored, and a tombstone names this kind and identity with
  a floor at or above the generation. The registration of an instance does so exactly when its
  envelope is accepted, its service is stored, no instance of the service competes, and a tombstone
  names the service with a floor at or above the generation of the instance. A service that was not
  stored when the tombstones were written is not stored at or below their floors later. Stored
  records are not protected: they may be replaced below the floor.
\<close>

theorem tombstone_refusals:
  assumes "\<forall>c \<in> set cs. \<forall>tb env'. c \<noteq> CreateTombstone tb env'" "r' = run cs r"
  shows "(tombstone_error (fst (register_service a env r')) \<longleftrightarrow>
      av_accept (validate_envelope r' env) \<and> hm_find (r_services r') (svc_service_id a) = None
      \<and> tombstoned r ''ServiceId'' (render_typed_id (svc_service_id a)) (gen_value (svc_generation a)))
    \<and> (tombstone_error (fst (register_runtime b env r')) \<longleftrightarrow>
      av_accept (validate_envelope r' env)
      \<and> hm_find (r_runtime_instances r') (rt_runtime_instance b) = None
      \<and> tombstoned r ''RuntimeInstanceId'' (render_typed_id (rt_runtime_instance b))
          (gen_value (rt_generation b)))
    \<and> (tombstone_error (fst (register_endpoint c env r')) \<longleftrightarrow>
      av_accept (validate_envelope r' env) \<and> hm_find (r_endpoints r') (ep_endpoint_id c) = None
      \<and> tombstoned r ''EndpointId'' (render_typed_id (ep_endpoint_id c)) (gen_value (ep_generation c)))
    \<and> (tombstone_error (fst (register_capability d env r')) \<longleftrightarrow>
      av_accept (validate_envelope r' env)
      \<and> hm_find (r_capabilities r') (cap_capability_id d) = None
      \<and> tombstoned r ''CapabilityId'' (render_typed_id (cap_capability_id d))
          (gen_value (cap_generation d)))
    \<and> (tombstone_error (fst (register_instance i env r')) \<longleftrightarrow>
      av_accept (validate_envelope r' env) \<and> hm_find (r_services r') (si_service_id i) \<noteq> None
      \<and> find_current (si_service_id i) (r_instances r') = None
      \<and> tombstoned r ''ServiceId'' (render_typed_id (si_service_id i))
          (gen_value (si_instance_generation i)))
    \<and> (hm_find (r_services r) sid = None \<and> hm_find (r_services r') sid = Some svc \<longrightarrow>
      \<not> tombstoned r ''ServiceId'' (render_typed_id sid) (gen_value (svc_generation svc)))"
proof -
  have "tombstoned r' = tombstoned r"
    unfolding assms(2) by (rule tombstoned_cong) (rule tombstones_run [OF assms(1)])
  then show ?thesis
    using tombstoned_stays_out [OF assms(1), of r sid svc]
    by (simp add: record_refused instance_refused assms(2))
qed

theorem tombstone_refusals_witness:
  "tombstone_error (fst (register_service service2 envelope (run later_commands demo_tombstone)))
    \<and> \<not> tombstone_error (fst (register_service (service2\<lparr>svc_generation := MkGen 6\<rparr>) envelope
        (run later_commands demo_tombstone)))"
proof -
  have quiet: "\<forall>c \<in> set later_commands. \<forall>tb env. c \<noteq> CreateTombstone tb env"
    by (simp add: later_commands_def)
  have "\<not> tombstoned demo_tombstone ''ServiceId'' (render_typed_id (MkId 2 :: ServiceId)) 6"
    by (simp add: tombstoned_def demo_tombstone_def tombstone2_def word_le_nat_alt)
  then show ?thesis
    using conjunct1 [OF tombstone_refusals [OF quiet refl], of service2 envelope demo_tombstone]
      conjunct1 [OF tombstone_refusals [OF quiet refl],
        of "service2\<lparr>svc_generation := MkGen 6\<rparr>" envelope demo_tombstone]
      demo_tombstone_facts
    by (simp add: service2_def)
qed

section \<open>Scores\<close>

text \<open>
  C27. The score of an eligible candidate, which the code accumulates in double precision, is the
  exact sum of its factors: no factor and no partial sum is rounded, as long as the version number
  that enters it stays below two to the fifty-second.
\<close>

theorem score_exact:
  assumes "eligible r q svc inst" "length (q_required_capabilities q) < 2 ^ 53"
    and "\<bar>recency svc\<bar> < 2 ^ 52"
  shows "cs_total (candidate_score r q svc inst) =
    (\<Sum>p\<leftarrow>cs_factors (candidate_score r q svc inst). snd p)"
  using assms by (rule total_exact)

theorem score_exact_witness:
  "cs_total (candidate_score demo default_RegistryQuery service stored_instance) =
    (\<Sum>p\<leftarrow>cs_factors (candidate_score demo default_RegistryQuery service stored_instance). snd p)"
  using score_exact [OF demo_eligible(1)]
  by (simp add: default_RegistryQuery_def recency_def service_def default_ServiceDescriptor_def
      default_SemanticVersion_def)

text \<open>
  C28. The check of protocol versions does not filter: a candidate whose protocol is incompatible
  with the requested version is reported as rejected and ranked all the same.
\<close>

theorem incompatible_protocol_still_ranked:
  assumes "reach n r" "hm_find (r_instances r) k = Some i"
    and "considered r q i = Some svc" "eligible r q svc i"
    and "id_set (q_protocol_requirement q)" "q_has_protocol_version q"
    and "pid \<in> set (si_protocols i)" "hm_find (r_protocols r) pid = Some pd"
    and "negotiate_protocol (q_protocol_version q) (pd_version pd) False =
      NegotiationOutcome.INCOMPATIBLE"
  shows "k \<in> set (map cs_instance_id (rr_ranked (query r q)))
    \<and> (\<exists>j \<in> set (rr_rejected (query r q)). cj_instance_id j = k
        \<and> cj_category j = RejectionCategory.INCOMPATIBLE_PROTOCOL)"
proof -
  have ok: "keys_ok r"
    using consistent.reach_holds [OF assms(1)] by (simp add: structure_ok_def)
  have "si_instance_id i = k"
    using ok assms(2) by (auto simp: keys_ok_def keyed_def)
  moreover have "rejection_of i (RejectionCategory.INCOMPATIBLE_PROTOCOL, ''no compatible protocol'')
      \<in> set (rr_rejected (query r q))"
    by (rule rejected_stored [OF ok assms(2,3) inspect_incompatible [OF assms(4-9)]])
  ultimately show ?thesis
    using ranked_iff [OF ok, of k q] assms(2-4) by (force simp: rejection_of_def)
qed

theorem incompatible_protocol_still_ranked_witness:
  "MkId 20 \<in> set (map cs_instance_id (rr_ranked (query demo protocol_query)))
    \<and> (\<exists>j \<in> set (rr_rejected (query demo protocol_query)). cj_instance_id j = MkId 20)"
  using incompatible_protocol_still_ranked [OF demo_reach demo_instance demo_considered(2)
      demo_eligible(2) _ _ _ _ demo_incompatible, of "MkId 9"] protocol_query_facts
  by (auto simp: demo_parts)

section \<open>Versions and texts\<close>

text \<open>
  C29. Printing a semantic version that parsing can produce and parsing the text gives the version
  back; so does printing a structured version with components that are not negative.
\<close>

theorem version_roundtrip:
  "(semver_parse t = Some v \<longrightarrow> semver_parse (semver_str v) = Some v)
    \<and> (ver_nonneg (w :: 'tag StructuredVersion) \<longrightarrow> ver_parse (ver_str w) = Some w)"
  using semver_parse_str semver_parse_wf ver_parse_str by blast

theorem version_roundtrip_witness:
  "ver_parse (ver_str (StructuredVersion 1 2 3 :: ApiVersion)) =
    Some (StructuredVersion 1 2 3 :: ApiVersion)"
  using version_roundtrip [of "[]" default_SemanticVersion "StructuredVersion 1 2 3 :: ApiVersion"]
  by (simp add: ver_nonneg_def)

text \<open>
  C30. The comparison of semantic versions is a total preorder: antisymmetric up to the sign,
  transitive, and the equality and order operators are read off it consistently. It extends the
  order of structured versions, for which equal versions are the same.
\<close>

theorem version_order:
  "semver_compare b a = - semver_compare a b
    \<and> (semver_compare a b \<le> 0 \<and> semver_compare b c \<le> 0 \<longrightarrow> semver_compare a c \<le> 0)
    \<and> (semver_less a b \<or> semver_eq a b \<or> semver_less b a)
    \<and> (semver_less a b \<longrightarrow> \<not> semver_eq a b \<and> \<not> semver_less b a)
    \<and> (ver_eq v w \<longleftrightarrow> v = w)
    \<and> (ver_less v w \<or> v = w \<or> ver_less w v)"
proof -
  have "ver_eq v w \<longleftrightarrow> v = w"
    by (cases v; cases w) (auto simp: ver_eq_def ver_compare_def)
  then show ?thesis
    using semver_cmp.cmp_flip [of b a] semver_cmp.cmp_trans [of a b c] semver_cmp.cmp_total [of a b]
      ver_cmp.cmp_total [of v w]
    by (auto simp: semver_less_def semver_eq_def ver_less_def ver_eq_def)
qed

theorem version_order_witness:
  "\<not> semver_less (default_SemanticVersion\<lparr>sv_major := 1\<rparr>) default_SemanticVersion"
  using version_order [of default_SemanticVersion "default_SemanticVersion\<lparr>sv_major := 1\<rparr>"]
  by (simp add: semver_less_def semver_compare_def default_SemanticVersion_def)

text \<open>
  Numbers in version texts are exact up to eighteen digits: what parses is the decimal text of
  the value. A printed value that is not negative always parses back. Longer texts may wrap around:
  two to the sixty-fourth plus one parses as one.
\<close>

lemma number_text:
  "(parse_u64 s = Some v \<and> length s \<le> 18 \<longrightarrow> s = show_i64 v)
    \<and> (0 \<le> sint v \<longrightarrow> parse_u64 (show_i64 v) = Some v)
    \<and> parse_u64 ''18446744073709551617'' = Some 1"
proof -
  have "parse_u64 ''18446744073709551617'' = Some 1" by code_simp
  then show ?thesis using parse_u64_short by simp
qed

lemma number_text_witness: "parse_u64 (show_i64 42) = Some 42"
  using number_text [of "[]" 42] by simp

text \<open>
  For every enumeration that is read from text, the text of a value parses to the value, and
  any other text parses to UNKNOWN.
\<close>

lemma enum_text_roundtrip:
  "service_kind_from_string (to_string_ServiceKind a) = a
    \<and> (service_kind_from_string s \<noteq> ServiceKind.UNKNOWN \<longrightarrow>
        s = to_string_ServiceKind (service_kind_from_string s))
    \<and> runtime_kind_from_string (to_string_RuntimeKind b) = b
    \<and> (runtime_kind_from_string s \<noteq> RuntimeKind.UNKNOWN \<longrightarrow>
        s = to_string_RuntimeKind (runtime_kind_from_string s))
    \<and> transport_kind_from_string (to_string_TransportKind c) = c
    \<and> (transport_kind_from_string s \<noteq> TransportKind.UNKNOWN \<longrightarrow>
        s = to_string_TransportKind (transport_kind_from_string s))
    \<and> backend_kind_from_string (to_string_BackendKind d) = d
    \<and> (backend_kind_from_string s \<noteq> BackendKind.UNKNOWN \<longrightarrow>
        s = to_string_BackendKind (backend_kind_from_string s))
    \<and> capability_kind_from_string (to_string_CapabilityKind e) = e
    \<and> (capability_kind_from_string s \<noteq> CapabilityKind.UNKNOWN \<longrightarrow>
        s = to_string_CapabilityKind (capability_kind_from_string s))
    \<and> evidence_kind_from_string (to_string_EvidenceKind f) = f
    \<and> (evidence_kind_from_string s \<noteq> EvidenceKind.UNKNOWN \<longrightarrow>
        s = to_string_EvidenceKind (evidence_kind_from_string s))"
  using service_kind_text.parse_print runtime_kind_text.parse_print transport_kind_text.parse_print
    backend_kind_text.parse_print capability_kind_text.parse_print evidence_kind_text.parse_print
    service_kind_text.parse_known runtime_kind_text.parse_known transport_kind_text.parse_known
    backend_kind_text.parse_known capability_kind_text.parse_known evidence_kind_text.parse_known
  by blast

lemma enum_text_roundtrip_witness:
  "service_kind_from_string ''MODEL_SERVER'' = ServiceKind.UNKNOWN
    \<or> to_string_ServiceKind (service_kind_from_string ''MODEL_SERVER'') = ''MODEL_SERVER''"
  using enum_text_roundtrip [of _ "''MODEL_SERVER''"] by metis

end
